(* ===== verification/LE_Prelude.thy ===== *)
theory LE_Prelude
  imports Main "HOL-Library.Word" "HOL-Library.Sublist"
begin

text \<open>
  Shared vocabulary of the development.

  A Go \<open>string\<close> is an immutable sequence of bytes; it is modelled by Isabelle's
  \<open>string\<close> (a list of 8-bit characters), so that \<open>length\<close> counts bytes as Go's
  \<open>len\<close> does.  A \<open>uint64\<close> is a \<open>64 word\<close>.  A call that returns \<open>(v, err)\<close> is a
  sum \<open>error + v\<close>: \<open>Inl\<close> is the non-nil error.
\<close>

type_synonym u64 = "64 word"

named_theorems go_str \<open>equations of the Go string library\<close>
named_theorems step_simps \<open>one-step facts of the state machines\<close>

section \<open>Lists\<close>

text \<open>The first-seen de-duplication loop of Go (\<open>seen\<close> map and \<open>out\<close> slice).\<close>

fun dedup :: "'a set \<Rightarrow> 'a list \<Rightarrow> 'a list" where
  "dedup seen [] = []"
| "dedup seen (x # xs) =
     (if x \<in> seen then dedup seen xs else x # dedup (insert x seen) xs)"

lemma set_dedup [simp]: "set (dedup seen xs) = set xs - seen"
  by (induction seen xs rule: dedup.induct) auto

lemma distinct_dedup [simp]: "distinct (dedup seen xs)"
  by (induction seen xs rule: dedup.induct) auto

lemma subseq_dedup: "subseq (dedup seen xs) xs"
  by (induction seen xs rule: dedup.induct) auto

lemma dedup_distinct: "distinct xs \<Longrightarrow> set xs \<inter> seen = {} \<Longrightarrow> dedup seen xs = xs"
  by (induction seen xs rule: dedup.induct) auto

lemma dedup_snoc:
  "dedup seen (xs @ [x]) =
     dedup seen xs @ (if x \<in> seen \<union> set xs then [] else [x])"
  by (induction seen xs rule: dedup.induct) auto

lemma takeWhile_all: "\<forall>x\<in>set xs. P x \<Longrightarrow> takeWhile P xs = xs"
  by (induction xs) auto

lemma takeWhile_dropWhile_hit:
  "\<forall>x\<in>set xs. P x \<Longrightarrow> \<not> P y \<Longrightarrow> takeWhile P (xs @ y # ys) = xs \<and> dropWhile P (xs @ y # ys) = y # ys"
  by (induction xs) auto

end
