(* ===== verification/Go_Strings.thy ===== *)
theory Go_Strings
  imports LE_Prelude "HOL-Library.Char_ord" "HOL-Library.List_Lexorder"
begin

text \<open>
  What the sources use of Go's \<open>strings\<close> and \<open>strconv\<close> packages, on byte strings.
  String comparison (\<open><\<close>, \<open>strings.Compare\<close>) is Go's bytewise lexicographic order,
  which the imported instances \<open>Char_ord\<close> and \<open>List_Lexorder\<close> provide.
\<close>

section \<open>Byte classes\<close>

definition byte :: "char \<Rightarrow> nat" where
  "byte c = of_char c"

definition is_digit :: "char \<Rightarrow> bool" where
  "is_digit c \<longleftrightarrow> 48 \<le> byte c \<and> byte c \<le> 57"

definition is_lower :: "char \<Rightarrow> bool" where
  "is_lower c \<longleftrightarrow> 97 \<le> byte c \<and> byte c \<le> 122"

definition is_upper :: "char \<Rightarrow> bool" where
  "is_upper c \<longleftrightarrow> 65 \<le> byte c \<and> byte c \<le> 90"

definition is_alpha :: "char \<Rightarrow> bool" where
  "is_alpha c \<longleftrightarrow> is_lower c \<or> is_upper c"

definition is_alnum :: "char \<Rightarrow> bool" where
  "is_alnum c \<longleftrightarrow> is_alpha c \<or> is_digit c"

definition lower_char :: "char \<Rightarrow> char" where
  "lower_char c = (if is_upper c then char_of (byte c + 32) else c)"

text \<open>\<open>strings.ToLower\<close>; bytes of multi-byte UTF-8 sequences are left as they are
  (Unicode case tables are not modelled).\<close>

definition to_lower :: "string \<Rightarrow> string" where
  "to_lower = map lower_char"

text \<open>Code equations on integers, which evaluate faster than those on natural numbers.\<close>

lemma byte_int: "int (byte c) = of_char c"
  unfolding byte_def by (rule of_nat_of_char)

lemma byte_class_code [code]:
  "is_digit c \<longleftrightarrow> (let b = (of_char c :: int) in 48 \<le> b \<and> b \<le> 57)"
  "is_lower c \<longleftrightarrow> (let b = (of_char c :: int) in 97 \<le> b \<and> b \<le> 122)"
  "is_upper c \<longleftrightarrow> (let b = (of_char c :: int) in 65 \<le> b \<and> b \<le> 90)"
  by (simp_all add: is_digit_def is_lower_def is_upper_def Let_def flip: byte_int)

lemma lower_char_code [code]:
  "lower_char c = (if is_upper c then char_of ((of_char c :: int) + 32) else c)"
proof -
  have "char_of ((of_char c :: int) + 32) = char_of (byte c + 32)"
    unfolding byte_int [symmetric] by (metis String.char_of_nat of_nat_add of_nat_numeral)
  then show ?thesis by (simp add: lower_char_def)
qed

lemmas byte_class_defs = byte_def is_digit_def is_lower_def is_upper_def is_alpha_def is_alnum_def

lemma lower_char_not_upper [simp]: "\<not> is_upper (lower_char c)"
proof (cases "is_upper c")
  case True
  then have "byte (char_of (byte c + 32)) = byte c + 32"
    by (simp add: byte_class_defs)
  with True show ?thesis by (simp add: lower_char_def is_upper_def)
qed (simp add: lower_char_def)

lemma lower_char_idem [simp]: "lower_char (lower_char c) = lower_char c"
  by (simp add: lower_char_def [of "lower_char c"])

lemma lower_char_id: "\<not> is_upper c \<Longrightarrow> lower_char c = c"
  by (simp add: lower_char_def)

lemma to_lower_idem [simp]: "to_lower (to_lower s) = to_lower s"
  by (simp add: to_lower_def)

lemma to_lower_append [simp]: "to_lower (s @ t) = to_lower s @ to_lower t"
  by (simp add: to_lower_def)

section \<open>strings.TrimSpace\<close>

text \<open>
  The UTF-8 encodings of the runes of \<open>unicode.IsSpace\<close>, by their length.  A trim removes
  them one after the other from an end; a byte that is part of no such encoding stops it.
\<close>

definition space1 :: "char \<Rightarrow> bool" where
  "space1 c \<longleftrightarrow> byte c = 32 \<or> (9 \<le> byte c \<and> byte c \<le> 13)"

definition space2 :: "char \<Rightarrow> char \<Rightarrow> bool" where
  "space2 c d \<longleftrightarrow> byte c = 0xC2 \<and> (byte d = 0x85 \<or> byte d = 0xA0)"

definition space3 :: "char \<Rightarrow> char \<Rightarrow> char \<Rightarrow> bool" where
  "space3 c d e \<longleftrightarrow>
     byte c = 0xE1 \<and> byte d = 0x9A \<and> byte e = 0x80 \<or>
     byte c = 0xE2 \<and> byte d = 0x80 \<and>
       (0x80 \<le> byte e \<and> byte e \<le> 0x8A \<or> byte e = 0xA8 \<or> byte e = 0xA9 \<or> byte e = 0xAF) \<or>
     byte c = 0xE2 \<and> byte d = 0x81 \<and> byte e = 0x9F \<or>
     byte c = 0xE3 \<and> byte d = 0x80 \<and> byte e = 0x80"

fun trim_by :: "(char \<Rightarrow> char \<Rightarrow> bool) \<Rightarrow> (char \<Rightarrow> char \<Rightarrow> char \<Rightarrow> bool) \<Rightarrow> string \<Rightarrow> string" where
  "trim_by p2 p3 [] = []"
| "trim_by p2 p3 (c # s) =
     (if space1 c then trim_by p2 p3 s
      else case s of [] \<Rightarrow> c # s
           | d # t \<Rightarrow>
               if p2 c d then trim_by p2 p3 t
               else case t of [] \<Rightarrow> c # s
                    | e # u \<Rightarrow> if p3 c d e then trim_by p2 p3 u else c # s)"

definition trim_left :: "string \<Rightarrow> string" where
  "trim_left = trim_by space2 space3"

definition trim_right :: "string \<Rightarrow> string" where
  "trim_right s = rev (trim_by (\<lambda>c d. space2 d c) (\<lambda>c d e. space3 e d c) (rev s))"

definition trim_space :: "string \<Rightarrow> string" where
  "trim_space s = trim_right (trim_left s)"

text \<open>A string whose ends are plain ASCII non-space bytes is not changed.\<close>

definition solid :: "char \<Rightarrow> bool" where
  "solid c \<longleftrightarrow> 33 \<le> byte c \<and> byte c < 127"

lemma solid_space:
  assumes "solid c"
  shows "\<not> space1 c" "\<not> space2 c d" "\<not> space2 d c" "\<not> space3 c d e" "\<not> space3 d e c"
  using assms by (simp_all add: solid_def space1_def space2_def space3_def)

lemma trim_space_solid:
  assumes "s \<noteq> []" "solid (hd s)" "solid (last s)"
  shows "trim_space s = s"
proof -
  have "trim_left s = s"
    using assms(1,2) by (cases s) (auto simp: trim_left_def solid_space split: list.splits)
  moreover have "trim_right s = s"
    using assms(1,3)
    by (cases s rule: rev_cases) (auto simp: trim_right_def solid_space split: list.splits)
  ultimately show ?thesis by (simp add: trim_space_def)
qed

lemma trim_space_Nil [simp]: "trim_space [] = []"
  by (simp add: trim_space_def trim_left_def trim_right_def)

section \<open>Splitting, joining, searching\<close>

definition has_prefix :: "string \<Rightarrow> string \<Rightarrow> bool" where
  "has_prefix s p \<longleftrightarrow> take (length p) s = p"

definition has_suffix :: "string \<Rightarrow> string \<Rightarrow> bool" where
  "has_suffix s p \<longleftrightarrow> has_prefix (rev s) (rev p)"

fun contains :: "string \<Rightarrow> string \<Rightarrow> bool" where
  "contains [] p \<longleftrightarrow> p = []"
| "contains (c # s) p \<longleftrightarrow> has_prefix (c # s) p \<or> contains s p"

lemma has_prefix_append [simp]: "has_prefix (p @ s) p"
  by (simp add: has_prefix_def)

lemma contains_prefix: "has_prefix s p \<Longrightarrow> contains s p"
  by (cases s) (auto simp: has_prefix_def)

lemma contains_set: "contains s p \<Longrightarrow> set p \<subseteq> set s"
proof (induction s)
  case (Cons c s)
  have "set p \<subseteq> set (c # s)" if "has_prefix (c # s) p"
    using that by (metis has_prefix_def set_take_subset)
  with Cons show ?case by auto
qed simp

lemma contains_append: "contains (s @ p @ t) p"
  by (induction s) (simp_all add: contains_prefix)

text \<open>\<open>strings.Split(s, sep)\<close> for a one-byte separator.\<close>

fun split_on :: "char \<Rightarrow> string \<Rightarrow> string list" where
  "split_on c [] = [[]]"
| "split_on c (x # xs) =
     (if x = c then [] # split_on c xs
      else (case split_on c xs of [] \<Rightarrow> [[x]] | y # ys \<Rightarrow> (x # y) # ys))"

fun join_with :: "string \<Rightarrow> string list \<Rightarrow> string" where
  "join_with sep [] = []"
| "join_with sep [x] = x"
| "join_with sep (x # y # ys) = x @ sep @ join_with sep (y # ys)"

lemma split_on_not_Nil [simp]: "split_on c s \<noteq> []"
  by (induction s) (auto split: list.splits)

lemma split_on_none: "c \<notin> set s \<Longrightarrow> split_on c s = [s]"
  by (induction s) auto

lemma split_on_append: "c \<notin> set s \<Longrightarrow> split_on c (s @ c # t) = s # split_on c t"
  by (induction s) auto

lemma split_join:
  "xs \<noteq> [] \<Longrightarrow> \<forall>x\<in>set xs. c \<notin> set x \<Longrightarrow> split_on c (join_with [c] xs) = xs"
proof (induction "[c]" xs rule: join_with.induct)
  case (3 x y ys)
  then show ?case by (simp add: split_on_append)
qed (auto simp: split_on_none)

lemma join_split: "join_with [c] (split_on c s) = s"
proof (induction s)
  case (Cons x xs)
  obtain y ys where "split_on c xs = y # ys"
    by (cases "split_on c xs") auto
  with Cons show ?case by (cases ys) auto
qed simp

text \<open>\<open>strings.Cut\<close> at a byte, and the cut at the last occurrence
  (\<open>strings.LastIndex\<close>).\<close>

definition cut :: "char \<Rightarrow> string \<Rightarrow> string \<times> string" where
  "cut c s = (takeWhile (\<lambda>x. x \<noteq> c) s, tl (dropWhile (\<lambda>x. x \<noteq> c) s))"

definition cut_last :: "char \<Rightarrow> string \<Rightarrow> (string \<times> string) option" where
  "cut_last c s =
     (if c \<in> set s
      then Some (rev (tl (dropWhile (\<lambda>x. x \<noteq> c) (rev s))), rev (takeWhile (\<lambda>x. x \<noteq> c) (rev s)))
      else None)"

lemma cut_none: "c \<notin> set s \<Longrightarrow> cut c s = (s, [])"
  by (induction s) (auto simp: cut_def)

lemma cut_append: "c \<notin> set s \<Longrightarrow> cut c (s @ c # t) = (s, t)"
  by (induction s) (auto simp: cut_def)

lemma cut_last_none: "c \<notin> set s \<Longrightarrow> cut_last c s = None"
  by (simp add: cut_last_def)

lemma cut_last_append:
  assumes "c \<notin> set t"
  shows "cut_last c (s @ c # t) = Some (s, t)"
proof -
  have "\<forall>x\<in>set (rev t). x \<noteq> c" using assms by auto
  from takeWhile_dropWhile_hit [OF this, of c "rev s"]
  show ?thesis by (simp add: cut_last_def)
qed

text \<open>\<open>strings.TrimRight(s, "/")\<close>.\<close>

definition trim_right_char :: "char \<Rightarrow> string \<Rightarrow> string" where
  "trim_right_char c s = rev (dropWhile (\<lambda>x. x = c) (rev s))"

text \<open>\<open>strings.EqualFold(s, p)\<close> for an ASCII lower-case pattern \<open>p\<close>.  Under Unicode
  simple folding \<open>s\<close> also matches U+017F and \<open>k\<close> also matches U+212A.\<close>

fun equal_fold :: "string \<Rightarrow> string \<Rightarrow> bool" where
  "equal_fold s [] \<longleftrightarrow> s = []"
| "equal_fold s (p # ps) \<longleftrightarrow>
     (case s of [] \<Rightarrow> False | c # cs \<Rightarrow> lower_char c = p \<and> equal_fold cs ps) \<or>
     (p = CHR ''s'' \<and> has_prefix s [CHR 0xC5, CHR 0xBF] \<and> equal_fold (drop 2 s) ps) \<or>
     (p = CHR ''k'' \<and> has_prefix s [CHR 0xE2, CHR 0x84, CHR 0xAA] \<and> equal_fold (drop 3 s) ps)"

section \<open>strconv\<close>

definition digit_val :: "char \<Rightarrow> nat" where
  "digit_val c = byte c - 48"

fun digits_val :: "nat \<Rightarrow> string \<Rightarrow> nat" where
  "digits_val acc [] = acc"
| "digits_val acc (c # cs) = digits_val (10 * acc + digit_val c) cs"

definition all_digits :: "string \<Rightarrow> bool" where
  "all_digits s \<longleftrightarrow> s \<noteq> [] \<and> list_all is_digit s"

text \<open>\<open>strconv.ParseUint(s, 10, 64)\<close>.\<close>

definition parse_uint :: "string \<Rightarrow> u64 option" where
  "parse_uint s =
     (if all_digits s \<and> int (digits_val 0 s) < 2 ^ 64 then Some (of_nat (digits_val 0 s)) else None)"

text \<open>\<open>strconv.Atoi\<close>: an optional sign, then digits, in the range of \<open>int64\<close>.\<close>

definition atoi :: "string \<Rightarrow> int option" where
  "atoi s =
     (let neg = has_prefix s ''-'';
          ds = (if has_prefix s ''+'' \<or> has_prefix s ''-'' then tl s else s);
          n = int (digits_val 0 ds);
          v = (if neg then - n else n)
      in if all_digits ds \<and> - (2 ^ 63) \<le> v \<and> v < 2 ^ 63 then Some v else None)"

definition digit_char :: "nat \<Rightarrow> char" where
  "digit_char d = char_of (48 + d)"

fun format_nat :: "nat \<Rightarrow> string" where
  "format_nat n = (if n < 10 then [digit_char n] else format_nat (n div 10) @ [digit_char (n mod 10)])"

declare format_nat.simps [simp del]

text \<open>\<open>strconv.FormatUint(x, 10)\<close>.\<close>

definition format_uint :: "u64 \<Rightarrow> string" where
  "format_uint x = format_nat (unat x)"

lemma digit_char_props: "d < 10 \<Longrightarrow> is_digit (digit_char d) \<and> digit_val (digit_char d) = d"
  by (simp add: digit_char_def is_digit_def digit_val_def byte_def)

lemma digits_val_append: "digits_val acc (s @ [c]) = 10 * digits_val acc s + digit_val c"
  by (induction s arbitrary: acc) auto

lemma format_nat_parse: "all_digits (format_nat n) \<and> digits_val 0 (format_nat n) = n"
proof (induction n rule: format_nat.induct)
  case (1 n)
  show ?case
  proof (cases "n < 10")
    case True
    then show ?thesis
      using digit_char_props [of n] by (simp add: format_nat.simps [of n] all_digits_def)
  next
    case False
    with 1 digit_char_props [of "n mod 10"] show ?thesis
      by (simp add: format_nat.simps [of n] all_digits_def digits_val_append)
  qed
qed

lemma parse_format_uint [simp]: "parse_uint (format_uint x) = Some x"
proof -
  have "int (unat x) < 2 ^ 64" using unsigned_less [of x] by simp
  then show ?thesis
    using format_nat_parse [of "unat x"] by (simp add: parse_uint_def format_uint_def)
qed

end
