(* ===== verification/Go_Netip.thy ===== *)
theory Go_Netip
  imports Go_Strings
begin

text \<open>
  \<open>netip.ParseAddr\<close>, \<open>net.ParseIP\<close> and \<open>IP.IsLoopback\<close>, which the loopback check of
  \<open>v0alpha0/peer.go\<close> and the bracketed hosts of \<open>url.Parse\<close> rely on.  An IPv4 address
  is its four octets, an IPv6 address its eight 16-bit groups and its zone.
\<close>

datatype ip_addr = IPv4 "nat list" | IPv6 "nat list" string

definition octet :: "string \<Rightarrow> nat option" where
  "octet s =
     (if all_digits s \<and> (length s > 1 \<longrightarrow> hd s \<noteq> CHR ''0'') \<and> digits_val 0 s \<le> 255
      then Some (digits_val 0 s) else None)"

definition parse_v4 :: "string \<Rightarrow> (nat \<times> nat \<times> nat \<times> nat) option" where
  "parse_v4 s =
     (case map octet (split_on (CHR ''.'') s) of
        [Some a, Some b, Some c, Some d] \<Rightarrow> Some (a, b, c, d)
      | _ \<Rightarrow> None)"

definition is_hex :: "char \<Rightarrow> bool" where
  "is_hex c \<longleftrightarrow> is_digit c \<or> (97 \<le> byte c \<and> byte c \<le> 102) \<or> (65 \<le> byte c \<and> byte c \<le> 70)"

definition hex_val :: "char \<Rightarrow> nat" where
  "hex_val c =
     (if is_digit c then byte c - 48
      else if 97 \<le> byte c then byte c - 87
      else byte c - 55)"

fun hexs_val :: "nat \<Rightarrow> string \<Rightarrow> nat" where
  "hexs_val acc [] = acc"
| "hexs_val acc (c # cs) = hexs_val (16 * acc + hex_val c) cs"

text \<open>
  The group loop of \<open>parseIPv6\<close>.  The first argument counts the groups that still fit
  (\<open>for i < 16\<close>), so it is the loop's own bound and not an artificial fuel; the result is
  the unread rest, the groups read and the position of \<open>::\<close>.
\<close>

fun v6_groups :: "nat \<Rightarrow> string \<Rightarrow> nat list \<Rightarrow> nat option \<Rightarrow> (string \<times> nat list \<times> nat option) option" where
  "v6_groups 0 s acc ell = Some (s, acc, ell)"
| "v6_groups (Suc k) s acc ell =
     (let hx = takeWhile is_hex s; rest = dropWhile is_hex s; acc' = acc @ [hexs_val 0 hx]
      in if hx = [] \<or> length hx > 4 then None
         else case rest of
           [] \<Rightarrow> Some ([], acc', ell)
         | c # t \<Rightarrow>
             if c = CHR ''.'' then
               if (ell = None \<and> length acc \<noteq> 6) \<or> length acc + 2 > 8 then None
               else map_option (\<lambda>(a, b, c, d). ([], acc @ [256 * a + b, 256 * c + d], ell)) (parse_v4 s)
             else if c \<noteq> CHR '':'' \<or> t = [] then None
             else if hd t = CHR '':'' then
               if ell \<noteq> None then None
               else if tl t = [] then Some ([], acc', Some (length acc'))
               else v6_groups k (tl t) acc' (Some (length acc'))
             else v6_groups k t acc' ell)"

definition parse_v6 :: "string \<Rightarrow> ip_addr option" where
  "parse_v6 inp =
     (let (s, zone) = cut (CHR ''%'') inp
      in if CHR ''%'' \<in> set inp \<and> zone = [] then None
         else if s = ''::'' then Some (IPv6 (replicate 8 0) zone)
         else
           case (if has_prefix s ''::'' then v6_groups 8 (drop 2 s) [] (Some 0) else v6_groups 8 s [] None) of
             None \<Rightarrow> None
           | Some (rest, gs, ell) \<Rightarrow>
               if rest \<noteq> [] then None
               else if length gs < 8 then
                 map_option (\<lambda>e. IPv6 (take e gs @ replicate (8 - length gs) 0 @ drop e gs) zone) ell
               else if ell \<noteq> None then None
               else Some (IPv6 gs zone))"

definition parse_addr :: "string \<Rightarrow> ip_addr option" where
  "parse_addr s =
     (case dropWhile (\<lambda>c. c \<noteq> CHR ''.'' \<and> c \<noteq> CHR '':'' \<and> c \<noteq> CHR ''%'') s of
        [] \<Rightarrow> None
      | c # _ \<Rightarrow>
          if c = CHR ''.'' then map_option (\<lambda>(a, b, c, d). IPv4 [a, b, c, d]) (parse_v4 s)
          else if c = CHR '':'' then parse_v6 s
          else None)"

text \<open>\<open>net.ParseIP\<close> refuses a zone; \<open>To4\<close> maps \<open>::ffff:a.b.c.d\<close> to IPv4.\<close>

definition parse_ip :: "string \<Rightarrow> ip_addr option" where
  "parse_ip s =
     (case parse_addr s of
        Some (IPv4 os) \<Rightarrow> Some (IPv4 os)
      | Some (IPv6 gs z) \<Rightarrow> if z = [] then Some (IPv6 gs z) else None
      | None \<Rightarrow> None)"

fun ip_is_loopback :: "ip_addr \<Rightarrow> bool" where
  "ip_is_loopback (IPv4 os) \<longleftrightarrow> hd os = 127"
| "ip_is_loopback (IPv6 gs z) \<longleftrightarrow>
     (if take 6 gs = [0, 0, 0, 0, 0, 0xFFFF] then gs ! 6 div 256 = 127
      else gs = [0, 0, 0, 0, 0, 0, 0, 1])"

end
