(* ===== verification/Go_Url.thy ===== *)
theory Go_Url
  imports Go_Netip
begin

text \<open>
  The part of Go's \<open>net/url\<close> (Go 1.26, the version of \<open>go.mod\<close>) that the sources use:
  \<open>url.Parse\<close>, \<open>URL.String\<close>, \<open>Hostname\<close>, \<open>Port\<close> and \<open>net.JoinHostPort\<close>.  A parse
  error is \<open>None\<close>; its text is not modelled.  The host grammar is the strict one of
  Go 1.26 (a colon only before the port, brackets only around an IPv6 address).
\<close>

section \<open>Percent encoding\<close>

datatype encoding = EncPath | EncHost | EncZone | EncUserPassword | EncFragment

definition should_escape :: "encoding \<Rightarrow> char \<Rightarrow> bool" where
  "should_escape m c =
     (let b = byte c in
      if is_alnum c then False
      else if (m = EncHost \<or> m = EncZone) \<and>
              b \<in> set [33, 36, 38, 39, 40, 41, 42, 43, 44, 59, 61, 58, 91, 93, 60, 62, 34] then False
      else if b \<in> set [45, 95, 46, 126] then False
      else if b \<in> set [36, 38, 43, 44, 47, 58, 59, 61, 63, 64] then
        (case m of
           EncPath \<Rightarrow> b = 63
         | EncUserPassword \<Rightarrow> b \<in> set [64, 47, 63, 58]
         | EncFragment \<Rightarrow> False
         | _ \<Rightarrow> True)
      else if m = EncFragment \<and> b \<in> set [33, 40, 41, 42] then False
      else True)"

definition upper_hex :: "nat \<Rightarrow> char" where
  "upper_hex n = char_of (if n < 10 then 48 + n else 55 + n)"

fun escape :: "encoding \<Rightarrow> string \<Rightarrow> string" where
  "escape m [] = []"
| "escape m (c # s) =
     (if should_escape m c
      then CHR ''%'' # upper_hex (byte c div 16) # upper_hex (byte c mod 16) # escape m s
      else c # escape m s)"

fun unescape :: "encoding \<Rightarrow> string \<Rightarrow> string option" where
  "unescape m [] = Some []"
| "unescape m (c # s) =
     (if c = CHR ''%'' then
        (case s of
           h # l # t \<Rightarrow>
             (if \<not> is_hex h \<or> \<not> is_hex l then None
              else
                let v = char_of (16 * hex_val h + hex_val l); pc = (h = CHR ''2'' \<and> l = CHR ''5'')
                in if m = EncHost \<and> hex_val h < 8 \<and> \<not> pc then None
                   else if m = EncZone \<and> \<not> pc \<and> v \<noteq> CHR '' '' \<and> should_escape EncHost v then None
                   else map_option (\<lambda>r. v # r) (unescape m t))
         | _ \<Rightarrow> None)
      else if (m = EncHost \<or> m = EncZone) \<and> byte c < 128 \<and> should_escape m c then None
      else map_option (\<lambda>r. c # r) (unescape m s))"

definition valid_encoded :: "encoding \<Rightarrow> string \<Rightarrow> bool" where
  "valid_encoded m s \<longleftrightarrow>
     list_all (\<lambda>c. byte c \<in> set [33, 36, 38, 39, 40, 41, 42, 43, 44, 59, 61, 58, 64, 91, 93, 37]
                   \<or> \<not> should_escape m c) s"

section \<open>The URL record and its parser\<close>

record url =
  scheme :: string
  opaque :: string
  user :: "(string \<times> string option) option"
  host :: string
  path :: string
  raw_path :: string
  omit_host :: bool
  force_query :: bool
  raw_query :: string
  fragment :: string
  raw_fragment :: string

definition url0 :: url where
  "url0 = \<lparr>scheme = [], opaque = [], user = None, host = [], path = [], raw_path = [],
           omit_host = False, force_query = False, raw_query = [], fragment = [], raw_fragment = []\<rparr>"

text \<open>\<open>getScheme\<close>: \<open>None\<close> is "missing protocol scheme", an empty scheme means there is none.\<close>

fun get_scheme_from :: "string \<Rightarrow> string \<Rightarrow> string \<Rightarrow> (string \<times> string) option" where
  "get_scheme_from raw pre [] = Some ([], raw)"
| "get_scheme_from raw pre (c # s) =
     (if is_alpha c then get_scheme_from raw (pre @ [c]) s
      else if is_digit c \<or> c = CHR ''+'' \<or> c = CHR ''-'' \<or> c = CHR ''.'' then
        (if pre = [] then Some ([], raw) else get_scheme_from raw (pre @ [c]) s)
      else if c = CHR '':'' then (if pre = [] then None else Some (pre, s))
      else Some ([], raw))"

definition get_scheme :: "string \<Rightarrow> (string \<times> string) option" where
  "get_scheme raw = get_scheme_from raw [] raw"

definition valid_optional_port :: "string \<Rightarrow> bool" where
  "valid_optional_port p \<longleftrightarrow> p = [] \<or> hd p = CHR '':'' \<and> list_all is_digit (tl p)"

text \<open>The text between \<open>[\<close> and \<open>]\<close>: an IPv6 address, \<open>%25\<close> starting its zone.\<close>

fun index_zone :: "string \<Rightarrow> nat option" where
  "index_zone [] = None"
| "index_zone (c # s) = (if has_prefix (c # s) ''%25'' then Some 0 else map_option Suc (index_zone s))"

definition unescape_literal :: "string \<Rightarrow> string option" where
  "unescape_literal h =
     (case index_zone h of
        None \<Rightarrow> unescape EncHost h
      | Some i \<Rightarrow>
          (case (unescape EncHost (take i h), unescape EncZone (drop i h)) of
             (Some a, Some b) \<Rightarrow> Some (a @ b)
           | _ \<Rightarrow> None))"

definition parse_host :: "string \<Rightarrow> string option" where
  "parse_host h =
     (if has_prefix h ''['' then
        (case cut_last (CHR '']'') h of
           None \<Rightarrow> None
         | Some (lit, colon_port) \<Rightarrow>
             if \<not> valid_optional_port colon_port \<or> CHR ''['' \<in> set (tl h) then None
             else
               (case unescape_literal (tl lit) of
                  None \<Rightarrow> None
                | Some a \<Rightarrow>
                    (case parse_addr a of
                       Some (IPv6 _ _) \<Rightarrow> Some (''['' @ a @ '']'' @ colon_port)
                     | _ \<Rightarrow> None)))
      else if CHR ''['' \<in> set h then None
      else if CHR '':'' \<in> set h \<and> \<not> valid_optional_port (dropWhile (\<lambda>c. c \<noteq> CHR '':'') h) then None
      else unescape EncHost h)"

definition valid_userinfo :: "string \<Rightarrow> bool" where
  "valid_userinfo s \<longleftrightarrow>
     list_all (\<lambda>c. is_alnum c \<or>
       byte c \<in> set [45, 46, 95, 58, 126, 33, 36, 38, 39, 40, 41, 42, 43, 44, 59, 61, 37, 64]) s"

definition parse_user :: "string \<Rightarrow> (string \<times> string option) option" where
  "parse_user s =
     (if \<not> valid_userinfo s then None
      else if CHR '':'' \<notin> set s then map_option (\<lambda>u. (u, None)) (unescape EncUserPassword s)
      else
        (case cut (CHR '':'') s of (u, p) \<Rightarrow>
           (case (unescape EncUserPassword u, unescape EncUserPassword p) of
              (Some u', Some p') \<Rightarrow> Some (u', Some p')
            | _ \<Rightarrow> None)))"

definition parse_authority :: "string \<Rightarrow> ((string \<times> string option) option \<times> string) option" where
  "parse_authority a =
     (case cut_last (CHR ''@'') a of
        None \<Rightarrow> map_option (\<lambda>h. (None, h)) (parse_host a)
      | Some (u, h) \<Rightarrow>
          (case (parse_host h, parse_user u) of
             (Some h', Some u') \<Rightarrow> Some (Some u', h')
           | _ \<Rightarrow> None))"

definition set_path :: "string \<Rightarrow> url \<Rightarrow> url option" where
  "set_path p u =
     (case unescape EncPath p of
        None \<Rightarrow> None
      | Some q \<Rightarrow> Some (u\<lparr>path := q, raw_path := (if p = escape EncPath q then [] else p)\<rparr>))"

definition set_fragment :: "string \<Rightarrow> url \<Rightarrow> url option" where
  "set_fragment f u =
     (case unescape EncFragment f of
        None \<Rightarrow> None
      | Some q \<Rightarrow> Some (u\<lparr>fragment := q, raw_fragment := (if f = escape EncFragment q then [] else f)\<rparr>))"

definition has_ctl :: "string \<Rightarrow> bool" where
  "has_ctl s \<longleftrightarrow> list_ex (\<lambda>c. byte c < 32 \<or> byte c = 127) s"

text \<open>The query split: a single trailing \<open>?\<close> sets \<open>ForceQuery\<close>.\<close>

definition split_query :: "string \<Rightarrow> string \<times> bool \<times> string" where
  "split_query r =
     (if has_suffix r ''?'' \<and> count_list r (CHR ''?'') = 1 then (butlast r, True, [])
      else (case cut (CHR ''?'') r of (p, q) \<Rightarrow> (p, False, q)))"

definition parse_rest :: "url \<Rightarrow> string \<Rightarrow> url option" where
  "parse_rest u rest =
     (if \<not> has_prefix rest ''/'' \<and> scheme u \<noteq> [] then Some (u\<lparr>opaque := rest\<rparr>)
      else if \<not> has_prefix rest ''/'' \<and> CHR '':'' \<in> set (fst (cut (CHR ''/'') rest)) then None
      else if (scheme u \<noteq> [] \<or> \<not> has_prefix rest ''///'') \<and> has_prefix rest ''//'' then
        (let a = drop 2 rest; auth = takeWhile (\<lambda>c. c \<noteq> CHR ''/'') a; p = dropWhile (\<lambda>c. c \<noteq> CHR ''/'') a
         in case parse_authority auth of
              None \<Rightarrow> None
            | Some (us, h) \<Rightarrow> set_path p (u\<lparr>user := us, host := h\<rparr>))
      else set_path rest (u\<lparr>omit_host := (scheme u \<noteq> [] \<and> has_prefix rest ''/'')\<rparr>))"

definition url_parse0 :: "string \<Rightarrow> url option" where
  "url_parse0 raw =
     (if has_ctl raw then None
      else if raw = ''*'' then Some (url0\<lparr>path := ''*''\<rparr>)
      else
        (case get_scheme raw of
           None \<Rightarrow> None
         | Some (sch, r) \<Rightarrow>
             (case split_query r of (rest, fq, q) \<Rightarrow>
                parse_rest (url0\<lparr>scheme := to_lower sch, force_query := fq, raw_query := q\<rparr>) rest)))"

definition url_parse :: "string \<Rightarrow> url option" where
  "url_parse raw =
     (case cut (CHR ''#'') raw of (b, frag) \<Rightarrow>
        (case url_parse0 b of
           None \<Rightarrow> None
         | Some u \<Rightarrow> if frag = [] then Some u else set_fragment frag u))"

section \<open>Printing and accessors\<close>

definition escaped_path :: "url \<Rightarrow> string" where
  "escaped_path u =
     (if raw_path u \<noteq> [] \<and> valid_encoded EncPath (raw_path u) \<and> unescape EncPath (raw_path u) = Some (path u)
      then raw_path u
      else if path u = ''*'' then ''*''
      else escape EncPath (path u))"

definition escaped_fragment :: "url \<Rightarrow> string" where
  "escaped_fragment u =
     (if raw_fragment u \<noteq> [] \<and> valid_encoded EncFragment (raw_fragment u)
         \<and> unescape EncFragment (raw_fragment u) = Some (fragment u)
      then raw_fragment u
      else escape EncFragment (fragment u))"

definition user_string :: "(string \<times> string option) option \<Rightarrow> string" where
  "user_string us =
     (case us of
        None \<Rightarrow> []
      | Some (n, None) \<Rightarrow> escape EncUserPassword n @ ''@''
      | Some (n, Some p) \<Rightarrow> escape EncUserPassword n @ '':'' @ escape EncUserPassword p @ ''@'')"

definition url_string :: "url \<Rightarrow> string" where
  "url_string u =
     (let sch = (if scheme u = [] then [] else scheme u @ '':'');
          auth =
            (if scheme u = [] \<and> host u = [] \<and> user u = None then []
             else if omit_host u \<and> host u = [] \<and> user u = None then []
             else (if host u \<noteq> [] \<or> path u \<noteq> [] \<or> user u \<noteq> None then ''//'' else [])
                  @ user_string (user u) @ escape EncHost (host u));
          p = escaped_path u;
          slash = (if p \<noteq> [] \<and> hd p \<noteq> CHR ''/'' \<and> host u \<noteq> [] then ''/'' else []);
          dot = (if sch @ auth @ slash = [] \<and> CHR '':'' \<in> set (fst (cut (CHR ''/'') p)) then ''./'' else [])
      in sch @ (if opaque u \<noteq> [] then opaque u else auth @ slash @ dot @ p)
         @ (if force_query u \<or> raw_query u \<noteq> [] then ''?'' @ raw_query u else [])
         @ (if fragment u \<noteq> [] then ''#'' @ escaped_fragment u else []))"

definition split_host_port :: "string \<Rightarrow> string \<times> string" where
  "split_host_port hp =
     (let (h, p) = (case cut_last (CHR '':'') hp of
                      Some (a, b) \<Rightarrow> if list_all is_digit b then (a, b) else (hp, [])
                    | None \<Rightarrow> (hp, []))
      in (if has_prefix h ''['' \<and> has_suffix h '']'' then butlast (tl h) else h, p))"

definition hostname :: "url \<Rightarrow> string" where
  "hostname u = fst (split_host_port (host u))"

definition port :: "url \<Rightarrow> string" where
  "port u = snd (split_host_port (host u))"

text \<open>\<open>net.JoinHostPort\<close>: a host with a colon is put in brackets.\<close>

definition join_host_port :: "string \<Rightarrow> string \<Rightarrow> string" where
  "join_host_port h p =
     (if CHR '':'' \<in> set h then ''['' @ h @ '']:'' @ p else h @ '':'' @ p)"

section \<open>Plain http URLs\<close>

text \<open>The shape every address of the development has: scheme, a host of letters, digits and
  \<open>-._\<close>, and an optional decimal port.\<close>

definition plain_host_char :: "char \<Rightarrow> bool" where
  "plain_host_char c \<longleftrightarrow> is_alnum c \<or> byte c \<in> set [45, 46, 95]"

definition plain_host :: "string \<Rightarrow> bool" where
  "plain_host h \<longleftrightarrow> h \<noteq> [] \<and> list_all plain_host_char h"

definition plain_tail :: "string \<Rightarrow> bool" where
  "plain_tail t \<longleftrightarrow> t = [] \<or> (\<exists>p. t = CHR '':'' # p \<and> all_digits p)"

definition url_char :: "char \<Rightarrow> bool" where
  "url_char c \<longleftrightarrow> plain_host_char c \<or> c = CHR '':'' \<or> c = CHR ''/''"

lemma plain_host_char_not:
  assumes "plain_host_char c"
  shows "c \<noteq> CHR '':''" "c \<noteq> CHR ''/''" "c \<noteq> CHR ''%''" "c \<noteq> CHR ''[''" "c \<noteq> CHR '']''"
    "c \<noteq> CHR ''@''" "c \<noteq> CHR ''?''" "c \<noteq> CHR ''#''" "c \<noteq> CHR '' ''"
  using assms by (auto simp: plain_host_char_def byte_class_defs)

lemma url_char_not:
  assumes "url_char c"
  shows "c \<noteq> CHR ''%''" "c \<noteq> CHR ''[''" "c \<noteq> CHR '']''" "c \<noteq> CHR ''@''"
    "c \<noteq> CHR ''?''" "c \<noteq> CHR ''#''" "\<not> byte c < 32" "byte c \<noteq> 127" "c \<noteq> CHR ''*''"
  using assms by (auto simp: url_char_def plain_host_char_def byte_class_defs)

lemma digit_url_char: "is_digit c \<Longrightarrow> plain_host_char c"
  by (simp add: plain_host_char_def is_alnum_def)

lemma plain_tail_chars: "plain_tail t \<Longrightarrow> list_all url_char t"
  by (auto simp: plain_tail_def all_digits_def url_char_def list_all_iff digit_url_char)

lemma plain_should_escape: "plain_host_char c \<Longrightarrow> \<not> should_escape EncHost c"
  by (auto simp: should_escape_def plain_host_char_def Let_def)

lemma colon_should_escape: "\<not> should_escape EncHost (CHR '':'')"
  by (simp add: should_escape_def Let_def byte_def)

lemma plain_unescape:
  "list_all (\<lambda>c. plain_host_char c \<or> c = CHR '':'') s \<Longrightarrow> unescape EncHost s = Some s"
proof (induction s)
  case (Cons c s)
  then have "c \<noteq> CHR ''%''" "\<not> should_escape EncHost c"
    by (auto dest: plain_host_char_not plain_should_escape simp: colon_should_escape)
  with Cons show ?case by simp
qed simp

lemma list_all_not_in: "list_all P s \<Longrightarrow> \<not> P c \<Longrightarrow> c \<notin> set s"
  by (auto simp: list_all_iff)

lemma plain_chars:
  "plain_host h \<Longrightarrow> plain_tail t \<Longrightarrow> list_all (\<lambda>c. plain_host_char c \<or> c = CHR '':'') (h @ t)"
  by (auto simp: plain_host_def plain_tail_def all_digits_def list_all_iff digit_url_char)

lemma plain_parse_host:
  assumes "plain_host h" "plain_tail t"
  shows "parse_host (h @ t) = Some (h @ t)"
proof -
  have hc: "list_all plain_host_char h" and "h \<noteq> []" using assms by (auto simp: plain_host_def)
  have nc: "CHR '':'' \<notin> set h" using hc by (rule list_all_not_in) (auto dest: plain_host_char_not)
  have all: "list_all (\<lambda>c. plain_host_char c \<or> c = CHR '':'') (h @ t)"
    using assms by (rule plain_chars)
  then have nb: "CHR ''['' \<notin> set (h @ t)"
    by (rule list_all_not_in) (auto dest: plain_host_char_not)
  then have np: "\<not> has_prefix (h @ t) ''[''"
    by (cases "h @ t") (auto simp: has_prefix_def)
  have "CHR '':'' \<notin> set (h @ t) \<or> valid_optional_port (dropWhile (\<lambda>c. c \<noteq> CHR '':'') (h @ t))"
  proof (rule disjCI)
    assume "\<not> valid_optional_port (dropWhile (\<lambda>c. c \<noteq> CHR '':'') (h @ t))"
    show "CHR '':'' \<notin> set (h @ t)"
    proof
    assume "CHR '':'' \<in> set (h @ t)"
    with nc assms(2) obtain p where t: "t = CHR '':'' # p" "all_digits p"
      by (auto simp: plain_tail_def)
    have "\<forall>c\<in>set h. c \<noteq> CHR '':''" using nc by blast
    from takeWhile_dropWhile_hit [OF this] t
    have "valid_optional_port (dropWhile (\<lambda>c. c \<noteq> CHR '':'') (h @ t))"
      by (simp add: valid_optional_port_def all_digits_def)
    with \<open>\<not> valid_optional_port (dropWhile (\<lambda>c. c \<noteq> CHR '':'') (h @ t))\<close> show False by blast
    qed
  qed
  with np nb plain_unescape [OF all] show ?thesis by (auto simp: parse_host_def)
qed

lemma get_scheme_http:
  "sch = ''http'' \<or> sch = ''https'' \<Longrightarrow> get_scheme (sch @ ''://'' @ r) = Some (sch, ''//'' @ r)"
  by (auto simp: get_scheme_def byte_class_defs)

lemma split_query_none: "CHR ''?'' \<notin> set r \<Longrightarrow> split_query r = (r, False, [])"
proof -
  assume a: "CHR ''?'' \<notin> set r"
  then have "\<not> has_suffix r ''?''"
    by (cases r rule: rev_cases) (auto simp: has_suffix_def has_prefix_def)
  with a show ?thesis by (simp add: split_query_def cut_none)
qed

lemma parse_rest_authority:
  assumes "scheme u \<noteq> []" "CHR ''/'' \<notin> set a" "parse_authority a = Some (us, hh)"
  shows "parse_rest u (''//'' @ a) = Some (u\<lparr>user := us, host := hh, path := [], raw_path := []\<rparr>)"
proof -
  have pre: "has_prefix (''//'' @ a) ''/''" "has_prefix (''//'' @ a) ''//''" "drop 2 (''//'' @ a) = a"
    by (simp_all add: has_prefix_def)
  have tw: "takeWhile (\<lambda>c. c \<noteq> CHR ''/'') a = a" "dropWhile (\<lambda>c. c \<noteq> CHR ''/'') a = []"
    using assms(2) by (auto simp: takeWhile_eq_all_conv dropWhile_eq_Nil_conv)
  show ?thesis
    unfolding parse_rest_def Let_def pre(3) tw using pre(1,2) assms(1,3) by (simp add: set_path_def)
qed

lemma url_parse_plain:
  assumes sch: "sch = ''http'' \<or> sch = ''https''" and h: "plain_host h" and t: "plain_tail t"
  shows "url_parse (sch @ ''://'' @ h @ t) = Some (url0\<lparr>scheme := sch, host := h @ t\<rparr>)"
proof -
  let ?s = "sch @ ''://'' @ h @ t"
  have s1: "to_lower sch = sch" using sch by (auto simp: to_lower_def lower_char_def byte_class_defs)
  have ht: "list_all url_char (h @ t)"
    using h plain_tail_chars [OF t] by (auto simp: plain_host_def list_all_iff url_char_def)
  have all: "list_all url_char ?s"
    using ht sch by (auto simp: list_all_iff url_char_def plain_host_char_def byte_class_defs)
  have "CHR ''#'' \<notin> set ?s" using all by (rule list_all_not_in) (auto dest: url_char_not)
  then have c: "cut (CHR ''#'') ?s = (?s, [])" by (rule cut_none)
  have nctl: "\<not> has_ctl ?s"
    using all by (auto simp: has_ctl_def list_ex_iff list_all_iff simp del: set_append dest: url_char_not(7,8))
  have nstar: "?s \<noteq> ''*''" using sch by auto
  have "CHR ''?'' \<notin> set (''//'' @ h @ t)"
    using ht by (auto simp: list_all_iff dest: url_char_not)
  then have q: "split_query (''//'' @ h @ t) = (''//'' @ h @ t, False, [])" by (rule split_query_none)
  have "CHR ''/'' \<notin> set (h @ t)"
    using plain_chars [OF h t] by (rule list_all_not_in) (auto dest: plain_host_char_not)
  note noslash = this
  have "CHR ''@'' \<notin> set (h @ t)" using ht by (rule list_all_not_in) (auto dest: url_char_not)
  then have au: "parse_authority (h @ t) = Some (None, h @ t)"
    by (simp add: parse_authority_def cut_last_none plain_parse_host [OF h t] del: set_append)
  have "sch \<noteq> []" using sch by auto
  then have "parse_rest (url0\<lparr>scheme := sch\<rparr>) (''//'' @ h @ t) = Some (url0\<lparr>scheme := sch, host := h @ t\<rparr>)"
    using parse_rest_authority [OF _ noslash au, of "url0\<lparr>scheme := sch\<rparr>"] by (simp add: url0_def)
  moreover have "url_parse0 ?s =
      parse_rest (url0\<lparr>scheme := sch, force_query := False, raw_query := []\<rparr>) (''//'' @ h @ t)"
    unfolding url_parse0_def using nctl nstar get_scheme_http [OF sch] q s1 by simp
  ultimately show ?thesis unfolding url_parse_def c by (simp add: url0_def)
qed

lemma split_host_port_plain:
  assumes h: "plain_host h"
  shows "split_host_port h = (h, [])"
    and "list_all is_digit p \<Longrightarrow> split_host_port (h @ CHR '':'' # p) = (h, p)"
proof -
  have hc: "list_all plain_host_char h" and "h \<noteq> []" using h by (auto simp: plain_host_def)
  have nc: "CHR '':'' \<notin> set h" using hc by (rule list_all_not_in) (auto dest: plain_host_char_not)
  have nb: "\<not> has_prefix h ''[''"
    using hc \<open>h \<noteq> []\<close> by (cases h) (auto simp: has_prefix_def dest: plain_host_char_not)
  show "split_host_port h = (h, [])"
    using nc nb by (simp add: split_host_port_def cut_last_none)
  assume p: "list_all is_digit p"
  have "CHR '':'' \<notin> set p"
    using p by (rule list_all_not_in) (simp add: byte_class_defs)
  from cut_last_append [OF this, of h] p nb
  show "split_host_port (h @ CHR '':'' # p) = (h, p)"
    by (simp add: split_host_port_def)
qed

lemma join_host_port_plain: "plain_host h \<Longrightarrow> join_host_port h p = h @ '':'' @ p"
  by (auto simp: join_host_port_def plain_host_def list_all_iff dest: plain_host_char_not)

lemma plain_lower: "plain_host_char c \<Longrightarrow> plain_host_char (lower_char c)"
  by (auto simp: plain_host_char_def lower_char_def byte_class_defs)

lemma plain_host_lower: "plain_host h \<Longrightarrow> plain_host (to_lower h)"
  by (auto simp: plain_host_def to_lower_def list_all_iff intro: plain_lower)

lemma plain_host_ends:
  assumes "plain_host h"
  shows "solid (hd h)" "solid (last h)"
proof -
  have "solid c" if "plain_host_char c" for c
    using that by (auto simp: plain_host_char_def solid_def byte_class_defs)
  then show "solid (hd h)" "solid (last h)"
    using assms by (auto simp: plain_host_def list_all_iff)
qed

end
