(* ===== verification/Go_Json.thy ===== *)
theory Go_Json
  imports Go_Netip
begin

text \<open>
  What the sources use of \<open>encoding/json\<close>: the grammar \<open>Unmarshal\<close> accepts, the decoded
  values, the rules for \<open>[]string\<close>, \<open>string\<close>, \<open>uint64\<close> and \<open>bool\<close> targets, and
  \<open>Marshal\<close>'s rendering of strings.  Strings are UTF-8 byte lists; invalid UTF-8 becomes
  U+FFFD as in Go.  A parse or type error is \<open>None\<close>.
\<close>

section \<open>UTF-8\<close>

definition cont :: "char \<Rightarrow> bool" where
  "cont c \<longleftrightarrow> 0x80 \<le> byte c \<and> byte c \<le> 0xBF"

definition in_range :: "nat \<Rightarrow> nat \<Rightarrow> char \<Rightarrow> bool" where
  "in_range a b c \<longleftrightarrow> a \<le> byte c \<and> byte c \<le> b"

text \<open>The size of the first rune of a byte list (\<open>utf8.DecodeRune\<close>); \<open>None\<close> when it is
  not a valid encoding.\<close>

text \<open>The length that the first byte announces, and the second byte it admits.\<close>

definition rune_need :: "char \<Rightarrow> nat" where
  "rune_need c =
     (if byte c < 0x80 then 1 else if in_range 0xC2 0xDF c then 2
      else if in_range 0xE0 0xEF c then 3 else if in_range 0xF0 0xF4 c then 4 else 0)"

definition second_ok :: "char \<Rightarrow> char \<Rightarrow> bool" where
  "second_ok c d \<longleftrightarrow>
     (if byte c = 0xE0 then in_range 0xA0 0xBF d
      else if byte c = 0xED then in_range 0x80 0x9F d
      else if byte c = 0xF0 then in_range 0x90 0xBF d
      else if byte c = 0xF4 then in_range 0x80 0x8F d
      else cont d)"

definition rune_len :: "string \<Rightarrow> nat option" where
  "rune_len s =
     (case s of
        [] \<Rightarrow> None
      | c # t \<Rightarrow>
          let n = rune_need c in
          if n = 0 \<or> length s < n \<or> (2 \<le> n \<and> \<not> second_ok c (s ! 1))
             \<or> (3 \<le> n \<and> \<not> cont (s ! 2)) \<or> (4 \<le> n \<and> \<not> cont (s ! 3))
          then None else Some n)"

lemma rune_len_pos: "rune_len s = Some n \<Longrightarrow> 0 < n \<and> n \<le> length s"
  by (auto simp: rune_len_def Let_def split: list.splits if_splits)

lemma rune_need_le: "rune_need c \<le> 4"
  by (simp add: rune_need_def)

definition rune_error :: string where
  "rune_error = [CHR 0xEF, CHR 0xBF, CHR 0xBD]"

definition encode_rune :: "nat \<Rightarrow> string" where
  "encode_rune r =
     (if r < 0x80 then [char_of r]
      else if r < 0x800 then [char_of (0xC0 + r div 64), char_of (0x80 + r mod 64)]
      else if r < 0x10000 then
        [char_of (0xE0 + r div 4096), char_of (0x80 + r div 64 mod 64), char_of (0x80 + r mod 64)]
      else
        [char_of (0xF0 + r div 262144), char_of (0x80 + r div 4096 mod 64),
         char_of (0x80 + r div 64 mod 64), char_of (0x80 + r mod 64)])"

section \<open>Parsing\<close>

datatype json = JNull | JBool bool | JNum string | JStr string
  | JArr "json list" | JObj "(string \<times> json) list"

definition json_ws :: "char \<Rightarrow> bool" where
  "json_ws c \<longleftrightarrow> byte c \<in> set [32, 9, 10, 13]"

definition skip_ws :: "string \<Rightarrow> string" where
  "skip_ws = dropWhile json_ws"

text \<open>Four hex digits after \<open>\u\<close>.\<close>

definition hex4 :: "string \<Rightarrow> nat option" where
  "hex4 s = (if length s \<ge> 4 \<and> list_all is_hex (take 4 s) then Some (hexs_val 0 (take 4 s)) else None)"

text \<open>A \<open>\u\<close> escape: the bytes it stands for and how many bytes of the source after
  \<open>\u\<close> it takes; a high surrogate followed by an escaped low one is one rune, any other
  surrogate is U+FFFD.\<close>

definition u_escape :: "string \<Rightarrow> (string \<times> nat) option" where
  "u_escape s =
     (case hex4 s of
        None \<Rightarrow> None
      | Some r \<Rightarrow>
          if 0xD800 \<le> r \<and> r < 0xE000 then
            (if has_prefix (drop 4 s) [CHR 0x5C, CHR ''u''] then
               (case hex4 (drop 6 s) of
                  Some r2 \<Rightarrow>
                    if r < 0xDC00 \<and> 0xDC00 \<le> r2 \<and> r2 < 0xE000
                    then Some (encode_rune (0x10000 + (r - 0xD800) * 1024 + (r2 - 0xDC00)), 10)
                    else Some (rune_error, 4)
                | None \<Rightarrow> Some (rune_error, 4))
             else Some (rune_error, 4))
          else Some (encode_rune r, 4))"

text \<open>The rest of a string literal, after its opening quote.\<close>

definition short_escape :: "char \<Rightarrow> char option" where
  "short_escape c =
     map_of [(CHR 0x22, CHR 0x22), (CHR 0x5C, CHR 0x5C), (CHR ''/'', CHR ''/''), (CHR ''b'', CHR 0x08),
             (CHR ''f'', CHR 0x0C), (CHR ''n'', CHR 0x0A), (CHR ''r'', CHR 0x0D), (CHR ''t'', CHR 0x09)] c"

function json_string :: "string \<Rightarrow> (string \<times> string) option" where
  "json_string s =
     (case s of
        [] \<Rightarrow> None
      | c # t \<Rightarrow>
          if c = CHR 0x22 then Some ([], t)
          else if byte c < 32 then None
          else if c = CHR 0x5C then
            (case t of
               [] \<Rightarrow> None
             | e # t' \<Rightarrow>
                 if e = CHR ''u'' then
                   (case u_escape t' of
                      None \<Rightarrow> None
                    | Some (b, n) \<Rightarrow> map_option (\<lambda>(x, r). (b @ x, r)) (json_string (drop n t')))
                 else
                   (case short_escape e of
                      None \<Rightarrow> None
                    | Some b \<Rightarrow> map_option (\<lambda>(x, r). (b # x, r)) (json_string t')))
          else
            (case rune_len s of
               None \<Rightarrow> map_option (\<lambda>(x, r). (rune_error @ x, r)) (json_string t)
             | Some n \<Rightarrow> map_option (\<lambda>(x, r). (take n s @ x, r)) (json_string (drop n s))))"
  by pat_completeness auto
termination
  by (relation "measure length") (auto dest: rune_len_pos)

declare json_string.simps [simp del]

text \<open>A number literal: its text and what follows.\<close>

definition json_frac :: "string \<Rightarrow> (string \<times> string) option" where
  "json_frac s =
     (if has_prefix s ''.'' then
        (let d = takeWhile is_digit (tl s) in
         if d = [] then None else Some (''.'' @ d, dropWhile is_digit (tl s)))
      else Some ([], s))"

definition json_exp :: "string \<Rightarrow> (string \<times> string) option" where
  "json_exp s =
     (if has_prefix s ''e'' \<or> has_prefix s ''E'' then
        (let t = tl s;
             sg = (if has_prefix t ''+'' \<or> has_prefix t ''-'' then take 1 t else []);
             u = drop (length sg) t; d = takeWhile is_digit u
         in if d = [] then None else Some (take 1 s @ sg @ d, dropWhile is_digit u))
      else Some ([], s))"

definition json_number :: "string \<Rightarrow> (string \<times> string) option" where
  "json_number s =
     (let m = (if has_prefix s ''-'' then ''-'' else []); t = drop (length m) s;
          d = (if has_prefix t ''0'' then ''0'' else takeWhile is_digit t)
      in if d = [] then None
         else
           (case json_frac (drop (length d) t) of
              None \<Rightarrow> None
            | Some (f, u) \<Rightarrow> map_option (\<lambda>(e, r). (m @ d @ f @ e, r)) (json_exp u)))"

text \<open>
  Values, array elements and object members by recursive descent.  The first argument
  bounds the number of calls; \<open>json_fuel_enough\<close> in \<open>Go_Json_Print\<close> shows that it never runs
  out for the fuel \<open>json_parse\<close> gives.  (Go also refuses nesting deeper than 10000.)
\<close>

fun json_value :: "nat \<Rightarrow> string \<Rightarrow> (json \<times> string) option"
  and json_elems :: "nat \<Rightarrow> string \<Rightarrow> (json list \<times> string) option"
  and json_members :: "nat \<Rightarrow> string \<Rightarrow> ((string \<times> json) list \<times> string) option"
where
  "json_value 0 s = None"
| "json_value (Suc n) s =
     (case skip_ws s of
        [] \<Rightarrow> None
      | c # t \<Rightarrow>
          if c = CHR 0x22 then map_option (\<lambda>(b, r). (JStr b, r)) (json_string t)
          else if c = CHR ''['' then
            (if has_prefix (skip_ws t) '']'' then Some (JArr [], tl (skip_ws t))
             else map_option (\<lambda>(vs, r). (JArr vs, r)) (json_elems n t))
          else if c = CHR ''{'' then
            (if has_prefix (skip_ws t) ''}'' then Some (JObj [], tl (skip_ws t))
             else map_option (\<lambda>(vs, r). (JObj vs, r)) (json_members n t))
          else if has_prefix (c # t) ''true'' then Some (JBool True, drop 4 (c # t))
          else if has_prefix (c # t) ''false'' then Some (JBool False, drop 5 (c # t))
          else if has_prefix (c # t) ''null'' then Some (JNull, drop 4 (c # t))
          else map_option (\<lambda>(d, r). (JNum d, r)) (json_number (c # t)))"
| "json_elems 0 s = None"
| "json_elems (Suc n) s =
     (case json_value n s of
        None \<Rightarrow> None
      | Some (v, r) \<Rightarrow>
          (case skip_ws r of
             [] \<Rightarrow> None
           | c # r' \<Rightarrow>
               if c = CHR '','' then map_option (\<lambda>(vs, q). (v # vs, q)) (json_elems n r')
               else if c = CHR '']'' then Some ([v], r') else None))"
| "json_members 0 s = None"
| "json_members (Suc n) s =
     (case skip_ws s of
        [] \<Rightarrow> None
      | c # t \<Rightarrow>
          if c \<noteq> CHR 0x22 then None
          else (case json_string t of
             None \<Rightarrow> None
           | Some (k, r) \<Rightarrow>
               (case skip_ws r of
                  [] \<Rightarrow> None
                | d # r' \<Rightarrow>
                    if d \<noteq> CHR '':'' then None
                    else (case json_value n r' of
                       None \<Rightarrow> None
                     | Some (v, q) \<Rightarrow>
                         (case skip_ws q of
                            [] \<Rightarrow> None
                          | e # q' \<Rightarrow>
                              if e = CHR '','' then map_option (\<lambda>(vs, z). ((k, v) # vs, z)) (json_members n q')
                              else if e = CHR ''}'' then Some ([(k, v)], q') else None)))))"

text \<open>\<open>Decoder.Decode\<close> reads the first value, \<open>Unmarshal\<close> wants nothing but white space
  after it.\<close>

definition json_decode :: "string \<Rightarrow> json option" where
  "json_decode s = map_option fst (json_value (2 * length s + 2) s)"

definition json_parse :: "string \<Rightarrow> json option" where
  "json_parse s =
     (case json_value (2 * length s + 2) s of
        Some (v, r) \<Rightarrow> if skip_ws r = [] then Some v else None
      | None \<Rightarrow> None)"

section \<open>Decoding into Go types\<close>

fun json_to_string :: "json \<Rightarrow> string option" where
  "json_to_string (JStr s) = Some s"
| "json_to_string JNull = Some []"
| "json_to_string _ = None"

fun json_to_u64 :: "json \<Rightarrow> u64 option" where
  "json_to_u64 (JNum d) = parse_uint d"
| "json_to_u64 JNull = Some 0"
| "json_to_u64 _ = None"

fun json_to_bool :: "json \<Rightarrow> bool option" where
  "json_to_bool (JBool b) = Some b"
| "json_to_bool JNull = Some False"
| "json_to_bool _ = None"

definition seq_opt :: "'a option list \<Rightarrow> 'a list option" where
  "seq_opt xs = (if None \<in> set xs then None else Some (map the xs))"

fun json_to_list :: "(json \<Rightarrow> 'a option) \<Rightarrow> json \<Rightarrow> 'a list option" where
  "json_to_list f (JArr vs) = seq_opt (map f vs)"
| "json_to_list f JNull = Some []"
| "json_to_list f _ = None"

fun json_to_obj :: "json \<Rightarrow> (string \<times> json) list option" where
  "json_to_obj (JObj kvs) = Some kvs"
| "json_to_obj JNull = Some []"
| "json_to_obj _ = None"

text \<open>A field of a struct matches a key case-insensitively, a later key overrides an
  earlier one, and \<open>null\<close> leaves the target's zero value.\<close>

definition json_get :: "(json \<Rightarrow> 'a option) \<Rightarrow> string \<Rightarrow> (string \<times> json) list \<Rightarrow> 'a option" where
  "json_get f name kvs =
     (case seq_opt (map (\<lambda>kv. f (snd kv))
             (filter (\<lambda>(k, v). equal_fold k (to_lower name) \<and> v \<noteq> JNull) kvs)) of
        None \<Rightarrow> None
      | Some [] \<Rightarrow> f JNull
      | Some vs \<Rightarrow> Some (last vs))"

lemma seq_opt_map_Some [simp]: "seq_opt (map (\<lambda>x. Some (f x)) xs) = Some (map f xs)"
  by (auto simp: seq_opt_def)

end
