(* ===== verification/Peer_List.thy ===== *)
theory Peer_List
  imports Go_Url Go_Json
begin

text \<open>
  The pure peer-list functions of \<open>v0alpha0/peer.go\<close>: the \<open>LIBETCD_PEERS\<close> parser, the
  sanitizer, the canonical form, the coordination-free election of uniform-config
  bring-up, the dial set of a joiner and the loopback check.
\<close>

section \<open>Definitions\<close>

definition env_peers :: "string \<Rightarrow> string list" where
  "env_peers v0 =
     (let v = trim_space v0 in
      if v = [] then []
      else
        (let entries =
           (case Option.bind (json_parse v) (json_to_list json_to_string) of
              Some es \<Rightarrow> es
            | None \<Rightarrow> split_on (CHR '','') v)
         in filter (\<lambda>s. s \<noteq> []) (map trim_space entries)))"

definition default_scheme :: "string \<Rightarrow> string" where
  "default_scheme s = (if contains s ''://'' then s else ''http://'' @ s)"

definition http_scheme :: "string \<Rightarrow> bool" where
  "http_scheme s \<longleftrightarrow> s = ''http'' \<or> s = ''https''"

text \<open>One turn of the sanitizer's loop: an empty entry is skipped, an unparseable one is
  reported, any other one is normalized.\<close>

datatype peer_entry = Blank | Unparseable | Normal string

definition normalize_peer :: "string \<Rightarrow> peer_entry" where
  "normalize_peer raw =
     (let s = trim_space raw in
      if s = [] then Blank
      else
        (case url_parse (default_scheme s) of
           None \<Rightarrow> Unparseable
         | Some u \<Rightarrow>
             if \<not> http_scheme (scheme u) \<or> host u = [] then Unparseable
             else Normal (url_string (u\<lparr>path := trim_right_char (CHR ''/'') (path u)\<rparr>))))"

fun sanitize_loop :: "string set \<Rightarrow> string list \<Rightarrow> string list \<times> string list" where
  "sanitize_loop seen [] = ([], [])"
| "sanitize_loop seen (raw # rest) =
     (case normalize_peer raw of
        Blank \<Rightarrow> sanitize_loop seen rest
      | Unparseable \<Rightarrow> (case sanitize_loop seen rest of (out, dropped) \<Rightarrow> (out, raw # dropped))
      | Normal norm \<Rightarrow>
          if norm \<in> seen then sanitize_loop seen rest
          else (case sanitize_loop (insert norm seen) rest of (out, dropped) \<Rightarrow> (norm # out, dropped)))"

definition sanitize_peers :: "string list \<Rightarrow> string list \<times> string list" where
  "sanitize_peers peers = sanitize_loop {} peers"

definition canonical_peer_url :: "string \<Rightarrow> string" where
  "canonical_peer_url s0 =
     (let s = trim_space s0 in
      if s = [] then []
      else
        (case url_parse (default_scheme s) of
           None \<Rightarrow> []
         | Some u \<Rightarrow>
             if \<not> http_scheme (scheme u) \<or> hostname u = [] then []
             else
               (let p = (if port u \<noteq> [] then port u
                         else if scheme u = ''https'' then ''443'' else ''80'')
                in scheme u @ ''://'' @ join_host_port (to_lower (hostname u)) p)))"

text \<open>The canonical keys of a URL list: the \<open>self\<close> map of the election and of \<open>removeSelf\<close>.\<close>

definition canon_set :: "string list \<Rightarrow> string set" where
  "canon_set urls = {c \<in> set (map canonical_peer_url urls). c \<noteq> []}"

fun role_scan :: "string set \<Rightarrow> string \<Rightarrow> bool \<Rightarrow> string list \<Rightarrow> string \<times> bool" where
  "role_scan self m in_set [] = (m, in_set)"
| "role_scan self m in_set (p # ps) =
     (let c = canonical_peer_url p in
      if c = [] then role_scan self m in_set ps
      else role_scan self (if m = [] \<or> c < m then c else m) (in_set \<or> c \<in> self) ps)"

text \<open>The result is (bootstrap, active).\<close>

definition bootstrap_role :: "string list \<Rightarrow> string list \<Rightarrow> bool \<times> bool" where
  "bootstrap_role peers self_urls =
     (let self = canon_set self_urls in
      if self = {} then (False, False)
      else
        (case role_scan self [] False peers of (m, in_set) \<Rightarrow>
           if \<not> in_set then (False, False) else (m \<in> self, True)))"

definition remove_self :: "string list \<Rightarrow> string list \<Rightarrow> string list" where
  "remove_self peers self_urls =
     filter (\<lambda>p. canonical_peer_url p \<notin> canon_set self_urls) peers"

text \<open>The dial set of \<open>joinResolved\<close>.  \<open>slices.SortFunc\<close> leaves the order of entries with
  equal keys open; the stable order is taken.\<close>

definition dial_set :: "string list \<Rightarrow> string list \<Rightarrow> bool \<Rightarrow> string list" where
  "dial_set peers self_urls race_active =
     (if race_active then take 1 (sort_key canonical_peer_url (remove_self peers self_urls))
      else peers)"

definition is_loopback_host :: "string \<Rightarrow> bool" where
  "is_loopback_host h \<longleftrightarrow>
     equal_fold h ''localhost'' \<or> (case parse_ip h of None \<Rightarrow> False | Some ip \<Rightarrow> ip_is_loopback ip)"

definition loopback_only :: "url list \<Rightarrow> bool" where
  "loopback_only urls \<longleftrightarrow> urls \<noteq> [] \<and> list_all (\<lambda>u. is_loopback_host (hostname u)) urls"

definition all_loopback_peers :: "string list \<Rightarrow> bool" where
  "all_loopback_peers peers \<longleftrightarrow>
     peers \<noteq> [] \<and>
     list_all (\<lambda>s. case url_parse s of None \<Rightarrow> False | Some u \<Rightarrow> is_loopback_host (hostname u)) peers"

section \<open>The election\<close>

lemma finite_canon_set [simp]: "finite (canon_set ps)"
  by (simp add: canon_set_def)

lemma canon_set_not_Nil: "c \<in> canon_set ps \<Longrightarrow> c \<noteq> []"
  by (simp add: canon_set_def)

lemma canon_set_Cons:
  "canon_set (p # ps) =
     (if canonical_peer_url p = [] then canon_set ps
      else insert (canonical_peer_url p) (canon_set ps))"
  by (auto simp: canon_set_def)

lemma canon_set_Nil [simp]: "canon_set [] = {}"
  by (simp add: canon_set_def)

lemma role_scan_in_set: "snd (role_scan self m b ps) \<longleftrightarrow> b \<or> canon_set ps \<inter> self \<noteq> {}"
  by (induction self m b ps rule: role_scan.induct) (auto simp: Let_def canon_set_Cons)

lemma role_scan_min_from:
  "m \<noteq> [] \<Longrightarrow> fst (role_scan self m b ps) = Min (insert m (canon_set ps))"
proof (induction self m b ps rule: role_scan.induct)
  case (2 self m in_set p ps)
  let ?c = "canonical_peer_url p"
  show ?case
  proof (cases "?c = []")
    case True
    with 2 show ?thesis by (simp add: canon_set_Cons)
  next
    case False
    have "Min (insert m (insert ?c (canon_set ps))) = Min (insert (if ?c < m then ?c else m) (canon_set ps))"
      by (cases "canon_set ps = {}") (auto simp: Min_insert min_def)
    with False 2 show ?thesis by (simp add: canon_set_Cons Let_def)
  qed
qed simp

lemma role_scan_min:
  "canon_set ps \<noteq> {} \<Longrightarrow> fst (role_scan self [] b ps) = Min (canon_set ps)"
proof (induction ps arbitrary: b)
  case (Cons p ps)
  show ?case
  proof (cases "canonical_peer_url p = []")
    case True
    with Cons show ?thesis by (simp add: canon_set_Cons)
  next
    case False
    then show ?thesis
      by (simp add: canon_set_Cons Let_def role_scan_min_from)
  qed
qed simp

text \<open>The loop computes the specification: active when the two sets meet, bootstrapper when
  the least canonical URL is the node's own.\<close>

lemma bootstrap_role_spec:
  "bootstrap_role peers self_urls =
     (let A = canon_set peers; S = canon_set self_urls in
      if A \<inter> S = {} then (False, False) else (Min A \<in> S, True))"
proof (cases "canon_set peers \<inter> canon_set self_urls = {}")
  case True
  then show ?thesis
    using role_scan_in_set [of "canon_set self_urls" "[]" False peers]
    by (auto simp: bootstrap_role_def Let_def split: prod.splits)
next
  case False
  then have "canon_set peers \<noteq> {}" "canon_set self_urls \<noteq> {}" by auto
  moreover obtain m i where s: "role_scan (canon_set self_urls) [] False peers = (m, i)"
    by fastforce
  ultimately have "m = Min (canon_set peers)" "i"
    using False role_scan_min [of peers "canon_set self_urls" False]
      role_scan_in_set [of "canon_set self_urls" "[]" False peers] by auto
  with s False \<open>canon_set self_urls \<noteq> {}\<close> show ?thesis
    by (simp add: bootstrap_role_def Let_def)
qed

lemma bootstraps_iff:
  "bootstrap_role peers self_urls = (True, True) \<longleftrightarrow>
     canon_set peers \<inter> canon_set self_urls \<noteq> {} \<and> Min (canon_set peers) \<in> canon_set self_urls"
  by (auto simp: bootstrap_role_spec Let_def)

lemma joins_iff:
  "bootstrap_role peers self_urls = (False, True) \<longleftrightarrow>
     canon_set peers \<inter> canon_set self_urls \<noteq> {} \<and> Min (canon_set peers) \<notin> canon_set self_urls"
  by (auto simp: bootstrap_role_spec Let_def)

section \<open>Dial set and sanitizer\<close>

lemma remove_self_subset: "set (remove_self ps su) \<subseteq> set ps"
  by (auto simp: remove_self_def)

lemma canon_remove_self: "canon_set (remove_self ps su) = canon_set ps - canon_set su"
  by (auto simp: canon_set_def remove_self_def)

lemma take1_sort_key:
  "xs \<noteq> [] \<Longrightarrow> \<exists>x. take 1 (sort_key f xs) = [x] \<and> x \<in> set xs \<and> f x = Min (f ` set xs)"
proof -
  assume ne: "xs \<noteq> []"
  obtain y ys where ys: "sort_key f xs = y # ys"
    using ne by (cases "sort_key f xs") (auto dest: arg_cong [of _ _ set])
  have "set (y # ys) = set xs" using ys by (metis set_sort)
  moreover have "sorted (map f (y # ys))" using ys by (metis sorted_sort_key)
  ultimately have "y \<in> set xs" "\<forall>z\<in>set xs. f y \<le> f z" by auto
  then have "f y = Min (f ` set xs)" by (intro Min_eqI [symmetric]) auto
  with ys \<open>y \<in> set xs\<close> show ?thesis by auto
qed

text \<open>The loop against its specification: the normalized entries without repetition, and
  the unparseable ones as they came.\<close>

definition normals :: "string list \<Rightarrow> string list" where
  "normals ps = concat (map (\<lambda>p. case normalize_peer p of Normal n \<Rightarrow> [n] | _ \<Rightarrow> []) ps)"

lemma sanitize_loop_spec:
  "sanitize_loop seen ps = (dedup seen (normals ps), filter (\<lambda>p. normalize_peer p = Unparseable) ps)"
  by (induction seen ps rule: sanitize_loop.induct) (auto simp: normals_def split: peer_entry.splits)

lemma sanitize_peers_spec:
  "sanitize_peers ps = (dedup {} (normals ps), filter (\<lambda>p. normalize_peer p = Unparseable) ps)"
  by (simp add: sanitize_peers_def sanitize_loop_spec)

lemma set_normals: "n \<in> set (normals ps) \<longleftrightarrow> (\<exists>p\<in>set ps. normalize_peer p = Normal n)"
  by (auto simp: normals_def split: peer_entry.splits) force

lemma canonical_parses:
  assumes "canonical_peer_url p \<noteq> []"
  obtains u where "trim_space p \<noteq> []" "url_parse (default_scheme (trim_space p)) = Some u"
    "http_scheme (scheme u)" "hostname u \<noteq> []" "host u \<noteq> []"
proof -
  from assms obtain u where "trim_space p \<noteq> []" "url_parse (default_scheme (trim_space p)) = Some u"
    "http_scheme (scheme u)" "hostname u \<noteq> []"
    by (auto simp: canonical_peer_url_def Let_def split: if_splits option.splits)
  moreover have "host u \<noteq> []"
    using \<open>hostname u \<noteq> []\<close>
    by (auto simp: hostname_def split_host_port_def cut_last_def has_prefix_def)
  ultimately show ?thesis by (rule that)
qed

lemma canonical_normal:
  assumes "canonical_peer_url p \<noteq> []"
  shows "\<exists>n. normalize_peer p = Normal n"
  using assms by (rule canonical_parses) (simp add: normalize_peer_def Let_def)

section \<open>Canonical forms\<close>

lemma default_scheme_given: "default_scheme (sch @ ''://'' @ r) = sch @ ''://'' @ r"
  using contains_append [of sch "''://''" r] by (simp add: default_scheme_def)

lemma default_scheme_bare: "CHR ''/'' \<notin> set s \<Longrightarrow> default_scheme s = ''http://'' @ s"
  by (auto simp: default_scheme_def dest: contains_set)

lemma plain_last_solid:
  assumes "plain_host h" "plain_tail t"
  shows "solid (last (h @ t))"
proof (cases "t = []")
  case True
  with assms plain_host_ends(2) show ?thesis by simp
next
  case False
  with assms(2) obtain p where p: "t = CHR '':'' # p" "all_digits p" by (auto simp: plain_tail_def)
  then have "last p \<in> set p" "is_digit (last p)" by (auto simp: all_digits_def list_all_iff)
  with p show ?thesis by (auto simp: all_digits_def solid_def is_digit_def)
qed

lemma trim_plain:
  assumes "plain_host h" "plain_tail t"
  shows "trim_space (h @ t) = h @ t"
    and "sch = ''http'' \<or> sch = ''https'' \<Longrightarrow> trim_space (sch @ ''://'' @ h @ t) = sch @ ''://'' @ h @ t"
proof -
  have ne: "h @ t \<noteq> []" using assms by (simp add: plain_host_def)
  have l: "solid (last (h @ t))" using assms by (rule plain_last_solid)
  have hd: "hd (h @ t) = hd h" using assms by (simp add: plain_host_def)
  show "trim_space (h @ t) = h @ t"
    using ne l plain_host_ends(1) [OF assms(1)] hd by (intro trim_space_solid) auto
  assume sch: "sch = ''http'' \<or> sch = ''https''"
  have "last (sch @ ''://'' @ h @ t) = last (h @ t)"
    using ne by (metis append_assoc last_appendR)
  moreover have "solid (hd (sch @ ''://'' @ h @ t))"
    using sch by (auto simp: solid_def byte_def)
  ultimately show "trim_space (sch @ ''://'' @ h @ t) = sch @ ''://'' @ h @ t"
    using l by (intro trim_space_solid) auto
qed

lemma canonical_of_parse:
  assumes sch: "sch = ''http'' \<or> sch = ''https''" and h: "plain_host h" and t: "plain_tail t"
    and d: "trim_space s \<noteq> []" "default_scheme (trim_space s) = sch @ ''://'' @ h @ t"
  shows "canonical_peer_url s =
    sch @ ''://'' @ to_lower h @ '':'' @ (if t \<noteq> [] then tl t else if sch = ''https'' then ''443'' else ''80'')"
proof -
  have "split_host_port (h @ t) = (h, if t = [] then [] else tl t)"
    using split_host_port_plain [OF h] t by (auto simp: plain_tail_def all_digits_def)
  then have hp: "hostname (url0\<lparr>scheme := sch, host := h @ t\<rparr>) = h"
    "port (url0\<lparr>scheme := sch, host := h @ t\<rparr>) = (if t = [] then [] else tl t)"
    by (simp_all add: hostname_def port_def)
  have "tl t \<noteq> []" if "t \<noteq> []" using that t by (auto simp: plain_tail_def all_digits_def)
  then show ?thesis
    using d sch h hp url_parse_plain [OF sch h t]
    by (auto simp: canonical_peer_url_def Let_def http_scheme_def plain_host_def
        join_host_port_plain [OF plain_host_lower [OF h]])
qed

lemma canonical_schemed:
  assumes "sch = ''http'' \<or> sch = ''https''" "plain_host h" "plain_tail t"
  shows "canonical_peer_url (sch @ ''://'' @ h @ t) =
    sch @ ''://'' @ to_lower h @ '':'' @ (if t \<noteq> [] then tl t else if sch = ''https'' then ''443'' else ''80'')"
proof (rule canonical_of_parse [OF assms])
  have tr: "trim_space (sch @ ''://'' @ h @ t) = sch @ ''://'' @ h @ t"
    using assms(2,3,1) by (rule trim_plain(2))
  show "trim_space (sch @ ''://'' @ h @ t) \<noteq> []" unfolding tr by simp
  show "default_scheme (trim_space (sch @ ''://'' @ h @ t)) = sch @ ''://'' @ h @ t"
    unfolding tr by (rule default_scheme_given)
qed

lemma canonical_bare:
  assumes "plain_host h" "plain_tail t"
  shows "canonical_peer_url (h @ t) =
    ''http://'' @ to_lower h @ '':'' @ (if t \<noteq> [] then tl t else ''80'')"
proof -
  have "CHR ''/'' \<notin> set (h @ t)"
    using plain_chars [OF assms] by (rule list_all_not_in) (auto dest: plain_host_char_not)
  then have "default_scheme (h @ t) = ''http'' @ ''://'' @ h @ t" by (simp add: default_scheme_bare)
  then show ?thesis
    using assms canonical_of_parse [of "''http''" h t "h @ t"]
    by (auto simp: trim_plain(1) plain_host_def)
qed

lemma election_min_owner:
  assumes "canon_set ps \<noteq> {}"
  shows "bootstrap_role ps s = (True, True) \<longleftrightarrow> Min (canon_set ps) \<in> canon_set s"
  using Min_in [OF finite_canon_set assms] by (auto simp: bootstraps_iff)

section \<open>Properties\<close>

text \<open>C1. Split-brain safety and liveness of uniform-config bring-up: nodes with pairwise
  disjoint canonical self URLs, each handed a peer list with the same canonical set, all of
  whose URLs belong to some node, elect exactly one bootstrapper, whatever the order and the
  spelling of the lists.\<close>

theorem election_exactly_one:
  fixes view selfs :: "nat \<Rightarrow> string list"
  assumes same: "\<And>i. i < n \<Longrightarrow> canon_set (view i) = A" and ne: "A \<noteq> {}"
    and owned: "A \<subseteq> (\<Union>i<n. canon_set (selfs i))"
    and disj: "\<And>i j. i < n \<Longrightarrow> j < n \<Longrightarrow> i \<noteq> j \<Longrightarrow> canon_set (selfs i) \<inter> canon_set (selfs j) = {}"
  shows "\<exists>!b. b < n \<and> bootstrap_role (view b) (selfs b) = (True, True)"
proof -
  have role: "bootstrap_role (view i) (selfs i) = (True, True) \<longleftrightarrow> Min A \<in> canon_set (selfs i)"
    if "i < n" for i
    using same [OF that] ne election_min_owner [of "view i" "selfs i"] by simp
  from ne owned same have "n \<noteq> 0" by auto
  then have "finite A" using same [of 0] by (metis finite_canon_set gr0I)
  then have "Min A \<in> A" using ne by (rule Min_in)
  then obtain b where "b < n" "Min A \<in> canon_set (selfs b)" using owned by blast
  then show ?thesis using role disj by blast
qed

theorem election_exactly_one_witness:
  "\<exists>!b::nat. b < 2 \<and>
     bootstrap_role (if b = 0 then [''b:2380'', ''http://A:2380''] else [''a:2380'', ''b:2380'', ''ftp://x''])
       (if b = 0 then [''http://a:2380''] else [''http://b:2380'']) = (True, True)"
proof -
  let ?v = "\<lambda>b::nat. if b = 0 then [''b:2380'', ''http://A:2380''] else [''a:2380'', ''b:2380'', ''ftp://x'']"
  let ?s = "\<lambda>b::nat. if b = 0 then [''http://a:2380''] else [''http://b:2380'']"
  have c: "canonical_peer_url ''b:2380'' = ''http://b:2380''"
    "canonical_peer_url ''http://A:2380'' = ''http://a:2380''"
    "canonical_peer_url ''a:2380'' = ''http://a:2380''"
    "canonical_peer_url ''http://a:2380'' = ''http://a:2380''"
    "canonical_peer_url ''http://b:2380'' = ''http://b:2380''"
    "canonical_peer_url ''ftp://x'' = []"
    by code_simp+
  have s: "canon_set (?v i) = {''http://a:2380'', ''http://b:2380''}" for i
    by (auto simp: canon_set_Cons c)
  show ?thesis
    by (rule election_exactly_one [where view = ?v and selfs = ?s, OF s])
       (auto simp: canon_set_Cons c lessThan_Suc numeral_2_eq_2)
qed

text \<open>C2. A joiner of a self-inclusive set in which every entry has a canonical form dials
  exactly one peer, which is the bootstrapper's own URL and passes the sanitizer.\<close>

theorem joiner_dials_bootstrapper:
  assumes "canon_set ps = canon_set qs"
    and "bootstrap_role ps s = (False, True)" "bootstrap_role qs t = (True, True)"
    and clean: "\<forall>p\<in>set ps. canonical_peer_url p \<noteq> []"
  shows "\<exists>p n. dial_set ps s True = [p] \<and> p \<in> set ps \<and> canonical_peer_url p \<in> canon_set t
    \<and> canonical_peer_url p \<notin> canon_set s \<and> sanitize_peers (dial_set ps s True) = ([n], [])"
proof -
  let ?r = "remove_self ps s"
  have A: "Min (canon_set ps) \<in> canon_set t" "Min (canon_set ps) \<notin> canon_set s" "canon_set ps \<noteq> {}"
    using assms(1,2,3) by (auto simp: bootstraps_iff joins_iff)
  have R: "canonical_peer_url ` set ?r = canon_set ps - canon_set s"
    using clean canon_remove_self [of ps s] by (auto simp: canon_set_def remove_self_def)
  have mi: "Min (canon_set ps) \<in> canon_set ps" using A(3) by (simp add: Min_in)
  then have "?r \<noteq> []" using R A(2) by auto
  from take1_sort_key [OF this, of canonical_peer_url] obtain p where
    p: "take 1 (sort_key canonical_peer_url ?r) = [p]" "p \<in> set ?r"
       "canonical_peer_url p = Min (canon_set ps - canon_set s)"
    unfolding R by blast
  have "Min (canon_set ps - canon_set s) = Min (canon_set ps)"
    using A(2) mi by (intro Min_eqI) auto
  with p A have "canonical_peer_url p \<in> canon_set t" "canonical_peer_url p \<notin> canon_set s" by auto
  moreover have "p \<in> set ps" using p(2) remove_self_subset by blast
  moreover obtain n where "normalize_peer p = Normal n"
    using canonical_normal [of p] clean \<open>p \<in> set ps\<close> by blast
  then have "sanitize_peers [p] = ([n], [])" by (simp add: sanitize_peers_def)
  moreover have d: "dial_set ps s True = [p]" using p(1) by (simp only: dial_set_def if_True)
  ultimately show ?thesis unfolding d by blast
qed

theorem joiner_dials_bootstrapper_witness:
  "\<exists>p n. dial_set [''c:2380'', ''http://A:2380/'', ''b:2380''] [''http://b:2380''] True = [p]
    \<and> p \<in> set [''c:2380'', ''http://A:2380/'', ''b:2380'']
    \<and> canonical_peer_url p \<in> canon_set [''http://a:2380'']
    \<and> canonical_peer_url p \<notin> canon_set [''http://b:2380'']
    \<and> sanitize_peers (dial_set [''c:2380'', ''http://A:2380/'', ''b:2380''] [''http://b:2380''] True) = ([n], [])"
proof (rule joiner_dials_bootstrapper)
  show "canon_set [''c:2380'', ''http://A:2380/'', ''b:2380''] = canon_set [''c:2380'', ''http://A:2380/'', ''b:2380'']"
    by (rule refl)
  show "bootstrap_role [''c:2380'', ''http://A:2380/'', ''b:2380''] [''http://b:2380''] = (False, True)"
    "bootstrap_role [''c:2380'', ''http://A:2380/'', ''b:2380''] [''http://a:2380''] = (True, True)"
    "\<forall>p\<in>set [''c:2380'', ''http://A:2380/'', ''b:2380'']. canonical_peer_url p \<noteq> []"
    by code_simp+
qed

text \<open>C5. The converse of C2: one unparseable entry in the shared list (which the election
  skips and the sanitizer would drop) sorts first in the dial set, and leaves every joiner
  with no peer to dial.\<close>

theorem junk_entry_starves_joiners:
  assumes junk: "\<exists>p\<in>set ps. canonical_peer_url p = []"
    and bad: "\<forall>p\<in>set ps. canonical_peer_url p = [] \<longrightarrow> normalize_peer p = Unparseable"
  shows "fst (sanitize_peers (dial_set ps s True)) = []"
proof -
  let ?r = "remove_self ps s"
  have r: "p \<in> set ?r" if "p \<in> set ps" "canonical_peer_url p = []" for p
    using that by (auto simp: remove_self_def dest: canon_set_not_Nil)
  with junk have "?r \<noteq> []" by (metis empty_iff list.set(1))
  from take1_sort_key [OF this, of canonical_peer_url] obtain p where
    p: "take 1 (sort_key canonical_peer_url ?r) = [p]" "p \<in> set ?r"
       "canonical_peer_url p = Min (canonical_peer_url ` set ?r)" by blast
  have "[] \<in> canonical_peer_url ` set ?r" using junk r by force
  then have "Min (canonical_peer_url ` set ?r) = []"
    by (intro Min_eqI) auto
  then have "canonical_peer_url p = []" using p(3) by (simp only:)
  moreover have "p \<in> set ps" using p(2) remove_self_subset by blast
  ultimately have "normalize_peer p = Unparseable" using bad by blast
  then have "fst (sanitize_peers [p]) = []" by (simp add: sanitize_peers_def)
  then show ?thesis using p(1) by (simp only: dial_set_def if_True)
qed

theorem junk_entry_starves_joiners_witness:
  "fst (sanitize_peers (dial_set [''ftp://x'', ''http://a:2380'', ''http://b:2380''] [''http://b:2380''] True)) = []
   \<and> bootstrap_role [''ftp://x'', ''http://a:2380'', ''http://b:2380''] [''http://b:2380''] = (False, True)
   \<and> fst (sanitize_peers [''ftp://x'', ''http://a:2380'', ''http://b:2380'']) = [''http://a:2380'', ''http://b:2380'']"
proof (intro conjI)
  show "fst (sanitize_peers (dial_set [''ftp://x'', ''http://a:2380'', ''http://b:2380''] [''http://b:2380''] True)) = []"
    by (rule junk_entry_starves_joiners) code_simp+
qed code_simp+

text \<open>C3. The sanitizer returns the normal forms of the parseable entries without
  repetition, reports exactly the unparseable ones in their order, and never drops an entry
  that has a canonical form.\<close>

theorem sanitize_peers_correct:
  assumes "sanitize_peers ps = (out, dropped)"
  shows "distinct out \<and> set out = {n. \<exists>p\<in>set ps. normalize_peer p = Normal n}
    \<and> subseq dropped ps \<and> set dropped = {p \<in> set ps. normalize_peer p = Unparseable}
    \<and> (\<forall>p\<in>set ps. canonical_peer_url p \<noteq> [] \<longrightarrow>
         p \<notin> set dropped \<and> (\<exists>n\<in>set out. normalize_peer p = Normal n))"
proof -
  have o: "out = dedup {} (normals ps)" and d: "dropped = filter (\<lambda>p. normalize_peer p = Unparseable) ps"
    using assms by (auto simp: sanitize_peers_spec)
  have so: "set out = {n. \<exists>p\<in>set ps. normalize_peer p = Normal n}"
    using o by (auto simp: set_normals)
  have "p \<notin> set dropped \<and> (\<exists>n\<in>set out. normalize_peer p = Normal n)"
    if "p \<in> set ps" "canonical_peer_url p \<noteq> []" for p
    using canonical_normal [OF that(2)] that(1) so d by auto
  with o d so show ?thesis by auto
qed

theorem sanitize_peers_correct_witness:
  "sanitize_peers [''a:1'', ''ftp://x'', ''http://a:1/''] = ([''http://a:1''], [''ftp://x'']) \<and>
   distinct [''http://a:1''] \<and> set [''http://a:1''] = {n. \<exists>p\<in>set [''a:1'', ''ftp://x'', ''http://a:1/'']. normalize_peer p = Normal n}"
proof -
  have s: "sanitize_peers [''a:1'', ''ftp://x'', ''http://a:1/''] = ([''http://a:1''], [''ftp://x''])"
    by code_simp
  from sanitize_peers_correct [OF this] s show ?thesis by blast
qed



end
