(* ===== verification/Builder.thy ===== *)
theory Builder
  imports Peer_List
begin

text \<open>
  The builder of \<open>v0alpha0\<close>: the \<open>EtcdImpl\<close> state (\<open>v0alpha0.go\<close>), the \<open>With*\<close>
  setters and the mutate/validate/derive machinery (\<open>builder.go\<close>), the advertise URLs
  (\<open>util.go\<close>) and the materialization of the listeners (\<open>server.go\<close>).  The fields of
  \<open>embed.Config\<close> that the sources set, read or copy are kept; its validation, its
  initial-cluster parser and the log level parser are parameters, as is binding a socket.
\<close>

section \<open>State\<close>

record listener =
  lis_addr :: string
  lis_tls :: bool

text \<open>The fields of \<open>embed.Config\<close> that \<open>serverConfig\<close> copies unchanged; opaque values
  (socket options, the discovery block, the feature gate) as text.\<close>

record engine =
  eg_max_snap_files :: int
  eg_max_wal_files :: int
  eg_discovery_cfg :: string
  eg_auto_compaction_mode :: string
  eg_quota_backend_bytes :: int
  eg_backend_batch_limit :: int
  eg_backend_batch_interval :: int
  eg_max_txn_ops :: int
  eg_max_request_bytes :: int
  eg_max_concurrent_streams :: int
  eg_socket_opts :: string
  eg_strict_reconfig_check :: bool
  eg_client_cert_auth :: bool
  eg_auth_token :: string
  eg_bcrypt_cost :: int
  eg_auth_token_ttl :: int
  eg_cors :: "string set"
  eg_host_whitelist :: "string set"
  eg_corrupt_check_time :: int
  eg_compact_hash_check_time :: int
  eg_pre_vote :: bool
  eg_force_new_cluster :: bool
  eg_enable_grpc_gateway :: bool
  eg_enable_distributed_tracing :: bool
  eg_unsafe_no_fsync :: bool
  eg_compaction_batch_limit :: int
  eg_compaction_sleep_interval :: int
  eg_watch_progress_notify_interval :: int
  eg_downgrade_check_time :: int
  eg_warning_apply_duration :: int
  eg_warning_unary_request_duration :: int
  eg_memory_mlock :: bool
  eg_bootstrap_defrag_megabytes :: int
  eg_server_feature_gate :: string
  eg_metrics_mode :: string

record tls_info =
  tls_files :: string
  tls_local_addr :: string

record config =
  c_name :: string
  c_dir :: string
  c_wal_dir :: string
  c_listen_client :: "url list"
  c_advertise_client :: "url list"
  c_listen_peer :: "url list"
  c_advertise_peer :: "url list"
  c_initial_cluster :: string
  c_cluster_token :: string
  c_existing :: bool
  c_log_level :: string
  c_silent :: bool
  c_tick_advance :: bool
  c_election_ms :: int
  c_tick_ms :: int
  c_max_learners :: int
  c_catch_up :: int
  c_snapshot_count :: int
  c_peer_tls :: tls_info
  c_engine :: engine

type_synonym urls_map = "(string \<times> string list) list"

record server_config =
  sc_name :: string
  sc_client_urls :: "url list"
  sc_peer_urls :: "url list"
  sc_data_dir :: string
  sc_wal_dir :: string
  sc_snapshot_count :: int
  sc_catch_up :: int
  sc_urls_map :: urls_map
  sc_token :: string
  sc_new_cluster :: bool
  sc_tick_ms :: int
  sc_tick_advance :: bool
  sc_max_learners :: int
  sc_election_ticks :: int
  sc_v2_deprecation :: string
  sc_local_address :: string
  sc_peer_tls :: tls_info
  sc_engine :: engine

text \<open>The calls into \<open>embed\<close> and \<open>zap\<close>: \<open>Config.Validate\<close> (its panics recovered),
  \<open>Config.PeerURLsMapAndToken\<close>, \<open>zapcore.ParseLevel\<close>, and the derived settings \<open>ElectionTicks\<close>,
  \<open>V2DeprecationEffective\<close> and \<open>InferLocalAddr\<close>.\<close>

record embed_api =
  em_validate :: "config \<Rightarrow> string option"
  em_urls_map :: "config \<Rightarrow> string + urls_map \<times> string"
  em_parse_level :: "string \<Rightarrow> string option"
  em_election_ticks :: "config \<Rightarrow> int"
  em_v2_deprecation :: "config \<Rightarrow> string"
  em_infer_local :: "config \<Rightarrow> string"

text \<open>A listener factory: nil, the auto-bind default, or the caller's listener.\<close>

datatype factory = NoFactory | AutoBind | Given listener

text \<open>A caller context: its deadline and the time of its cancellation, if any.\<close>

record user_ctx =
  uc_deadline :: "int option"
  uc_cancelled :: "int option"

record node =
  n_cfg :: config
  n_srvcfg :: "server_config option"
  n_cause :: "string option"
  n_user_ctx :: "user_ctx option"
  n_start_wait :: "int option"
  n_client_factory :: factory
  n_client_http :: bool
  n_peer_factory :: factory
  n_peer_http :: bool
  n_peer_advertise :: "url list"
  n_client_mat :: bool
  n_client_lis :: "listener option"
  n_peer_mat :: bool
  n_peer_lis :: "listener option"
  n_cluster_set :: bool
  n_join_userinfo :: string
  n_join_credential :: string
  n_leave_on_stop :: bool
  n_server_once :: bool
  n_minted :: bool
  n_start_once :: bool
  n_started :: bool
  n_stop_once :: bool
  n_client_http_once :: bool
  n_client_srv :: bool
  n_peer_http_once :: bool
  n_peer_srv :: bool
  n_loopback :: bool
  n_grpc :: bool
  n_after_func :: bool

section \<open>Deriving the server configuration\<close>

definition latch :: "string \<Rightarrow> node \<Rightarrow> node" where
  "latch e b = (if n_cause b = None then b\<lparr>n_cause := Some e\<rparr> else b)"

definition single_member :: "config \<Rightarrow> string" where
  "single_member c = join_with '','' (map (\<lambda>u. c_name c @ ''='' @ url_string u) (c_advertise_peer c))"

definition auto_sync :: "node \<Rightarrow> node" where
  "auto_sync b =
     (if \<not> n_cluster_set b \<and> c_advertise_peer (n_cfg b) \<noteq> []
      then b\<lparr>n_cfg := (n_cfg b)\<lparr>c_initial_cluster := single_member (n_cfg b)\<rparr>\<rparr> else b)"

definition derive_config :: "embed_api \<Rightarrow> config \<Rightarrow> string + server_config" where
  "derive_config em c =
     (case em_urls_map em c of
        Inl e \<Rightarrow> Inl (''initial cluster: '' @ e)
      | Inr (m, tok) \<Rightarrow>
          Inr \<lparr>sc_name = c_name c, sc_client_urls = c_advertise_client c, sc_peer_urls = c_advertise_peer c,
               sc_data_dir = c_dir c, sc_wal_dir = c_wal_dir c, sc_snapshot_count = c_snapshot_count c,
               sc_catch_up = c_catch_up c, sc_urls_map = m, sc_token = tok, sc_new_cluster = (\<not> c_existing c),
               sc_tick_ms = c_tick_ms c, sc_tick_advance = c_tick_advance c, sc_max_learners = c_max_learners c,
               sc_election_ticks = em_election_ticks em c, sc_v2_deprecation = em_v2_deprecation em c,
               sc_local_address = em_infer_local em c,
               sc_peer_tls = (c_peer_tls c)\<lparr>tls_local_addr := em_infer_local em c\<rparr>, sc_engine = c_engine c\<rparr>)"

definition mutate :: "embed_api \<Rightarrow> (node \<Rightarrow> string + node) \<Rightarrow> node \<Rightarrow> node" where
  "mutate em f b =
     (if n_cause b \<noteq> None then b
      else
        (case f b of
           Inl e \<Rightarrow> latch e b
         | Inr b1 \<Rightarrow>
             (let b2 = auto_sync b1 in
              case em_validate em (n_cfg b2) of
                Some e \<Rightarrow> latch e b2
              | None \<Rightarrow>
                  (case derive_config em (n_cfg b2) of
                     Inl e \<Rightarrow> latch e b2
                   | Inr sc \<Rightarrow> b2\<lparr>n_srvcfg := Some sc\<rparr>))))"

section \<open>Setters\<close>

definition with_name :: "embed_api \<Rightarrow> string \<Rightarrow> node \<Rightarrow> node" where
  "with_name em x = mutate em (\<lambda>b. Inr (b\<lparr>n_cfg := (n_cfg b)\<lparr>c_name := x\<rparr>\<rparr>))"

definition with_dir :: "embed_api \<Rightarrow> string \<Rightarrow> node \<Rightarrow> node" where
  "with_dir em x = mutate em (\<lambda>b. Inr (b\<lparr>n_cfg := (n_cfg b)\<lparr>c_dir := x\<rparr>\<rparr>))"

definition with_cluster_token :: "embed_api \<Rightarrow> string \<Rightarrow> node \<Rightarrow> node" where
  "with_cluster_token em x = mutate em (\<lambda>b. Inr (b\<lparr>n_cfg := (n_cfg b)\<lparr>c_cluster_token := x\<rparr>\<rparr>))"

definition with_initial_cluster :: "embed_api \<Rightarrow> string \<Rightarrow> node \<Rightarrow> node" where
  "with_initial_cluster em x =
     mutate em (\<lambda>b. Inr (b\<lparr>n_cluster_set := True, n_cfg := (n_cfg b)\<lparr>c_initial_cluster := x\<rparr>\<rparr>))"

definition build_logger :: "embed_api \<Rightarrow> string \<Rightarrow> string + unit" where
  "build_logger em level =
     (case em_parse_level em level of Some e \<Rightarrow> Inl (''log level '' @ level @ '': '' @ e) | None \<Rightarrow> Inr ())"

definition with_log :: "embed_api \<Rightarrow> string \<Rightarrow> bool \<Rightarrow> node \<Rightarrow> node" where
  "with_log em level nil_writer =
     mutate em (\<lambda>b. case build_logger em level of
         Inl e \<Rightarrow> Inl e
       | Inr _ \<Rightarrow> Inr (b\<lparr>n_cfg := (n_cfg b)\<lparr>c_log_level := level, c_silent := nil_writer\<rparr>\<rparr>))"

definition with_context :: "embed_api \<Rightarrow> user_ctx option \<Rightarrow> node \<Rightarrow> node" where
  "with_context em c = mutate em (\<lambda>b. Inr (b\<lparr>n_user_ctx := c\<rparr>))"

definition listener_url :: "listener \<Rightarrow> url" where
  "listener_url l = url0\<lparr>scheme := (if lis_tls l then ''https'' else ''http''), host := lis_addr l\<rparr>"

definition set_client_urls :: "url list \<Rightarrow> node \<Rightarrow> node" where
  "set_client_urls us b = b\<lparr>n_cfg := (n_cfg b)\<lparr>c_listen_client := us, c_advertise_client := us\<rparr>\<rparr>"

definition with_client_listener :: "embed_api \<Rightarrow> listener option \<Rightarrow> node \<Rightarrow> node" where
  "with_client_listener em lis =
     mutate em (\<lambda>b.
       if n_client_mat b then Inl ''client listener already materialized; configure before Start/Join''
       else
         (case lis of
            None \<Rightarrow> Inr (set_client_urls [] (b\<lparr>n_client_factory := NoFactory, n_client_http := False\<rparr>))
          | Some l \<Rightarrow> Inr (set_client_urls [listener_url l] (b\<lparr>n_client_factory := Given l\<rparr>))))"

text \<open>One advertise URL: an explicit port, no path.  \<open>None\<close> is a dropped entry.\<close>

definition advertise_url :: "string \<Rightarrow> url option" where
  "advertise_url s =
     (case url_parse s of
        None \<Rightarrow> None
      | Some u \<Rightarrow>
          if hostname u = [] then None
          else
            (let h = (if port u = []
                      then join_host_port (hostname u) (if scheme u = ''https'' then ''443'' else ''80'')
                      else host u)
             in Some (u\<lparr>host := h, path := []\<rparr>)))"

fun advertise_loop :: "string set \<Rightarrow> string list \<Rightarrow> url list" where
  "advertise_loop seen [] = []"
| "advertise_loop seen (s # ss) =
     (case advertise_url s of
        None \<Rightarrow> advertise_loop seen ss
      | Some u \<Rightarrow>
          if url_string u \<in> seen then advertise_loop seen ss
          else u # advertise_loop (insert (url_string u) seen) ss)"

definition parse_advertise_urls :: "string list \<Rightarrow> url list" where
  "parse_advertise_urls ss = sort_key url_string (advertise_loop {} ss)"

definition apply_peer_urls :: "listener \<Rightarrow> node \<Rightarrow> node" where
  "apply_peer_urls l b =
     b\<lparr>n_cfg := (n_cfg b)\<lparr>c_listen_peer := [listener_url l],
         c_advertise_peer := (if n_peer_advertise b \<noteq> [] then n_peer_advertise b else [listener_url l])\<rparr>\<rparr>"

definition byo_listen :: url where
  "byo_listen = url0\<lparr>scheme := ''http'', host := ''127.0.0.1:2380''\<rparr>"

definition with_peer_listener :: "embed_api \<Rightarrow> listener option \<Rightarrow> string list \<Rightarrow> node \<Rightarrow> node" where
  "with_peer_listener em lis advs =
     mutate em (\<lambda>b.
       if n_peer_mat b then Inl ''peer listener already materialized; configure before Start/Join''
       else
         (let adv = parse_advertise_urls advs in
          case lis of
            None \<Rightarrow>
              if adv = [] then Inl ''peer listener cannot be nil without advertise URLs: a raft member must serve a peer socket or advertise where its peer protocol is served''
              else Inr (b\<lparr>n_peer_factory := NoFactory, n_peer_http := False, n_peer_advertise := adv,
                         n_cfg := (n_cfg b)\<lparr>c_advertise_peer := adv, c_listen_peer := [byo_listen]\<rparr>\<rparr>)
          | Some l \<Rightarrow> Inr (apply_peer_urls l (b\<lparr>n_peer_factory := Given l, n_peer_advertise := adv\<rparr>))))"

section \<open>Construction\<close>

text \<open>\<open>embed.NewConfig()\<close> and the generated name are given.\<close>

definition default_config :: "config \<Rightarrow> string \<Rightarrow> string \<Rightarrow> string \<Rightarrow> config" where
  "default_config base name env_token env_dir =
     base\<lparr>c_name := name, c_tick_advance := False, c_election_ms := 10000, c_max_learners := 9223372036854775807,
          c_catch_up := 100000, c_snapshot_count := 100000, c_tick_ms := 1000, c_silent := True,
          c_cluster_token := (if env_token \<noteq> [] then env_token else c_cluster_token base),
          c_dir := (if env_dir \<noteq> [] then env_dir else c_dir base)\<rparr>"

definition blank_node :: "config \<Rightarrow> node" where
  "blank_node c = \<lparr>n_cfg = c, n_srvcfg = None, n_cause = None, n_user_ctx = None, n_start_wait = None,
     n_client_factory = AutoBind, n_client_http = True, n_peer_factory = AutoBind, n_peer_http = True,
     n_peer_advertise = [], n_client_mat = False, n_client_lis = None, n_peer_mat = False, n_peer_lis = None,
     n_cluster_set = False, n_join_userinfo = [], n_join_credential = [], n_leave_on_stop = False,
     n_server_once = False, n_minted = False, n_start_once = False, n_started = False, n_stop_once = False,
     n_client_http_once = False, n_client_srv = False, n_peer_http_once = False, n_peer_srv = False,
     n_loopback = False, n_grpc = False, n_after_func = False\<rparr>"

definition new_impl :: "embed_api \<Rightarrow> config \<Rightarrow> string \<Rightarrow> string \<Rightarrow> string \<Rightarrow> node" where
  "new_impl em base name env_token env_dir =
     mutate em Inr (blank_node (default_config base name env_token env_dir))"

section \<open>Materializing the listeners\<close>

text \<open>\<open>bind\<close> is \<open>net.Listen("tcp", "127.0.0.1:0")\<close> on the state of the host.\<close>

definition run_factory :: "('w \<Rightarrow> (string + listener) \<times> 'w) \<Rightarrow> factory \<Rightarrow> 'w \<Rightarrow> (string + listener) option \<times> 'w" where
  "run_factory bind f w =
     (case f of
        NoFactory \<Rightarrow> (None, w)
      | AutoBind \<Rightarrow> (case bind w of (r, w1) \<Rightarrow> (Some r, w1))
      | Given l \<Rightarrow> (Some (Inr l), w))"

definition client_listener ::
  "embed_api \<Rightarrow> ('w \<Rightarrow> (string + listener) \<times> 'w) \<Rightarrow> node \<Rightarrow> 'w \<Rightarrow> node \<times> 'w" where
  "client_listener em bind b w =
     (if n_client_mat b then (b, w)
      else
        (let b1 = b\<lparr>n_client_mat := True\<rparr> in
         if n_cause b1 \<noteq> None then (b1, w)
         else
           (case run_factory bind (n_client_factory b1) w of
              (None, w1) \<Rightarrow> (b1, w1)
            | (Some (Inl e), w1) \<Rightarrow> (latch (''client listener: '' @ e) b1, w1)
            | (Some (Inr l), w1) \<Rightarrow>
                (mutate em (\<lambda>b. Inr (set_client_urls [listener_url l] (b\<lparr>n_client_lis := Some l\<rparr>))) b1, w1))))"

definition peer_listener ::
  "embed_api \<Rightarrow> ('w \<Rightarrow> (string + listener) \<times> 'w) \<Rightarrow> node \<Rightarrow> 'w \<Rightarrow> node \<times> 'w" where
  "peer_listener em bind b w =
     (if n_peer_mat b then (b, w)
      else
        (let b1 = b\<lparr>n_peer_mat := True\<rparr> in
         if n_cause b1 \<noteq> None then (b1, w)
         else
           (case run_factory bind (n_peer_factory b1) w of
              (None, w1) \<Rightarrow> (b1, w1)
            | (Some (Inl e), w1) \<Rightarrow> (latch (''peer listener: '' @ e) b1, w1)
            | (Some (Inr l), w1) \<Rightarrow>
                (mutate em (\<lambda>b. Inr (apply_peer_urls l (b\<lparr>n_peer_lis := Some l\<rparr>))) b1, w1))))"

section \<open>The latch and the derived state\<close>

text \<open>What an accepted configuration satisfies: it is valid, the server configuration is
  derived from it, and an unpinned initial cluster lists this node's advertise URLs.\<close>

definition derived :: "embed_api \<Rightarrow> node \<Rightarrow> bool" where
  "derived em b \<longleftrightarrow>
     em_validate em (n_cfg b) = None \<and> (\<exists>sc. derive_config em (n_cfg b) = Inr sc \<and> n_srvcfg b = Some sc)
     \<and> (n_cluster_set b \<or> c_advertise_peer (n_cfg b) = [] \<or> c_initial_cluster (n_cfg b) = single_member (n_cfg b))"

definition builder_inv :: "embed_api \<Rightarrow> node \<Rightarrow> bool" where
  "builder_inv em b \<longleftrightarrow> (\<exists>e. n_cause b = Some e) \<or> derived em b"

lemma latch_cause [simp]: "n_cause (latch e b) \<noteq> None"
  by (simp add: latch_def)

lemma latch_other [simp]: "n_cfg (latch e b) = n_cfg b" "n_srvcfg (latch e b) = n_srvcfg b"
  by (simp_all add: latch_def)

lemma single_member_initial [simp]: "single_member (c\<lparr>c_initial_cluster := x\<rparr>) = single_member c"
  by (simp add: single_member_def)

lemma auto_sync_synced:
  "n_cluster_set (auto_sync b) \<or> c_advertise_peer (n_cfg (auto_sync b)) = []
   \<or> c_initial_cluster (n_cfg (auto_sync b)) = single_member (n_cfg (auto_sync b))"
  by (simp add: auto_sync_def)

lemma auto_sync_keeps [simp]:
  "n_cause (auto_sync b) = n_cause b" "n_peer_mat (auto_sync b) = n_peer_mat b"
  "n_peer_factory (auto_sync b) = n_peer_factory b" "n_peer_advertise (auto_sync b) = n_peer_advertise b"
  "c_advertise_peer (n_cfg (auto_sync b)) = c_advertise_peer (n_cfg b)" "n_peer_lis (auto_sync b) = n_peer_lis b"
  "n_client_mat (auto_sync b) = n_client_mat b" "n_minted (auto_sync b) = n_minted b"
  "n_started (auto_sync b) = n_started b" "n_cluster_set (auto_sync b) = n_cluster_set b"
  "c_dir (n_cfg (auto_sync b)) = c_dir (n_cfg b)" "c_name (n_cfg (auto_sync b)) = c_name (n_cfg b)"
  "c_cluster_token (n_cfg (auto_sync b)) = c_cluster_token (n_cfg b)"
  by (simp_all add: auto_sync_def)

lemma mutate_latched: "n_cause b \<noteq> None \<Longrightarrow> mutate em f b = b"
  by (simp add: mutate_def)

lemma mutate_inv: "builder_inv em (mutate em f b)"
proof (cases "n_cause b")
  case (Some e)
  then show ?thesis by (simp add: mutate_def builder_inv_def)
next
  case None
  show ?thesis
  proof (cases "f b")
    case (Inl e)
    then show ?thesis using None by (simp add: mutate_def builder_inv_def latch_def)
  next
    case (Inr b1)
    then show ?thesis
      using None auto_sync_synced [of b1]
      by (auto simp: mutate_def builder_inv_def derived_def latch_def Let_def split: option.splits sum.splits)
  qed
qed

text \<open>How an accepted mutation ends: the function's state, synced and derived.\<close>

lemma mutate_accepted:
  assumes "n_cause (mutate em f b) = None"
  obtains b1 sc where "n_cause b = None" "f b = Inr b1" "mutate em f b = (auto_sync b1)\<lparr>n_srvcfg := Some sc\<rparr>"
proof -
  have "n_cause b = None" using assms mutate_latched [of b em f] by fastforce
  moreover obtain b1 where "f b = Inr b1"
    using assms \<open>n_cause b = None\<close> by (cases "f b") (auto simp: mutate_def)
  moreover obtain sc where "mutate em f b = (auto_sync b1)\<lparr>n_srvcfg := Some sc\<rparr>"
    using assms calculation
    by (auto simp: mutate_def Let_def split: option.splits sum.splits)
  ultimately show ?thesis by (rule that)
qed

text \<open>The contract every setter and the materialization share.\<close>

locale builder_op =
  fixes em :: embed_api and op :: "node \<Rightarrow> node"
  assumes latched: "n_cause b \<noteq> None \<Longrightarrow> op b = b"
    and keeps: "builder_inv em b \<Longrightarrow> builder_inv em (op b)"
begin

lemma first_error: "n_cause b = Some e \<Longrightarrow> n_cause (op b) = Some e"
  using latched [of b] by simp

lemma no_error_before: "n_cause (op b) = None \<Longrightarrow> n_cause b = None"
  using latched [of b] by fastforce

lemma accepted_derived: "builder_inv em b \<Longrightarrow> n_cause (op b) = None \<Longrightarrow> derived em (op b)"
  using keeps [of b] by (simp add: builder_inv_def)

end

datatype setting =
    SName string | SDir string | SToken string | SCluster string | SLog string bool
  | SContext "user_ctx option" | SClient "listener option" | SPeer "listener option" "string list"

primrec apply_setting :: "embed_api \<Rightarrow> setting \<Rightarrow> node \<Rightarrow> node" where
  "apply_setting em (SName x) = with_name em x"
| "apply_setting em (SDir x) = with_dir em x"
| "apply_setting em (SToken x) = with_cluster_token em x"
| "apply_setting em (SCluster x) = with_initial_cluster em x"
| "apply_setting em (SLog l w) = with_log em l w"
| "apply_setting em (SContext c) = with_context em c"
| "apply_setting em (SClient l) = with_client_listener em l"
| "apply_setting em (SPeer l a) = with_peer_listener em l a"

lemmas setting_defs = with_name_def with_dir_def with_cluster_token_def with_initial_cluster_def
  with_log_def with_context_def with_client_listener_def with_peer_listener_def

lemma apply_setting_mutate: "\<exists>f. apply_setting em s = mutate em f"
  by (cases s) (auto simp: setting_defs intro: exI)

interpretation setter: builder_op em "apply_setting em s" for em s
proof
  obtain f where f: "apply_setting em s = mutate em f" using apply_setting_mutate by blast
  show "n_cause b \<noteq> None \<Longrightarrow> apply_setting em s b = b" for b by (simp add: f mutate_latched)
  show "builder_inv em b \<Longrightarrow> builder_inv em (apply_setting em s b)" for b by (simp add: f mutate_inv)
qed

definition configure :: "embed_api \<Rightarrow> setting list \<Rightarrow> node \<Rightarrow> node" where
  "configure em ss b = fold (apply_setting em) ss b"

lemma configure_Nil [simp]: "configure em [] b = b"
  by (simp add: configure_def)

lemma configure_Cons [simp]: "configure em (s # ss) b = configure em ss (apply_setting em s b)"
  by (simp add: configure_def)

interpretation chain: builder_op em "configure em ss" for em ss
proof
  show "n_cause b \<noteq> None \<Longrightarrow> configure em ss b = b" for b
    by (induction ss) (simp_all add: setter.latched)
  show "builder_inv em b \<Longrightarrow> builder_inv em (configure em ss b)" for b
    by (induction ss arbitrary: b) (simp_all add: setter.keeps)
qed

lemma new_impl_inv: "builder_inv em (new_impl em base name tok dir)"
  by (simp add: new_impl_def mutate_inv)

text \<open>Materializing a listener keeps the invariant.\<close>

lemma inv_mat [simp]:
  "builder_inv em (b\<lparr>n_client_mat := m\<rparr>) = builder_inv em b"
  "builder_inv em (b\<lparr>n_peer_mat := m\<rparr>) = builder_inv em b"
  by (simp_all add: builder_inv_def derived_def)

lemma inv_latch [simp]: "builder_inv em (latch e b)"
  using latch_cause [of e b] by (auto simp: builder_inv_def simp del: latch_cause)

lemma client_listener_inv: "builder_inv em b \<Longrightarrow> builder_inv em (fst (client_listener em bind b w))"
  unfolding client_listener_def Let_def by (auto simp: mutate_inv split: option.split sum.split prod.split)

lemma peer_listener_inv: "builder_inv em b \<Longrightarrow> builder_inv em (fst (peer_listener em bind b w))"
  unfolding peer_listener_def Let_def by (auto simp: mutate_inv split: option.split sum.split prod.split)

section \<open>Advertise URLs\<close>

lemma port_join:
  assumes "list_all is_digit p"
  shows "snd (split_host_port (join_host_port h p)) = p"
proof -
  have n: "CHR '':'' \<notin> set p" using assms by (rule list_all_not_in) (simp add: byte_class_defs)
  obtain x where x: "join_host_port h p = x @ CHR '':'' # p"
  proof (cases "CHR '':'' \<in> set h")
    case True
    then show ?thesis by (intro that [of "''['' @ h @ '']''"]) (simp add: join_host_port_def)
  next
    case False
    then show ?thesis by (intro that [of h]) (simp add: join_host_port_def)
  qed
  show ?thesis using assms cut_last_append [OF n, of x] by (simp add: x split_host_port_def)
qed

lemma advertise_url_port:
  assumes "advertise_url s = Some u"
  shows "port u \<noteq> [] \<and> path u = []"
proof -
  have d: "list_all is_digit ''443''" "list_all is_digit ''80''" by (simp_all add: byte_class_defs)
  obtain v where "url_parse s = Some v" using assms by (auto simp: advertise_url_def split: option.splits)
  then show ?thesis
    using assms port_join [OF d(1), of "hostname v"] port_join [OF d(2), of "hostname v"]
    by (auto simp: advertise_url_def Let_def port_def split: if_splits)
qed

definition adv_strings :: "string list \<Rightarrow> string set" where
  "adv_strings ss = {url_string u | u s. s \<in> set ss \<and> advertise_url s = Some u}"

lemma advertise_loop_set:
  "url_string ` set (advertise_loop seen ss) = adv_strings ss - seen"
  by (induction seen ss rule: advertise_loop.induct)
    (auto simp: adv_strings_def split: option.splits)

lemma advertise_loop_distinct: "distinct (map url_string (advertise_loop seen ss))"
proof (induction seen ss rule: advertise_loop.induct)
  case (2 seen s ss)
  then show ?case
    using advertise_loop_set [of "insert (url_string u) seen" ss for u]
    by (auto split: option.splits)
qed simp

lemma advertise_loop_entries: "u \<in> set (advertise_loop seen ss) \<Longrightarrow> \<exists>s\<in>set ss. advertise_url s = Some u"
  by (induction seen ss rule: advertise_loop.induct) (auto split: option.splits if_splits)

section \<open>A concrete embed API\<close>

definition demo_embed :: embed_api where
  "demo_embed = \<lparr>em_validate = (\<lambda>c. if c_name c = [] then Some ''name'' else None),
     em_urls_map = (\<lambda>c. Inr ([], c_cluster_token c)),
     em_parse_level = (\<lambda>l. if l = ''info'' then None else Some ''unrecognized level''),
     em_election_ticks = (\<lambda>c. c_election_ms c div c_tick_ms c), em_v2_deprecation = (\<lambda>c. ''not-yet''),
     em_infer_local = (\<lambda>c. [])\<rparr>"

definition demo_engine :: engine where
  "demo_engine = \<lparr>eg_max_snap_files = 0, eg_max_wal_files = 0, eg_discovery_cfg = [], eg_auto_compaction_mode = [],
     eg_quota_backend_bytes = 0, eg_backend_batch_limit = 0, eg_backend_batch_interval = 0,
     eg_max_txn_ops = 0, eg_max_request_bytes = 0, eg_max_concurrent_streams = 0, eg_socket_opts = [],
     eg_strict_reconfig_check = False, eg_client_cert_auth = False, eg_auth_token = [], eg_bcrypt_cost =
     0, eg_auth_token_ttl = 0, eg_cors = {}, eg_host_whitelist = {}, eg_corrupt_check_time = 0,
     eg_compact_hash_check_time = 0, eg_pre_vote = False, eg_force_new_cluster = False,
     eg_enable_grpc_gateway = False, eg_enable_distributed_tracing = False, eg_unsafe_no_fsync = False,
     eg_compaction_batch_limit = 0, eg_compaction_sleep_interval = 0, eg_watch_progress_notify_interval =
     0, eg_downgrade_check_time = 0, eg_warning_apply_duration = 0, eg_warning_unary_request_duration =
     0, eg_memory_mlock = False, eg_bootstrap_defrag_megabytes = 0, eg_server_feature_gate = [],
     eg_metrics_mode = []\<rparr>"

definition demo_base :: config where
  "demo_base = \<lparr>c_name = ''default'', c_dir = [], c_wal_dir = [], c_listen_client = [], c_advertise_client = [],
     c_listen_peer = [], c_advertise_peer = [url0\<lparr>scheme := ''http'', host := ''localhost:2380''\<rparr>],
     c_initial_cluster = [], c_cluster_token = ''etcd-cluster'', c_existing = False, c_log_level = ''info'',
     c_silent = False, c_tick_advance = True, c_election_ms = 1000, c_tick_ms = 100, c_max_learners = 1,
     c_catch_up = 5000, c_snapshot_count = 10000,
     c_peer_tls = \<lparr>tls_files = [], tls_local_addr = []\<rparr>, c_engine = demo_engine\<rparr>"

section \<open>Properties\<close>

text \<open>C14. The builder's invariant: after any chain of setters on a new node and the
  materialization of both listeners, the node either carries a latched error or a valid
  configuration whose server configuration is derived from it and whose unpinned initial
  cluster lists exactly its own advertise URLs.\<close>

theorem builder_chain_derived:
  "let b = configure em ss (new_impl em base name tok dir);
       (b1, w1) = client_listener em bind b w;
       (b2, w2) = peer_listener em bind b1 w1
   in builder_inv em b \<and> builder_inv em b1 \<and> builder_inv em b2"
proof -
  have "builder_inv em (configure em ss (new_impl em base name tok dir))"
    by (intro chain.keeps new_impl_inv)
  then show ?thesis
    using client_listener_inv [of em "configure em ss (new_impl em base name tok dir)" bind w]
      peer_listener_inv [of em "fst (client_listener em bind (configure em ss (new_impl em base name tok dir)) w)"]
    by (simp add: Let_def split_beta)
qed

text \<open>The first error wins: once a setter has latched an error, every later setter is
  without effect, so the error reported is the first one.\<close>

theorem first_error_wins:
  assumes "n_cause (configure em ss b) = Some e"
  shows "configure em (ss @ ts) b = configure em ss b"
proof -
  have "configure em (ss @ ts) b = configure em ts (configure em ss b)" by (simp add: configure_def)
  then show ?thesis using assms chain.latched [of "configure em ss b" em ts] by simp
qed

theorem first_error_wins_witness:
  "n_cause (configure demo_embed [SLog ''loud'' False, SName ''x'', SLog ''info'' True] (new_impl demo_embed demo_base ''n1'' [] []))
     = Some ''log level loud: unrecognized level''"
proof -
  have "n_cause (configure demo_embed [SLog ''loud'' False] (new_impl demo_embed demo_base ''n1'' [] []))
     = Some ''log level loud: unrecognized level''"
    by (simp add: new_impl_def mutate_def blank_node_def default_config_def demo_base_def auto_sync_def
        demo_embed_def derive_config_def with_log_def build_logger_def latch_def Let_def)
  from first_error_wins [OF this, of "[SName ''x'', SLog ''info'' True]"] this show ?thesis by simp
qed

text \<open>Advertise URLs in normal form: the result lists each distinct normalized URL once,
  in sorted order (so independently of the order and the repetitions of the arguments), and
  every entry has an explicit port and no path.\<close>

theorem advertise_urls_normal:
  "map url_string (parse_advertise_urls ss) = sorted_list_of_set (adv_strings ss)
   \<and> list_all (\<lambda>u. port u \<noteq> [] \<and> path u = []) (parse_advertise_urls ss)"
proof
  let ?us = "parse_advertise_urls ss"
  have "set (map url_string ?us) = adv_strings ss"
    using advertise_loop_set [of "{}" ss] by (simp add: parse_advertise_urls_def)
  moreover have "sorted (map url_string ?us)" by (simp add: parse_advertise_urls_def)
  moreover have "distinct (map url_string ?us)"
    using advertise_loop_distinct [of "{}" ss]
    by (simp add: parse_advertise_urls_def distinct_map)
  ultimately show "map url_string ?us = sorted_list_of_set (adv_strings ss)"
    by (metis sorted_list_of_set.idem_if_sorted_distinct)
  show "list_all (\<lambda>u. port u \<noteq> [] \<and> path u = []) ?us"
    using advertise_loop_entries [of _ "{}" ss] advertise_url_port
    by (fastforce simp: parse_advertise_urls_def list_all_iff)
qed

text \<open>C15. The advertise override survives materialization: with a given listener the peer side
  binds nothing else, listens on that listener's address and advertises the override (the
  listener's own address only when no override parses); afterwards a changed listener is
  refused and leaves the advertised URLs as they are.\<close>

theorem advertise_override_survives:
  assumes "\<not> n_peer_mat b" and ok1: "n_cause (with_peer_listener em (Some l) advs b) = None"
    and run: "peer_listener em bind (with_peer_listener em (Some l) advs b) w = (b2, w2)"
    and ok2: "n_cause b2 = None"
  shows "w2 = w \<and> n_peer_lis b2 = Some l \<and> c_listen_peer (n_cfg b2) = [listener_url l]
    \<and> c_advertise_peer (n_cfg b2) =
        (if parse_advertise_urls advs = [] then [listener_url l] else parse_advertise_urls advs)
    \<and> n_cause (with_peer_listener em l' advs' b2) \<noteq> None
    \<and> c_advertise_peer (n_cfg (with_peer_listener em l' advs' b2)) = c_advertise_peer (n_cfg b2)"
proof -
  let ?b1 = "with_peer_listener em (Some l) advs b"
  have b1: "n_peer_factory ?b1 = Given l" "n_peer_advertise ?b1 = parse_advertise_urls advs" "\<not> n_peer_mat ?b1"
    using ok1 assms(1) unfolding with_peer_listener_def
    by (auto elim!: mutate_accepted simp: apply_peer_urls_def Let_def)
  have w: "w2 = w" and b2: "b2 = mutate em (\<lambda>b. Inr (apply_peer_urls l (b\<lparr>n_peer_lis := Some l\<rparr>))) (?b1\<lparr>n_peer_mat := True\<rparr>)"
    using run ok1 b1 by (auto simp: peer_listener_def run_factory_def Let_def)
  obtain sc where sc: "b2 = (auto_sync (apply_peer_urls l (?b1\<lparr>n_peer_mat := True, n_peer_lis := Some l\<rparr>)))\<lparr>n_srvcfg := Some sc\<rparr>"
    using mutate_accepted [OF ok2 [unfolded b2]] b2 by (metis Inr_inject)
  have mat: "n_peer_mat b2" by (simp add: sc apply_peer_urls_def)
  have lp: "c_listen_peer (n_cfg (auto_sync x)) = c_listen_peer (n_cfg x)" for x by (simp add: auto_sync_def)
  show ?thesis
    using w b1 ok2 mat by (simp add: sc apply_peer_urls_def lp with_peer_listener_def mutate_def)
qed

definition demo_lis :: listener where
  "demo_lis = \<lparr>lis_addr = ''127.0.0.1:7001'', lis_tls = False\<rparr>"

definition demo_node :: node where
  "demo_node = new_impl demo_embed demo_base ''n1'' [] []"

theorem advertise_override_survives_witness:
  "n_peer_lis (fst (peer_listener demo_embed (Pair (Inl ''bind'')) (with_peer_listener demo_embed (Some demo_lis) [''https://x.io/''] demo_node) ())) = Some demo_lis
   \<and> parse_advertise_urls [''https://x.io/''] \<noteq> []"
proof -
  have 1: "\<not> n_peer_mat demo_node"
    "n_cause (with_peer_listener demo_embed (Some demo_lis) [''https://x.io/''] demo_node) = None"
    "n_cause (fst (peer_listener demo_embed (Pair (Inl ''bind'')) (with_peer_listener demo_embed (Some demo_lis) [''https://x.io/''] demo_node) ())) = None"
    "parse_advertise_urls [''https://x.io/''] \<noteq> []"
    by code_simp+
  from advertise_override_survives [OF 1(1,2) prod.collapse [symmetric] 1(3)] 1(4) show ?thesis by blast
qed

end
