(* ===== verification/Go_Json_Print.thy ===== *)
theory Go_Json_Print
  imports Go_Json
begin

text \<open>
  \<open>json.Marshal\<close> for the values the sources encode (strings, unsigned integers, booleans,
  slices, structs), the round trip with the parser of \<open>Go_Json\<close>, and the proof that the
  parser's fuel is never the reason it fails.
\<close>

section \<open>Printing\<close>

definition lower_hex :: "nat \<Rightarrow> char" where
  "lower_hex n = char_of (if n < 10 then 48 + n else 87 + n)"

text \<open>One ASCII byte of a string literal, with \<open>Marshal\<close>'s HTML escapes.\<close>

definition escape_ascii :: "char \<Rightarrow> string" where
  "escape_ascii c =
     (let b = byte c in
      if b = 0x22 \<or> b = 0x5C then [CHR 0x5C, c]
      else if b = 8 then [CHR 0x5C, CHR ''b'']
      else if b = 12 then [CHR 0x5C, CHR ''f'']
      else if b = 10 then [CHR 0x5C, CHR ''n'']
      else if b = 13 then [CHR 0x5C, CHR ''r'']
      else if b = 9 then [CHR 0x5C, CHR ''t'']
      else if b < 32 \<or> b \<in> set [0x3C, 0x3E, 0x26]
        then [CHR 0x5C, CHR ''u'', CHR ''0'', CHR ''0'', lower_hex (b div 16), lower_hex (b mod 16)]
      else [c])"

definition line_sep :: "string \<Rightarrow> bool" where
  "line_sep s \<longleftrightarrow> take 3 s = [CHR 0xE2, CHR 0x80, CHR 0xA8] \<or> take 3 s = [CHR 0xE2, CHR 0x80, CHR 0xA9]"

function json_escape :: "string \<Rightarrow> string" where
  "json_escape s =
     (case s of
        [] \<Rightarrow> []
      | c # t \<Rightarrow>
          if byte c < 0x80 then escape_ascii c @ json_escape t
          else
            (case rune_len s of
               None \<Rightarrow> CHR 0x5C # ''ufffd'' @ json_escape t
             | Some n \<Rightarrow>
                 (if line_sep s then CHR 0x5C # ''u202'' @ [lower_hex (byte (s ! 2) mod 16)] else take n s)
                 @ json_escape (drop n s)))"
  by pat_completeness auto
termination
  by (relation "measure length") (auto dest: rune_len_pos)

declare json_escape.simps [simp del]

definition json_quote :: "string \<Rightarrow> string" where
  "json_quote s = CHR 0x22 # json_escape s @ [CHR 0x22]"

fun json_print :: "json \<Rightarrow> string" where
  "json_print JNull = ''null''"
| "json_print (JBool b) = (if b then ''true'' else ''false'')"
| "json_print (JNum d) = d"
| "json_print (JStr s) = json_quote s"
| "json_print (JArr vs) = ''['' @ join_with '','' (map json_print vs) @ '']''"
| "json_print (JObj kvs) =
     ''{'' @ join_with '','' (map (\<lambda>(k, v). json_quote k @ '':'' @ json_print v) kvs) @ ''}''"

text \<open>What a string becomes through the wire: every byte that starts no valid rune is
  U+FFFD (\<open>strings.ToValidUTF8\<close>, byte by byte).\<close>

function to_valid :: "string \<Rightarrow> string" where
  "to_valid s =
     (case s of
        [] \<Rightarrow> []
      | c # t \<Rightarrow>
          (case rune_len s of
             None \<Rightarrow> rune_error @ to_valid t
           | Some n \<Rightarrow> take n s @ to_valid (drop n s)))"
  by pat_completeness auto
termination
  by (relation "measure length") (auto dest: rune_len_pos)

declare to_valid.simps [simp del]

section \<open>Round trip of strings\<close>

lemma rune_len_append: 
  assumes "rune_len s = Some n"
  shows "rune_len (take n s @ t) = Some n"
proof -
  obtain c r where s: "s = c # r" using assms by (cases s) (auto simp: rune_len_def)
  have n: "n = rune_need c" "n \<noteq> 0" "n \<le> length s"
    using assms by (auto simp: rune_len_def s Let_def split: if_splits)
  have nth: "(take n s @ t) ! i = s ! i" if "i < n" for i
    using that n(3) by (simp add: nth_append)
  obtain m where m: "n = Suc m" using n(2) by (cases n) auto
  have hd: "take n s @ t = c # take m r @ t" by (simp add: m s)
  have "length (take n s @ t) \<ge> n" using n(3) by simp
  then show ?thesis
    using assms n nth [of 1] nth [of 2] nth [of 3]
    unfolding rune_len_def [of "take n s @ t"] unfolding hd rune_len_def [of s] unfolding s
    by (auto simp: Let_def split: if_splits)
qed

lemma rune_len_ascii: "byte c < 128 \<Longrightarrow> rune_len (c # t) = Some 1"
  by (simp add: rune_len_def Let_def rune_need_def)

lemma rune_len_not_ascii: "rune_len (c # t) = Some n \<Longrightarrow> \<not> byte c < 128 \<Longrightarrow> 2 \<le> n"
  by (auto simp: rune_len_def Let_def rune_need_def split: if_splits)

lemma take_append_n: "n \<le> length s \<Longrightarrow> take n (take n s @ t) = take n s \<and> drop n (take n s @ t) = t"
  by simp

text \<open>Reading back one printed byte or rune.\<close>

lemma lower_hex_val: "n < 16 \<Longrightarrow> is_hex (lower_hex n) \<and> hex_val (lower_hex n) = n"
  by (auto simp: lower_hex_def is_hex_def hex_val_def byte_class_defs)

lemma hex4_two:
  assumes "b < 256"
  shows "hex4 (CHR ''0'' # CHR ''0'' # lower_hex (b div 16) # lower_hex (b mod 16) # t) = Some b"
  using assms lower_hex_val [of "b div 16"] lower_hex_val [of "b mod 16"]
  by (auto simp: hex4_def is_hex_def hex_val_def byte_class_defs)

lemma json_string_u:
  assumes "u_escape (t @ r) = Some (b, length t)"
  shows "json_string (CHR 0x5C # CHR ''u'' # t @ r) = map_option (\<lambda>(x, q). (b @ x, q)) (json_string r)"
  using assms by (simp add: json_string.simps [of "CHR 0x5C # CHR ''u'' # t @ r"] byte_def)

lemma json_string_ascii:
  assumes "byte c < 128"
  shows "json_string (escape_ascii c @ t) = map_option (\<lambda>(x, r). (c # x, r)) (json_string t)"
proof -
  let ?b = "byte c"
  have c: "c = char_of ?b" by (simp add: byte_def)
  consider "?b \<in> {0x22, 0x5C, 8, 12, 10, 13, 9}"
    | "?b \<notin> {0x22, 0x5C, 8, 12, 10, 13, 9}" "?b < 32 \<or> ?b \<in> {0x3C, 0x3E, 0x26}"
    | "?b \<notin> {0x22, 0x5C}" "\<not> ?b < 32" "?b \<notin> {0x3C, 0x3E, 0x26}" by auto
  then show ?thesis
  proof cases
    case 1
    then have "c \<in> {char_of (0x22::nat), char_of (0x5C::nat), char_of (8::nat), char_of (12::nat),
      char_of (10::nat), char_of (13::nat), char_of (9::nat)}" using c by force
    then have "c \<in> {CHR 0x22, CHR 0x5C, CHR 0x08, CHR 0x0C, CHR 0x0A, CHR 0x0D, CHR 0x09}"
      by (simp add: char_of_def bit_0)
    then have e: "\<exists>d. escape_ascii c = [CHR 0x5C, d] \<and> d \<noteq> CHR ''u'' \<and> short_escape d = Some c"
      by (elim insertE) (simp_all add: escape_ascii_def byte_def short_escape_def)
    then obtain d where d: "escape_ascii c = [CHR 0x5C, d]" "d \<noteq> CHR ''u''" "short_escape d = Some c"
      by blast
    then show ?thesis
      by (simp add: json_string.simps [of "CHR 0x5C # d # t"] byte_def)
  next
    case 2
    then have e: "escape_ascii c = CHR 0x5C # CHR ''u'' # [CHR ''0'', CHR ''0'', lower_hex (?b div 16), lower_hex (?b mod 16)]"
      by (auto simp: escape_ascii_def Let_def)
    have "u_escape ([CHR ''0'', CHR ''0'', lower_hex (?b div 16), lower_hex (?b mod 16)] @ t) = Some ([c], 4)"
      using assms by (simp add: u_escape_def hex4_two encode_rune_def byte_def)
    then show ?thesis
      using json_string_u [of "[CHR ''0'', CHR ''0'', lower_hex (?b div 16), lower_hex (?b mod 16)]" t "[c]"]
      by (simp add: e)
  next
    case 3
    then have "escape_ascii c = [c]" by (auto simp: escape_ascii_def Let_def)
    with 3 assms show ?thesis
      by (subst json_string.simps) (auto simp: rune_len_ascii byte_def)
  qed
qed

lemma line_sep_cases:
  assumes "line_sep s" "rune_len s = Some n"
  shows "n = 3" "take n s = encode_rune (0x2020 + byte (s ! 2) mod 16)" "byte (s ! 2) mod 16 \<in> {8, 9}"
proof -
  obtain t where s: "s = CHR 0xE2 # CHR 0x80 # CHR 0xA8 # t \<or> s = CHR 0xE2 # CHR 0x80 # CHR 0xA9 # t"
    using assms(1) unfolding line_sep_def by (cases s; cases "tl s"; cases "tl (tl s)") auto
  then show "n = 3" using assms(2)
    by (auto simp: rune_len_def Let_def rune_need_def in_range_def byte_def split: if_splits)
  then show "take n s = encode_rune (0x2020 + byte (s ! 2) mod 16)" "byte (s ! 2) mod 16 \<in> {8, 9}"
    using s by (auto simp: encode_rune_def byte_def char_of_def bit_0)
qed

lemma u_escape_line_sep:
  assumes "d = 8 \<or> d = 9"
  shows "u_escape (CHR ''2'' # CHR ''0'' # CHR ''2'' # lower_hex d # t) = Some (encode_rune (0x2020 + d), 4)"
proof -
  have l: "is_hex (lower_hex d)" "hex_val (lower_hex d) = d" using assms lower_hex_val [of d] by auto
  have h: "is_hex (CHR ''2'')" "is_hex (CHR ''0'')" "hex_val (CHR ''2'') = 2" "hex_val (CHR ''0'') = 0"
    by code_simp+
  have "d < 10" using assms by auto
  then show ?thesis by (simp add: u_escape_def hex4_def l h)
qed

lemma json_string_rune:
  assumes "rune_len (c # t) = Some n" "\<not> byte c < 128"
  shows "json_string (take n (c # t) @ r) = map_option (\<lambda>(x, q). (take n (c # t) @ x, q)) (json_string r)"
proof -
  let ?w = "take n (c # t) @ r"
  have n: "0 < n" "n \<le> length (c # t)" using rune_len_pos [OF assms(1)] by auto
  have w: "?w = c # take (n - 1) t @ r" using n(1) by (cases n) auto
  have r: "rune_len ?w = Some n" using assms(1) by (rule rune_len_append)
  have td: "take n ?w = take n (c # t)" "drop n ?w = r" using n(2) by auto
  have cc: "c \<noteq> CHR 0x22" "c \<noteq> CHR 0x5C" "\<not> byte c < 32" using assms(2) by (auto simp: byte_def)
  have "json_string ?w =
    (case rune_len ?w of None \<Rightarrow> map_option (\<lambda>(x, r). (rune_error @ x, r)) (json_string (tl ?w))
     | Some n \<Rightarrow> map_option (\<lambda>(x, r). (take n ?w @ x, r)) (json_string (drop n ?w)))"
    by (subst json_string.simps) (simp only: w list.case cc if_False list.sel)
  then show ?thesis by (simp only: r td option.case)
qed

lemma json_string_escape:
  "json_string (json_escape s @ CHR 0x22 # r) = Some (to_valid s, r)"
proof (induction s rule: json_escape.induct)
  case (1 s)
  show ?case
  proof (cases s)
    case Nil
    then show ?thesis by (simp add: json_escape.simps to_valid.simps json_string.simps)
  next
    case (Cons c t)
    show ?thesis
    proof (cases "byte c < 128")
      case True
      with 1(1) [OF Cons] have IH: "json_string (json_escape t @ CHR 0x22 # r) = Some (to_valid t, r)" by simp
      have "to_valid s = c # to_valid t"
        using True by (simp add: Cons to_valid.simps [of "c # t"] rune_len_ascii)
      moreover have "json_escape s = escape_ascii c @ json_escape t"
        using True by (simp add: Cons json_escape.simps [of "c # t"])
      ultimately show ?thesis using json_string_ascii [OF True, of "json_escape t @ CHR 0x22 # r"] IH by simp
    next
      case False
      show ?thesis
      proof (cases "rune_len s")
        case None
        with 1(2) [OF Cons] False have IH: "json_string (json_escape t @ CHR 0x22 # r) = Some (to_valid t, r)"
          by (simp add: Cons)
        have "u_escape (''fffd'' @ json_escape t @ CHR 0x22 # r) = Some (rune_error, 4)"
          by (simp add: u_escape_def hex4_def rune_error_def encode_rune_def is_hex_def hex_val_def byte_class_defs char_of_def bit_0)
        with json_string_u [of "''fffd''" "json_escape t @ CHR 0x22 # r" rune_error] IH None False
        show ?thesis by (simp add: Cons json_escape.simps [of "c # t"] to_valid.simps [of "c # t"])
      next
        case (Some n)
        note np = rune_len_pos [OF Some]
        from 1(3) [OF Cons _ Some] False
        have IH: "json_string (json_escape (drop n s) @ CHR 0x22 # r) = Some (to_valid (drop n s), r)" by simp
        have v: "to_valid s = take n s @ to_valid (drop n s)"
          using Some by (simp add: Cons to_valid.simps [of "c # t"])
        show ?thesis
        proof (cases "line_sep s")
          case True
          let ?d = "byte (s ! 2) mod 16"
          note ls = line_sep_cases [OF True Some]
          have e: "json_escape s = CHR 0x5C # CHR ''u'' # ''202'' @ [lower_hex ?d] @ json_escape (drop n s)"
            using Some False True by (simp add: Cons json_escape.simps [of "c # t"])
          have "u_escape ((''202'' @ [lower_hex ?d]) @ json_escape (drop n s) @ CHR 0x22 # r)
            = Some (encode_rune (0x2020 + ?d), 4)"
            using ls(3) by (simp add: u_escape_line_sep)
          from json_string_u [of "''202'' @ [lower_hex ?d]" "json_escape (drop n s) @ CHR 0x22 # r"
              "encode_rune (0x2020 + ?d)"] this
          show ?thesis using IH v ls(2) by (simp add: e)
        next
          case False2: False
          have e: "json_escape s = take n s @ json_escape (drop n s)"
            using Some False False2 by (simp add: Cons json_escape.simps [of "c # t"])
          with json_string_rune [OF Some [unfolded Cons] False, of "json_escape (drop n s) @ CHR 0x22 # r"]
          show ?thesis using IH v by (simp add: Cons)
        qed
      qed
    qed
  qed
qed

section \<open>Round trip of values\<close>

definition plain_num :: "string \<Rightarrow> bool" where
  "plain_num d \<longleftrightarrow> all_digits d \<and> (hd d = CHR ''0'' \<longrightarrow> d = ''0'')"

fun json_ok :: "json \<Rightarrow> bool" where
  "json_ok (JNum d) \<longleftrightarrow> plain_num d"
| "json_ok (JArr vs) \<longleftrightarrow> list_all json_ok vs"
| "json_ok (JObj kvs) \<longleftrightarrow> list_all (\<lambda>(k, v). json_ok v) kvs"
| "json_ok _ \<longleftrightarrow> True"

fun json_valid :: "json \<Rightarrow> json" where
  "json_valid (JStr s) = JStr (to_valid s)"
| "json_valid (JArr vs) = JArr (map json_valid vs)"
| "json_valid (JObj kvs) = JObj (map (\<lambda>(k, v). (to_valid k, json_valid v)) kvs)"
| "json_valid v = v"

text \<open>What may follow a value.\<close>

definition stops :: "string \<Rightarrow> bool" where
  "stops r \<longleftrightarrow> r = [] \<or> hd r \<in> {CHR '','', CHR ''}'', CHR '']''}"

lemma stops_simps [simp]: "stops []" "stops (CHR '','' # r)" "stops (CHR '']'' # r)" "stops (CHR ''}'' # r)"
  by (simp_all add: stops_def)

lemma json_number_plain:
  assumes "plain_num d" "stops r"
  shows "json_number (d @ r) = Some (d, r)"
proof -
  obtain c e where d: "d = c # e" using assms(1) by (cases d) (auto simp: plain_num_def all_digits_def)
  have dig: "\<forall>x\<in>set d. is_digit x" using assms(1) by (simp add: plain_num_def all_digits_def list_all_iff)
  have nd: "\<not> is_digit (CHR '','')" "\<not> is_digit (CHR ''}'')" "\<not> is_digit (CHR '']'')" "\<not> is_digit (CHR ''-'')"
    by (simp_all add: byte_class_defs)
  have m: "\<not> has_prefix (d @ r) ''-''" using dig nd by (auto simp: d has_prefix_def)
  have t: "takeWhile is_digit (d @ r) = d"
    using dig nd assms(2) by (cases r) (auto simp: stops_def takeWhile_append)
  have z: "(if has_prefix (d @ r) ''0'' then ''0'' else takeWhile is_digit (d @ r)) = d"
    using assms(1) t by (auto simp: d has_prefix_def plain_num_def)
  have f: "json_frac r = Some ([], r)" "json_exp r = Some ([], r)"
    using assms(2) by (cases r; auto simp: json_frac_def json_exp_def stops_def has_prefix_def)+
  have "json_number (d @ r) =
    (if d = [] then None
     else (case json_frac r of None \<Rightarrow> None
           | Some (f, u) \<Rightarrow> map_option (\<lambda>(e, q). (d @ f @ e, q)) (json_exp u)))"
    unfolding json_number_def Let_def using m z by (simp only: if_False list.size drop_0 append_Nil append_eq_conv_conj) simp
  then show ?thesis by (simp add: f) (simp add: d)
qed

definition no_ws :: "string \<Rightarrow> bool" where
  "no_ws s \<longleftrightarrow> s \<noteq> [] \<and> \<not> json_ws (hd s)"

lemma skip_ws_Cons: "skip_ws (c # s) = (if json_ws c then skip_ws s else c # s)"
  by (simp add: skip_ws_def)

lemma skip_ws_no: "no_ws s \<Longrightarrow> skip_ws (s @ r) = s @ r"
  by (cases s) (auto simp: no_ws_def skip_ws_def)

lemma skip_ws_char [simp]:
  "skip_ws (CHR '','' # r) = CHR '','' # r" "skip_ws (CHR '']'' # r) = CHR '']'' # r"
  "skip_ws (CHR ''}'' # r) = CHR ''}'' # r" "skip_ws (CHR '':'' # r) = CHR '':'' # r"
  "skip_ws (CHR 0x22 # r) = CHR 0x22 # r" "skip_ws [] = []" "skip_ws (CHR ''{'' # r) = CHR ''{'' # r"
  "skip_ws (CHR ''['' # r) = CHR ''['' # r"
  by (simp_all add: skip_ws_def json_ws_def byte_def)

definition value_heads :: "char set" where
  "value_heads = {CHR 0x22, CHR ''['', CHR ''{'', CHR ''t'', CHR ''f'', CHR ''n'', CHR '']'', CHR ''}''}"

lemma not_digit_heads: "c \<in> value_heads \<Longrightarrow> \<not> is_digit c"
  unfolding value_heads_def by (elim insertE emptyE) (simp_all add: byte_class_defs)

lemma digit_not_ws: "is_digit c \<Longrightarrow> \<not> json_ws c"
  by (auto simp: is_digit_def json_ws_def)

lemma plain_num_hd:
  assumes "plain_num d"
  obtains c e where "d = c # e" "\<not> json_ws c" "c \<notin> value_heads"
  using assms not_digit_heads digit_not_ws
  by (cases d) (auto simp: plain_num_def all_digits_def)

lemma json_print_hd:
  assumes "json_ok v"
  shows "no_ws (json_print v) \<and> hd (json_print v) \<noteq> CHR '']'' \<and> json_print v \<noteq> []"
proof (cases v)
  case (JNum d)
  with assms have "plain_num d" by simp
  then obtain c e where "d = c # e" "\<not> json_ws c" "c \<notin> value_heads" by (rule plain_num_hd)
  then show ?thesis using JNum by (auto simp: no_ws_def value_heads_def)
qed (auto simp: no_ws_def json_quote_def json_ws_def byte_def)

lemma json_value_str:
  "json_value (Suc n) (json_quote s @ r) = Some (JStr (to_valid s), r)"
  by (simp add: json_quote_def json_string_escape)

lemma json_value_num:
  assumes "plain_num d" "stops r"
  shows "json_value (Suc n) (d @ r) = Some (JNum d, r)"
proof -
  obtain c e where d: "d = c # e" "\<not> json_ws c" "c \<notin> value_heads" using assms(1) by (rule plain_num_hd)
  then have "skip_ws (d @ r) = c # e @ r" by (simp add: skip_ws_def)
  then show ?thesis
    using d(3) json_number_plain [OF assms]
    by (simp add: d(1) value_heads_def has_prefix_def)
qed

abbreviation reads :: "json \<Rightarrow> bool" where
  "reads v \<equiv> \<forall>n r. length (json_print v) \<le> n \<longrightarrow> stops r \<longrightarrow>
     json_value n (json_print v @ r) = Some (json_valid v, r)"

lemma json_elems_print:
  assumes "\<forall>v\<in>set vs. reads v" "vs \<noteq> []"
    and "length (join_with '','' (map json_print vs)) < n"
  shows "json_elems n (join_with '','' (map json_print vs) @ CHR '']'' # r) = Some (map json_valid vs, r)"
  using assms
proof (induction vs arbitrary: n)
  case (Cons v vs)
  obtain m where n: "n = Suc m" using Cons.prems(3) by (cases n) auto
  show ?case
  proof (cases vs)
    case Nil
    with Cons.prems show ?thesis by (simp add: n)
  next
    case (Cons w ws)
    with Cons.prems Cons.IH [of m] show ?thesis by (simp add: n)
  qed
qed simp

lemma json_members_print:
  assumes "\<forall>kv\<in>set kvs. reads (snd kv)" "kvs \<noteq> []"
    and "length (join_with '','' (map (\<lambda>(k, v). json_quote k @ '':'' @ json_print v) kvs)) < n"
  shows "json_members n (join_with '','' (map (\<lambda>(k, v). json_quote k @ '':'' @ json_print v) kvs) @ CHR ''}'' # r)
    = Some (map (\<lambda>(k, v). (to_valid k, json_valid v)) kvs, r)"
  using assms
proof (induction kvs arbitrary: n)
  case (Cons kv kvs)
  obtain k v where kv: "kv = (k, v)" by (cases kv)
  obtain m where n: "n = Suc m" using Cons.prems(3) by (cases n) auto
  show ?case
  proof (cases kvs)
    case Nil
    with Cons.prems show ?thesis by (simp add: n kv json_quote_def json_string_escape)
  next
    case (Cons w ws)
    with Cons.prems Cons.IH [of m] show ?thesis by (simp add: n kv json_quote_def json_string_escape)
  qed
qed simp

lemma json_value_print: "json_ok v \<Longrightarrow> reads v"
proof (induction v)
  case (JArr vs)
  then have all: "\<forall>v\<in>set vs. reads v" by (auto simp: list_all_iff)
  show ?case
  proof (intro allI impI)
    fix n r assume n: "length (json_print (JArr vs)) \<le> n" "stops r"
    then obtain m where m: "n = Suc m" by (cases n) auto
    show "json_value n (json_print (JArr vs) @ r) = Some (json_valid (JArr vs), r)"
    proof (cases vs)
      case Nil
      then show ?thesis by (simp add: m has_prefix_def)
    next
      case (Cons v ws)
      then have hv: "no_ws (json_print v)" "hd (json_print v) \<noteq> CHR '']''" "json_print v \<noteq> []"
        using JArr.prems json_print_hd [of v] by auto
      let ?j = "join_with '','' (map json_print vs)"
      have "no_ws ?j \<and> hd ?j \<noteq> CHR '']''"
        using hv by (cases ws) (auto simp: Cons no_ws_def)
      then have "\<not> has_prefix (skip_ws (?j @ CHR '']'' # r)) '']''"
        by (cases ?j) (auto simp: skip_ws_Cons no_ws_def has_prefix_def)
      moreover have "json_elems m (?j @ CHR '']'' # r) = Some (map json_valid vs, r)"
        using n(1) by (intro json_elems_print [OF all]) (auto simp: m Cons)
      ultimately show ?thesis by (simp add: m)
    qed
  qed
next
  case (JObj kvs)
  then have all: "\<forall>kv\<in>set kvs. reads (snd kv)" by (fastforce simp: list_all_iff)
  show ?case
  proof (intro allI impI)
    fix n r assume n: "length (json_print (JObj kvs)) \<le> n" "stops r"
    then obtain m where m: "n = Suc m" by (cases n) auto
    show "json_value n (json_print (JObj kvs) @ r) = Some (json_valid (JObj kvs), r)"
    proof (cases kvs)
      case Nil
      then show ?thesis by (simp add: m has_prefix_def)
    next
      case (Cons kv ws)
      let ?j = "join_with '','' (map (\<lambda>(k, v). json_quote k @ '':'' @ json_print v) kvs)"
      have "\<exists>t. ?j = CHR 0x22 # t"
        by (cases ws) (auto simp: Cons json_quote_def split: prod.splits)
      then have "\<not> has_prefix (skip_ws (?j @ CHR ''}'' # r)) ''}''"
        by (auto simp: has_prefix_def)
      moreover have "json_members m (?j @ CHR ''}'' # r) = Some (map (\<lambda>(k, v). (to_valid k, json_valid v)) kvs, r)"
        using n(1) by (intro json_members_print [OF all]) (auto simp: m Cons)
      ultimately show ?thesis by (simp add: m)
    qed
  qed
next
  case (JNum d)
  show ?case
  proof (intro allI impI)
    fix n r assume n: "length (json_print (JNum d)) \<le> n" "stops r"
    from JNum have d: "plain_num d" by simp
    then have "d \<noteq> []" by (auto simp: plain_num_def all_digits_def)
    with n(1) obtain m where "n = Suc m" by (cases n) auto
    then show "json_value n (json_print (JNum d) @ r) = Some (json_valid (JNum d), r)"
      using json_value_num [OF d n(2)] by simp
  qed
next
  case (JStr s)
  show ?case
  proof (intro allI impI)
    fix n r assume "length (json_print (JStr s)) \<le> n" "stops r"
    then obtain m where "n = Suc m" by (cases n) (auto simp: json_quote_def)
    then show "json_value n (json_print (JStr s) @ r) = Some (json_valid (JStr s), r)"
      using json_value_str by simp
  qed
next
  case JNull
  show ?case
  proof (intro allI impI)
    fix n r assume "length (json_print JNull) \<le> n" "stops r"
    then obtain m where "n = Suc m" by (cases n) auto
    then show "json_value n (json_print JNull @ r) = Some (json_valid JNull, r)"
      by (simp add: skip_ws_def json_ws_def byte_def has_prefix_def)
  qed
next
  case (JBool b)
  show ?case
  proof (intro allI impI)
    fix n r assume "length (json_print (JBool b)) \<le> n" "stops r"
    then obtain m where "n = Suc m" by (cases n) (auto split: if_splits)
    then show "json_value n (json_print (JBool b) @ r) = Some (json_valid (JBool b), r)"
      by (cases b) (simp_all add: skip_ws_def json_ws_def byte_def has_prefix_def)
  qed
qed

lemma json_parse_print: "json_ok v \<Longrightarrow> json_parse (json_print v) = Some (json_valid v)"
  using json_value_print [rule_format, of v "2 * length (json_print v) + 2" "[]"]
  by (simp add: json_parse_def del: json_value.simps)

lemma json_decode_print: "json_ok v \<Longrightarrow> stops r \<Longrightarrow> json_decode (json_print v @ r) = Some (json_valid v)"
  using json_value_print [rule_format, of v "2 * length (json_print v @ r) + 2" r]
  by (simp add: json_decode_def del: json_value.simps)

section \<open>The parser's fuel\<close>

lemma skip_ws_length: "length (skip_ws s) \<le> length s"
  by (simp add: skip_ws_def length_dropWhile_le)

lemma json_string_length: "json_string s = Some (x, r) \<Longrightarrow> length r < length s"
proof (induction "length s" arbitrary: s x rule: less_induct)
  case less
  have IH: "length r < length s" if "json_string u = Some (y, r)" "length u < length s" for u y
    using less.hyps [OF that(2) that(1)] that(2) by simp
  show ?case
  proof (cases s)
    case Nil
    with less.prems show ?thesis by (simp add: json_string.simps)
  next
    case (Cons c t)
    have IH2: "length r < length s" if "rune_len (c # t) = Some n" "json_string (drop n (c # t)) = Some (y, r)" for n y
      using rune_len_pos [OF that(1)] by (intro IH [OF that(2)]) (auto simp: Cons)
    from less.prems show ?thesis
      unfolding Cons
      by (subst (asm) json_string.simps)
        (auto simp: less_Suc_eq_le Cons split: if_splits option.splits list.splits
          dest!: IH2 dest: IH)
  qed
qed

lemma dropWhile_length_less: "d = takeWhile P s \<Longrightarrow> d \<noteq> [] \<Longrightarrow> length (dropWhile P s) < length s"
  by (metis length_append length_greater_0_conv less_add_same_cancel2 takeWhile_dropWhile_id)

lemma json_frac_length: "json_frac s = Some (f, r) \<Longrightarrow> length r \<le> length s"
  using length_dropWhile_le [of is_digit "tl s"] by (auto simp: json_frac_def Let_def split: if_splits)

lemma json_exp_length: "json_exp s = Some (f, r) \<Longrightarrow> length r \<le> length s"
  using length_dropWhile_le [of is_digit "tl s"] length_dropWhile_le [of is_digit "drop (Suc 0) (tl s)"]
    length_dropWhile_le [of is_digit "drop (length (take (Suc 0) (tl s))) (tl s)"]
  by (auto simp: json_exp_def Let_def split: if_splits)

lemma json_number_length:
  assumes "json_number s = Some (n, r)"
  shows "length r < length s"
proof -
  define m where "m = (if has_prefix s ''-'' then ''-'' else [])"
  define t where "t = drop (length m) s"
  define d where "d = (if has_prefix t ''0'' then ''0'' else takeWhile is_digit t)"
  have "d \<noteq> []" and "length r \<le> length (drop (length d) t)"
    using assms unfolding json_number_def Let_def m_def [symmetric] t_def [symmetric] d_def [symmetric]
    by (auto split: if_splits option.splits dest!: json_frac_length json_exp_length)
  moreover have "length d \<le> length t"
    using length_takeWhile_le [of is_digit t] by (cases t) (auto simp: d_def has_prefix_def simp del: takeWhile.simps)
  moreover have "length t \<le> length s" by (simp add: t_def)
  ultimately show ?thesis by (cases d) auto
qed

lemma json_consumes:
  "json_value n s = Some (v, r) \<Longrightarrow> length r < length s"
  "json_elems n s = Some (vs, r) \<Longrightarrow> length r < length s"
  "json_members n s = Some (kvs, r) \<Longrightarrow> length r < length s"
proof (induction n arbitrary: s v vs kvs r)
  case (Suc n)
  have tl: "length (tl (skip_ws t)) \<le> length t" for t using skip_ws_length [of t] by simp
  {
    case 1
    then show ?case using skip_ws_length [of s]
      by (fastforce split: list.splits if_splits dest: Suc.IH json_string_length json_number_length
            intro: le_less_trans [OF tl])
  next
    case 2
    then obtain v1 r1 c r' where v: "json_value n s = Some (v1, r1)" "skip_ws r1 = c # r'"
      and r: "r = r' \<or> (\<exists>ws. json_elems n r' = Some (ws, r))"
      by (auto split: option.splits list.splits if_splits)
    have "length r' < length s" using Suc.IH(1) [OF v(1)] skip_ws_length [of r1] v(2) by simp
    then show ?case using r by (auto dest: Suc.IH(2))
  next
    case 3
    then obtain c t k r1 d r' w q e q' where v: "skip_ws s = c # t" "json_string t = Some (k, r1)"
        "skip_ws r1 = d # r'" "json_value n r' = Some (w, q)" "skip_ws q = e # q'"
      and r: "r = q' \<or> (\<exists>ws. json_members n q' = Some (ws, r))"
      by (auto split: option.splits list.splits if_splits)
    have "length q' < length s"
      using v skip_ws_length [of s] json_string_length [OF v(2)] skip_ws_length [of r1]
        Suc.IH(1) [OF v(4)] skip_ws_length [of q] by simp
    then show ?case using r by (auto dest: Suc.IH(3))
  }
qed simp_all

lemma json_fuel_step:
  "2 * length s < n \<Longrightarrow> n \<le> m \<Longrightarrow> json_value m s = json_value n s"
  "2 * length s + 1 < n \<Longrightarrow> n \<le> m \<Longrightarrow> json_elems m s = json_elems n s"
  "2 * length s < n \<Longrightarrow> n \<le> m \<Longrightarrow> json_members m s = json_members n s"
proof (induction n arbitrary: s m)
  case (Suc n)
  {
    case 1
    then obtain m' where m: "m = Suc m'" "n \<le> m'" by (cases m) auto
    show ?case
    proof (cases "skip_ws s")
      case (Cons c t)
      have "2 * length t + 1 < n" using skip_ws_length [of s] Cons 1 by simp
      with Suc.IH(2,3) [of t m'] m show ?thesis by (simp add: Cons)
    qed (simp add: m)
  next
    case 2
    then obtain m' where m: "m = Suc m'" "n \<le> m'" by (cases m) auto
    have v: "json_value m' s = json_value n s" using Suc.IH(1) [of s m'] 2 m by simp
    have e: "json_elems m' r' = json_elems n r'"
      if "json_value n s = Some (x, r)" "skip_ws r = c # r'" for x r c r'
      using json_consumes(1) [OF that(1)] skip_ws_length [of r] that(2) 2 m by (intro Suc.IH(2)) auto
    show ?case by (auto simp: m v e split: option.splits list.splits)
  next
    case 3
    then obtain m' where m: "m = Suc m'" "n \<le> m'" by (cases m) auto
    have v: "json_value m' r' = json_value n r'"
      if "skip_ws s = c # t" "json_string t = Some (k, r)" "skip_ws r = d # r'" for c t k r d r'
      using that json_string_length [OF that(2)] skip_ws_length [of s] skip_ws_length [of r] 3 m
      by (intro Suc.IH(1)) auto
    have e: "json_members m' q' = json_members n q'"
      if "skip_ws s = c # t" "json_string t = Some (k, r)" "skip_ws r = d # r'"
        "json_value n r' = Some (x, q)" "skip_ws q = f # q'" for c t k r d r' x q f q'
      using that json_string_length [OF that(2)] skip_ws_length [of s] skip_ws_length [of r]
        json_consumes(1) [OF that(4)] skip_ws_length [of q] 3 m
      by (intro Suc.IH(3)) auto
    show ?case
      by (auto simp: m v e split: option.splits list.splits)
  }
qed simp_all

text \<open>More fuel than \<open>json_parse\<close> gives changes nothing: it fails only on a syntax error.\<close>

lemma json_fuel_enough:
  "2 * length s + 2 \<le> m \<Longrightarrow> json_value m s = json_value (2 * length s + 2) s"
  by (intro json_fuel_step(1)) auto

end
