(* ===== verification/Go_Sha256.thy ===== *)
theory Go_Sha256
  imports Go_Strings
begin

text \<open>
  \<open>crypto/sha256.Sum256\<close> (FIPS 180-4), which the sources use for token comparison, opaque
  keys and the integrity hash of a snapshot.
\<close>

unbundle bit_operations_syntax

text \<open>The round constants and the initial state, in decimal.\<close>

definition sha_k :: "32 word list" where
  "sha_k =
    [1116352408, 1899447441, 3049323471, 3921009573, 961987163, 1508970993, 2453635748, 2870763221,
     3624381080, 310598401, 607225278, 1426881987, 1925078388, 2162078206, 2614888103, 3248222580,
     3835390401, 4022224774, 264347078, 604807628, 770255983, 1249150122, 1555081692, 1996064986,
     2554220882, 2821834349, 2952996808, 3210313671, 3336571891, 3584528711, 113926993, 338241895,
     666307205, 773529912, 1294757372, 1396182291, 1695183700, 1986661051, 2177026350, 2456956037,
     2730485921, 2820302411, 3259730800, 3345764771, 3516065817, 3600352804, 4094571909, 275423344,
     430227734, 506948616, 659060556, 883997877, 958139571, 1322822218, 1537002063, 1747873779,
     1955562222, 2024104815, 2227730452, 2361852424, 2428436474, 2756734187, 3204031479, 3329325298]"

type_synonym sha_state = "32 word \<times> 32 word \<times> 32 word \<times> 32 word \<times> 32 word \<times> 32 word \<times> 32 word \<times> 32 word"

definition sha_init :: sha_state where
  "sha_init = (1779033703, 3144134277, 1013904242, 2773480762, 1359893119, 2600822924, 528734635, 1541459225)"

definition rotr :: "nat \<Rightarrow> 32 word \<Rightarrow> 32 word" where
  "rotr n x = drop_bit n x OR push_bit (32 - n) x"

definition be32 :: "string \<Rightarrow> 32 word" where
  "be32 s = foldl (\<lambda>a c. push_bit 8 a OR of_char c) 0 s"

definition bytes32 :: "32 word \<Rightarrow> string" where
  "bytes32 w = map (\<lambda>i. char_of (uint (drop_bit i w))) [24, 16, 8, 0]"

text \<open>The message schedule, newest word first.\<close>

fun sha_extend :: "nat \<Rightarrow> 32 word list \<Rightarrow> 32 word list" where
  "sha_extend 0 ws = ws"
| "sha_extend (Suc n) ws =
     (let x = ws ! 14; y = ws ! 1;
          s0 = rotr 7 x XOR rotr 18 x XOR drop_bit 3 x;
          s1 = rotr 17 y XOR rotr 19 y XOR drop_bit 10 y
      in sha_extend n ((s1 + ws ! 6 + s0 + ws ! 15) # ws))"

fun sha_round :: "sha_state \<Rightarrow> 32 word \<times> 32 word \<Rightarrow> sha_state" where
  "sha_round (a, b, c, d, e, f, g, h) (k, w) =
     (let s1 = rotr 6 e XOR rotr 11 e XOR rotr 25 e;
          ch = (e AND f) XOR (NOT e AND g);
          t1 = h + s1 + ch + k + w;
          s0 = rotr 2 a XOR rotr 13 a XOR rotr 22 a;
          maj = (a AND b) XOR (a AND c) XOR (b AND c);
          t2 = s0 + maj
      in (t1 + t2, a, b, c, d + t1, e, f, g))"

fun sha_add :: "sha_state \<Rightarrow> sha_state \<Rightarrow> sha_state" where
  "sha_add (a, b, c, d, e, f, g, h) (a', b', c', d', e', f', g', h') =
     (a + a', b + b', c + c', d + d', e + e', f + f', g + g', h + h')"

fun chunks :: "nat \<Rightarrow> nat \<Rightarrow> string \<Rightarrow> string list" where
  "chunks 0 k s = []"
| "chunks (Suc n) k s = take k s # chunks n k (drop k s)"

definition sha_block :: "sha_state \<Rightarrow> string \<Rightarrow> sha_state" where
  "sha_block st blk =
     sha_add st (foldl sha_round st (zip sha_k (rev (sha_extend 48 (rev (map be32 (chunks 16 4 blk)))))))"

definition sha_pad :: "string \<Rightarrow> string" where
  "sha_pad s =
     s @ char_of (128 :: int) # replicate ((119 - length s mod 64) mod 64) (char_of (0 :: int))
       @ map (\<lambda>i. char_of (drop_bit i (8 * int (length s)))) [56, 48, 40, 32, 24, 16, 8, 0]"

definition sha256 :: "string \<Rightarrow> string" where
  "sha256 s =
     (let p = sha_pad s
      in case foldl sha_block sha_init (chunks (length p div 64) 64 p) of
           (a, b, c, d, e, f, g, h) \<Rightarrow> concat (map bytes32 [a, b, c, d, e, f, g, h]))"

lemma length_sha256 [simp]: "length (sha256 s) = 32"
  by (simp add: sha256_def bytes32_def Let_def split: prod.splits)

section \<open>encoding/binary, big endian\<close>

lemma of_char_word: "(of_char (char_of (uint x)) :: 32 word) = take_bit 8 (x :: 32 word)"
proof -
  have "(of_char (char_of (uint x)) :: 32 word) = of_int (of_char (char_of (uint x)))"
    by (rule of_int_of_char [symmetric])
  also have "\<dots> = of_int (take_bit 8 (uint x))" by (simp add: take_bit_eq_mod)
  also have "\<dots> = take_bit 8 x" by (simp add: take_bit_word_eq_self unsigned_take_bit_eq flip: unsigned_take_bit_eq)
  finally show ?thesis .
qed

lemma be32_bytes32 [simp]: "be32 (bytes32 w) = w"
proof (rule bit_word_eqI)
  fix n assume "n < LENGTH(32)"
  then show "bit (be32 (bytes32 w)) n \<longleftrightarrow> bit w n"
    by (cases "n < 8"; cases "n < 16"; cases "n < 24")
      (auto simp: be32_def bytes32_def of_char_word bit_simps)
qed

end
