(* ===== verification/Go_Http.thy ===== *)
theory Go_Http
  imports Go_Url
begin

text \<open>
  What the sources use of \<open>net/http\<close> and of the form part of \<open>net/url\<close>: requests and
  responses, \<open>url.Values\<close> with one value per key, \<open>ParseQuery\<close>, \<open>Request.FormValue\<close>,
  \<open>http.Error\<close> and \<open>URL.JoinPath\<close>.  Multipart bodies are not modelled (no source sends
  one), nor is the limit on the number of query parameters.
\<close>

section \<open>Messages\<close>

text \<open>Only the headers that the sources read are kept.\<close>

record request =
  req_method :: string
  req_path :: string
  req_query :: string
  req_urlencoded :: bool
  req_body :: string
  req_token :: string

text \<open>\<open>resp_broken\<close>: the body ends early, so that the reader sees an error instead of EOF.\<close>

record response =
  resp_status :: nat
  resp_body :: string
  resp_broken :: bool

definition reply :: "nat \<Rightarrow> string \<Rightarrow> response" where
  "reply st b = \<lparr>resp_status = st, resp_body = b, resp_broken = False\<rparr>"

definition http_error :: "nat \<Rightarrow> string \<Rightarrow> response" where
  "http_error st msg = reply st (msg @ [CHR 0x0A])"

section \<open>Query strings\<close>

definition query_plain :: "char \<Rightarrow> bool" where
  "query_plain c \<longleftrightarrow> is_alnum c \<or> byte c \<in> set [45, 95, 46, 126]"

fun query_escape :: "string \<Rightarrow> string" where
  "query_escape [] = []"
| "query_escape (c # s) =
     (if query_plain c then c # query_escape s
      else if c = CHR '' '' then CHR ''+'' # query_escape s
      else CHR ''%'' # upper_hex (byte c div 16) # upper_hex (byte c mod 16) # query_escape s)"

fun query_unescape :: "string \<Rightarrow> string option" where
  "query_unescape [] = Some []"
| "query_unescape (c # s) =
     (if c = CHR ''%'' then
        (case s of
           h # l # t \<Rightarrow>
             if is_hex h \<and> is_hex l
             then map_option (\<lambda>r. char_of (16 * hex_val h + hex_val l) # r) (query_unescape t)
             else None
         | _ \<Rightarrow> None)
      else map_option (\<lambda>r. (if c = CHR ''+'' then CHR '' '' else c) # r) (query_unescape s))"

text \<open>\<open>Values.Encode\<close> for the values the sources build: pairs with keys in sorted order.\<close>

definition values_encode :: "(string \<times> string) list \<Rightarrow> string" where
  "values_encode kvs =
     join_with ''&'' (map (\<lambda>(k, v). query_escape k @ ''='' @ query_escape v) kvs)"

text \<open>\<open>ParseQuery\<close>: a setting that does not parse is left out, the others are kept.\<close>

definition parse_setting :: "string \<Rightarrow> (string \<times> string) option" where
  "parse_setting kv =
     (if CHR '';'' \<in> set kv \<or> kv = [] then None
      else
        (case cut (CHR ''='') kv of (k, v) \<Rightarrow>
           (case (query_unescape k, query_unescape v) of
              (Some k', Some v') \<Rightarrow> Some (k', v')
            | _ \<Rightarrow> None)))"

definition parse_query :: "string \<Rightarrow> (string \<times> string) list" where
  "parse_query q = List.map_filter parse_setting (split_on (CHR ''&'') q)"

definition max_form_size :: int where
  "max_form_size = 10485760"

text \<open>\<open>Request.Form\<close>: the body of a POST, PUT or PATCH first, then the query string.\<close>

definition request_form :: "request \<Rightarrow> (string \<times> string) list" where
  "request_form r =
     (if req_method r \<in> {''POST'', ''PUT'', ''PATCH''} \<and> req_urlencoded r \<and> int (length (req_body r)) \<le> max_form_size
      then parse_query (req_body r) else [])
     @ parse_query (req_query r)"

definition form_value :: "request \<Rightarrow> string \<Rightarrow> string" where
  "form_value r k = (case map_of (request_form r) k of Some v \<Rightarrow> v | None \<Rightarrow> [])"

lemma upper_hex_val: "n < 16 \<Longrightarrow> is_hex (upper_hex n) \<and> hex_val (upper_hex n) = n"
  by (auto simp: upper_hex_def is_hex_def hex_val_def byte_class_defs)

lemma byte_less [simp]: "byte c < 256"
  by (simp add: byte_def)

lemma char_of_byte [simp]: "char_of (byte c) = c"
  by (simp add: byte_def)

lemma query_plain_not: "query_plain c \<Longrightarrow> c \<notin> {CHR ''%'', CHR ''+'', CHR ''&'', CHR ''='', CHR '';''}"
  by (auto simp: query_plain_def byte_class_defs)

lemma query_unescape_escape [simp]: "query_unescape (query_escape s) = Some s"
proof (induction s)
  case (Cons c s)
  have h: "is_hex (upper_hex (byte c div 16))" "hex_val (upper_hex (byte c div 16)) = byte c div 16"
    "is_hex (upper_hex (byte c mod 16))" "hex_val (upper_hex (byte c mod 16)) = byte c mod 16"
    using upper_hex_val [of "byte c div 16"] upper_hex_val [of "byte c mod 16"]
    by (auto simp: less_mult_imp_div_less)
  show ?case using Cons query_plain_not [of c] by (auto simp: h)
qed simp

lemma hex_not: "is_hex c \<Longrightarrow> c \<notin> {CHR ''%'', CHR ''+'', CHR ''&'', CHR ''='', CHR '';''}"
  by (auto simp: is_hex_def byte_class_defs)

lemma query_escape_chars: "set (query_escape s) \<inter> {CHR ''&'', CHR ''='', CHR '';''} = {}"
proof (induction s)
  case (Cons c s)
  have "is_hex (upper_hex (byte c div 16))" "is_hex (upper_hex (byte c mod 16))"
    using upper_hex_val [of "byte c div 16"] upper_hex_val [of "byte c mod 16"]
    by (auto simp: less_mult_imp_div_less)
  with Cons query_plain_not [of c] show ?case
    by (auto dest: hex_not simp: hex_not)
qed simp

lemma parse_setting_encode:
  "k \<noteq> [] \<Longrightarrow> parse_setting (query_escape k @ ''='' @ query_escape v) = Some (k, v)"
  using query_escape_chars [of k] query_escape_chars [of v]
  by (auto simp: parse_setting_def cut_append)

lemma parse_query_encode:
  assumes "\<forall>kv\<in>set kvs. fst kv \<noteq> []"
  shows "parse_query (values_encode kvs) = kvs"
proof (cases "kvs = []")
  case True
  then show ?thesis by (simp add: parse_query_def values_encode_def parse_setting_def map_filter_simps)
next
  case False
  have "split_on (CHR ''&'') (values_encode kvs) = map (\<lambda>(k, v). query_escape k @ ''='' @ query_escape v) kvs"
    unfolding values_encode_def using query_escape_chars False by (intro split_join) fastforce+
  moreover have "List.map_filter parse_setting (map (\<lambda>(k, v). query_escape k @ ''='' @ query_escape v) kvs) = kvs"
    using assms by (induction kvs) (auto simp: map_filter_simps parse_setting_encode [simplified])
  ultimately show ?thesis by (simp add: parse_query_def)
qed

section \<open>URL.JoinPath\<close>

text \<open>\<open>path.Clean\<close> of a rooted path, by its elements: empty and dot elements go, a dot-dot
  takes the one before it along (none above the root).\<close>

fun clean_elems :: "string list \<Rightarrow> string list \<Rightarrow> string list" where
  "clean_elems out [] = out"
| "clean_elems out (e # es) =
     (if e = [] \<or> e = ''.'' then clean_elems out es
      else if e = ''..'' then clean_elems (butlast out) es
      else clean_elems (out @ [e]) es)"

definition clean_rooted :: "string \<Rightarrow> string" where
  "clean_rooted p = ''/'' @ join_with ''/'' (clean_elems [] (split_on (CHR ''/'') p))"

text \<open>\<open>u.JoinPath(elem)\<close> for an element that does not end in a slash; \<open>setPath\<close> failing
  leaves the old path.\<close>

definition join_path :: "url \<Rightarrow> string \<Rightarrow> url" where
  "join_path u elem =
     (let e0 = escaped_path u;
          p = (if has_prefix e0 ''/'' then clean_rooted (e0 @ ''/'' @ elem)
               else tl (clean_rooted (''/'' @ e0 @ ''/'' @ elem)))
      in case set_path p u of Some v \<Rightarrow> v | None \<Rightarrow> u)"

section \<open>A plain URL with a path and a query\<close>

definition query_char :: "char \<Rightarrow> bool" where
  "query_char c \<longleftrightarrow> query_plain c \<or> c \<in> {CHR ''%'', CHR ''+'', CHR ''='', CHR ''&'', CHR ''/''}"

lemma query_char_not:
  "query_char c \<Longrightarrow> c \<noteq> CHR ''#'' \<and> c \<noteq> CHR ''?'' \<and> \<not> byte c < 32 \<and> byte c \<noteq> 127"
  by (auto simp: query_char_def query_plain_def byte_class_defs)

lemma hex_query_char: "is_hex c \<Longrightarrow> query_char c"
  by (auto simp: query_char_def query_plain_def is_hex_def byte_class_defs)

lemma query_escape_char: "list_all query_char (query_escape s)"
proof (induction s)
  case (Cons c s)
  have "is_hex (upper_hex (byte c div 16))" "is_hex (upper_hex (byte c mod 16))"
    using upper_hex_val [of "byte c div 16"] upper_hex_val [of "byte c mod 16"]
    by (auto simp: less_mult_imp_div_less)
  with Cons show ?case by (auto intro: hex_query_char) (auto simp: query_char_def)
qed simp

lemma join_with_all: "list_all P sep \<Longrightarrow> \<forall>x\<in>set xs. list_all P x \<Longrightarrow> list_all P (join_with sep xs)"
  by (induction sep xs rule: join_with.induct) auto

lemma values_encode_char: "list_all query_char (values_encode kvs)"
  unfolding values_encode_def
  by (rule join_with_all) (auto simp: query_escape_char, auto simp: query_char_def)

lemma parse_rest_path:
  assumes "scheme u \<noteq> []" "CHR ''/'' \<notin> set a" "parse_authority a = Some (us, hh)"
  shows "parse_rest u (''//'' @ a @ CHR ''/'' # p) = set_path (CHR ''/'' # p) (u\<lparr>user := us, host := hh\<rparr>)"
proof -
  let ?r = "''//'' @ a @ CHR ''/'' # p"
  have pre: "has_prefix ?r ''/''" "has_prefix ?r ''//''" "drop 2 ?r = a @ CHR ''/'' # p"
    by (simp_all add: has_prefix_def)
  have "\<forall>x\<in>set a. x \<noteq> CHR ''/''" using assms(2) by auto
  from takeWhile_dropWhile_hit [OF this, of "CHR ''/''" p]
  have tw: "takeWhile (\<lambda>c. c \<noteq> CHR ''/'') (a @ CHR ''/'' # p) = a"
    "dropWhile (\<lambda>c. c \<noteq> CHR ''/'') (a @ CHR ''/'' # p) = CHR ''/'' # p" by auto
  show ?thesis
    unfolding parse_rest_def Let_def pre(3) tw using pre(1,2) assms(1,3) by simp
qed

lemma split_query_some:
  assumes "CHR ''?'' \<notin> set r" "q \<noteq> []" "CHR ''?'' \<notin> set q"
  shows "split_query (r @ CHR ''?'' # q) = (r, False, q)"
proof -
  have "\<not> has_suffix (r @ CHR ''?'' # q) ''?''"
    using assms(2,3) by (cases q rule: rev_cases) (auto simp: has_suffix_def has_prefix_def)
  then show ?thesis using cut_append [OF assms(1)] by (simp add: split_query_def)
qed

definition with_query :: "string \<Rightarrow> string" where
  "with_query q = (if q = [] then [] else CHR ''?'' # q)"

lemma url_parse_path_query:
  assumes sch: "sch = ''http'' \<or> sch = ''https''" and h: "plain_host h" and t: "plain_tail t"
    and p: "list_all url_char p" "escape EncPath (CHR ''/'' # p) = CHR ''/'' # p"
      "unescape EncPath (CHR ''/'' # p) = Some (CHR ''/'' # p)"
    and q: "list_all query_char q"
  shows "url_parse (sch @ ''://'' @ h @ t @ CHR ''/'' # p @ with_query q) =
    Some (url0\<lparr>scheme := sch, host := h @ t, path := CHR ''/'' # p, raw_query := q\<rparr>)"
proof -
  let ?a = "''//'' @ (h @ t) @ CHR ''/'' # p"
  let ?s = "sch @ ''://'' @ h @ t @ CHR ''/'' # p @ with_query q"
  have s1: "to_lower sch = sch" using sch by (auto simp: to_lower_def lower_char_def byte_class_defs)
  have ht: "list_all url_char (h @ t)"
    using h plain_tail_chars [OF t] by (auto simp: plain_host_def list_all_iff url_char_def)
  have ok: "c \<noteq> CHR ''#'' \<and> \<not> byte c < 32 \<and> byte c \<noteq> 127" if "c \<in> set ?s" for c
  proof -
    have "list_all url_char ''http''" "list_all url_char ''https''" by code_simp+
    then have s: "list_all url_char sch" using sch by auto
    have sep: "url_char (CHR '':'')" "url_char (CHR ''/'')" by (simp_all add: url_char_def)
    have "c \<in> set sch \<or> c \<in> set (h @ t) \<or> c \<in> set p \<or> c \<in> set q \<or> c = CHR '':'' \<or> c = CHR ''/'' \<or> c = CHR ''?''"
      using that by (auto simp: with_query_def split: if_splits)
    then have "url_char c \<or> query_char c \<or> c = CHR ''?''"
      using s ht p(1) q sep unfolding list_all_iff by blast
    then show ?thesis
    proof (elim disjE)
      assume "url_char c"
      then show ?thesis by (intro conjI url_char_not)
    next
      assume "query_char c"
      then show ?thesis using query_char_not by blast
    next
      assume "c = CHR ''?''"
      then show ?thesis by (simp add: byte_def)
    qed
  qed
  then have c: "cut (CHR ''#'') ?s = (?s, [])" by (intro cut_none) blast
  have nctl: "\<not> has_ctl ?s" using ok unfolding has_ctl_def list_ex_iff by blast
  have nstar: "?s \<noteq> ''*''" using sch by auto
  have nq: "CHR ''?'' \<notin> set ?a"
    using ht p(1) by (auto simp: list_all_iff dest: url_char_not)
  have sq: "split_query (?a @ with_query q) = (?a, False, q)"
    using split_query_none [OF nq] split_query_some [OF nq, of q] q
    by (auto simp: with_query_def list_all_iff dest: query_char_not)
  have noslash: "CHR ''/'' \<notin> set (h @ t)"
    using plain_chars [OF h t] by (rule list_all_not_in) (auto dest: plain_host_char_not)
  have "CHR ''@'' \<notin> set (h @ t)" using ht by (rule list_all_not_in) (auto dest: url_char_not)
  then have au: "parse_authority (h @ t) = Some (None, h @ t)"
    by (simp add: parse_authority_def cut_last_none plain_parse_host [OF h t] del: set_append)
  have ne: "scheme (url0\<lparr>scheme := sch, raw_query := q\<rparr>) \<noteq> []" using sch by auto
  have "parse_rest (url0\<lparr>scheme := sch, raw_query := q\<rparr>) ?a =
    Some (url0\<lparr>scheme := sch, host := h @ t, path := CHR ''/'' # p, raw_query := q\<rparr>)"
    unfolding parse_rest_path [OF ne noslash au] by (simp add: set_path_def p(2,3) url0_def del: unescape.simps escape.simps)
  moreover have "url_parse0 ?s =
      parse_rest (url0\<lparr>scheme := sch, force_query := False, raw_query := q\<rparr>) ?a"
    unfolding url_parse0_def using nctl nstar get_scheme_http [OF sch, of "h @ t @ CHR ''/'' # p @ with_query q"] sq s1 by simp
  ultimately show ?thesis unfolding url_parse_def c by (simp add: url0_def)
qed

end
