(* ===== verification/Etcd_Client.thy ===== *)
theory Etcd_Client
  imports Peer_List Go_Json_Print Go_Sha256 Go_Http
begin

text \<open>
  The interface of the etcd client (\<open>clientv3\<close>) that the sources drive, as a record of
  operations on an arbitrary cluster state, and the effect log of a run.  etcd itself is
  outside the repository: nothing is assumed here of what its operations do.
\<close>

section \<open>Members and errors\<close>

text \<open>\<open>etcdserverpb.Member\<close>.\<close>

record etcd_member =
  em_id :: u64
  em_name :: string
  em_peer_urls :: "string list"
  em_client_urls :: "string list"
  em_learner :: bool

text \<open>The \<open>rpctypes\<close> errors that the sources tell apart with \<open>errors.Is\<close>.\<close>

datatype etcd_err = ErrPeerURLExist | ErrTooManyLearners | ErrPermissionDenied | ErrUserEmpty
  | ErrMemberNotFound | ErrMemberNotLearner | ErrOther string

text \<open>An added member comes with the cluster ID and the membership after the add; a
  snapshot is the bytes its reader yields and whether it ends in an error.\<close>

record 's etcd =
  ec_add_learner :: "string list \<Rightarrow> 's \<Rightarrow> (etcd_err + u64 \<times> u64 \<times> etcd_member list) \<times> 's"
  ec_member_list :: "'s \<Rightarrow> (etcd_err + u64 \<times> etcd_member list) \<times> 's"
  ec_promote :: "u64 \<Rightarrow> 's \<Rightarrow> etcd_err option \<times> 's"
  ec_remove :: "u64 \<Rightarrow> 's \<Rightarrow> etcd_err option \<times> 's"
  ec_snapshot :: "'s \<Rightarrow> (etcd_err + string \<times> bool) \<times> 's"
  ec_err_text :: "etcd_err \<Rightarrow> string"

section \<open>Runs with an effect log\<close>

datatype effect = EAcquire | ERelease | EAdd "string list" | EList | EPromote u64 | ERemove u64 | ESnapshot

record 's world =
  cluster :: 's
  effects :: "effect list"

definition call :: "effect \<Rightarrow> ('s \<Rightarrow> 'r \<times> 's) \<Rightarrow> 's world \<Rightarrow> 'r \<times> 's world" where
  "call e f w = (case f (cluster w) of (r, s) \<Rightarrow> (r, w\<lparr>cluster := s, effects := effects w @ [e]\<rparr>))"

lemma call_effects [simp]: "effects (snd (call e f w)) = effects w @ [e]"
  by (simp add: call_def split: prod.splits)

lemma call_split:
  "P (call e f w) \<longleftrightarrow>
     (\<forall>r s. f (cluster w) = (r, s) \<longrightarrow> P (r, w\<lparr>cluster := s, effects := effects w @ [e]\<rparr>))"
  by (simp add: call_def split: prod.splits)

end
