(* ===== verification/Demo_Cluster.thy ===== *)
theory Demo_Cluster
  imports Etcd_Client
begin

text \<open>
  A small cluster on which the theorems that quantify over etcd clients are run.  It behaves
  as the etcd API documents: a peer URL is held by one member only, a started learner can be
  promoted once, an unknown member is reported as such.  No definition of the model uses it.
\<close>

definition demo_find :: "u64 \<Rightarrow> etcd_member list \<Rightarrow> etcd_member option" where
  "demo_find mid ms = find (\<lambda>m. em_id m = mid) ms"

definition demo_etcd :: "etcd_member list etcd" where
  "demo_etcd = \<lparr>
     ec_add_learner = (\<lambda>urls ms.
       if list_ex (\<lambda>m. list_ex (\<lambda>u. u \<in> set urls) (em_peer_urls m)) ms then (Inl ErrPeerURLExist, ms)
       else
         (let m = \<lparr>em_id = of_nat (length ms) + 1, em_name = [], em_peer_urls = urls,
                   em_client_urls = [], em_learner = True\<rparr>
          in (Inr (em_id m, 7, ms @ [m]), ms @ [m]))),
     ec_member_list = (\<lambda>ms. (Inr (7, ms), ms)),
     ec_promote = (\<lambda>mid ms.
       case demo_find mid ms of
         None \<Rightarrow> (Some ErrMemberNotFound, ms)
       | Some m \<Rightarrow>
           if \<not> em_learner m then (Some ErrMemberNotLearner, ms)
           else (None, map (\<lambda>x. if em_id x = mid then x\<lparr>em_learner := False\<rparr> else x) ms)),
     ec_remove = (\<lambda>mid ms.
       case demo_find mid ms of
         None \<Rightarrow> (Some ErrMemberNotFound, ms)
       | Some m \<Rightarrow> (None, filter (\<lambda>x. em_id x \<noteq> mid) ms)),
     ec_snapshot = (\<lambda>ms. (Inr (''SNAP'', False), ms)),
     ec_err_text = (\<lambda>e. ''etcdserver: error'')\<rparr>"

definition demo_seed :: etcd_member where
  "demo_seed = \<lparr>em_id = 1, em_name = ''a'', em_peer_urls = [''http://a:2380''], em_client_urls = [],
                em_learner = False\<rparr>"

definition demo_stale :: etcd_member where
  "demo_stale = \<lparr>em_id = 2, em_name = [], em_peer_urls = [''http://b:2380''], em_client_urls = [],
                em_learner = True\<rparr>"

definition demo_world :: "etcd_member list \<Rightarrow> etcd_member list world" where
  "demo_world ms = \<lparr>cluster = ms, effects = []\<rparr>"

lemmas demo_simps = demo_etcd_def demo_find_def demo_seed_def demo_stale_def demo_world_def

lemma demo_run:
  "ec_add_learner demo_etcd [''http://b:2380''] [demo_seed] = (Inr (2, 7, [demo_seed, demo_stale]), [demo_seed, demo_stale])"
  "ec_snapshot demo_etcd ms = (Inr (''SNAP'', False), ms)"
  "cluster (demo_world ms) = ms" "effects (demo_world ms) = []"
  by (simp_all add: demo_simps Let_def)

end
