(* ===== verification/Join_Server.thy ===== *)
theory Join_Server
  imports Demo_Cluster
begin

text \<open>
  The server half of \<open>v0alpha0/join/join.go\<close>: authorization, the add, promote and remove
  verbs, and their HTTP dispatch.
\<close>

section \<open>Definitions\<close>

text \<open>\<open>snapshot.MemberInfo\<close>.\<close>

record member_info =
  mi_id :: u64
  mi_name :: string
  mi_peer_urls :: "string list"
  mi_client_urls :: "string list"
  mi_learner :: bool

definition to_member_infos :: "etcd_member list \<Rightarrow> member_info list" where
  "to_member_infos ms =
     map (\<lambda>m. \<lparr>mi_id = em_id m, mi_name = em_name m, mi_peer_urls = em_peer_urls m,
               mi_client_urls = em_client_urls m, mi_learner = em_learner m\<rparr>) ms"

definition join_url_path :: string where
  "join_url_path = ''/libetcd/v1/join''"

text \<open>
  The \<open>Server\<close> struct.  \<open>srv_self\<close> is the in-process client (\<open>None\<close> for nil);
  \<open>srv_userinfo_get url bearer\<close> is the GET of the userinfo endpoint (status and body, \<open>None\<close>
  for a request or transport error); acquiring and releasing the join lock return an error text.
\<close>

record 's server =
  srv_self :: "'s etcd option"
  srv_token :: string
  srv_userinfo :: string
  srv_userinfo_get :: "string \<Rightarrow> string \<Rightarrow> (nat \<times> string) option"
  srv_acquire :: "'s \<Rightarrow> string option \<times> 's"
  srv_release :: "'s \<Rightarrow> string option \<times> 's"

definition verify_via_userinfo :: "'s server \<Rightarrow> string \<Rightarrow> bool" where
  "verify_via_userinfo s raw =
     (if raw = [] then False
      else
        (case srv_userinfo_get s (srv_userinfo s) raw of
           None \<Rightarrow> False
         | Some (status, body) \<Rightarrow>
             if status \<noteq> 200 then False
             else
               (case Option.bind (Option.bind (json_decode (take 65536 body)) json_to_obj)
                       (json_get json_to_string ''sub'') of
                  None \<Rightarrow> False
                | Some sub \<Rightarrow> sub \<noteq> [] \<and> sub = srv_token s)))"

definition authorize :: "'s server \<Rightarrow> request \<Rightarrow> response + 's etcd" where
  "authorize s r =
     (let cred = req_token r in
      if srv_userinfo s \<noteq> [] \<and> \<not> verify_via_userinfo s cred then Inl (http_error 403 ''invalid join token'')
      else if srv_userinfo s = [] \<and> sha256 cred \<noteq> sha256 (srv_token s) then Inl (http_error 403 ''invalid cluster token'')
      else (case srv_self s of None \<Rightarrow> Inl (http_error 503 ''server not ready'') | Some cli \<Rightarrow> Inr cli))"

text \<open>The unstarted learner that holds one of the wanted URLs: the scan of \<open>addLearner\<close> and
  \<open>findUnstartedLearner\<close>.\<close>

fun find_learner :: "string set \<Rightarrow> etcd_member list \<Rightarrow> u64 option" where
  "find_learner want [] = None"
| "find_learner want (m # ms) =
     (if \<not> em_learner m \<or> em_name m \<noteq> [] then find_learner want ms
      else if list_ex (\<lambda>u. u \<in> want) (em_peer_urls m) then Some (em_id m)
      else find_learner want ms)"

type_synonym add_outcome = "u64 \<times> u64 \<times> member_info list"

definition add_learner :: "'s etcd \<Rightarrow> string list \<Rightarrow> 's world \<Rightarrow> (nat \<times> string + add_outcome) \<times> 's world" where
  "add_learner cli urls w =
     (case call (EAdd urls) (ec_add_learner cli urls) w of
        (Inr (mid, cid, ms), w1) \<Rightarrow> (Inr (mid, cid, to_member_infos ms), w1)
      | (Inl err, w1) \<Rightarrow>
          if err = ErrPeerURLExist then
            (case call EList (ec_member_list cli) w1 of
               (Inl lerr, w2) \<Rightarrow> (Inl (409, ec_err_text cli lerr), w2)
             | (Inr (cid, ms), w2) \<Rightarrow>
                 (case find_learner (set urls) ms of
                    Some mid \<Rightarrow> (Inr (mid, cid, to_member_infos ms), w2)
                  | None \<Rightarrow> (Inl (404, ''peer URL already held by an existing member: '' @ ec_err_text cli err), w2)))
          else if err \<in> {ErrTooManyLearners, ErrPermissionDenied, ErrUserEmpty}
            then (Inl (404, ec_err_text cli err), w1)
          else (Inl (409, ec_err_text cli err), w1))"

text \<open>\<open>json.Marshal\<close> of \<open>addPrelude\<close>.  A nil slice prints as \<open>null\<close>; the slices of a
  decoded member are nil when empty, the member slice never is.\<close>

definition slice_json :: "string list \<Rightarrow> json" where
  "slice_json xs = (if xs = [] then JNull else JArr (map JStr xs))"

definition member_json :: "member_info \<Rightarrow> json" where
  "member_json m =
     JObj [(''ID'', JNum (format_uint (mi_id m))), (''Name'', JStr (mi_name m)),
           (''PeerURLs'', slice_json (mi_peer_urls m)), (''ClientURLs'', slice_json (mi_client_urls m)),
           (''IsLearner'', JBool (mi_learner m))]"

definition prelude_json :: "add_outcome \<Rightarrow> json" where
  "prelude_json out =
     (case out of (mid, cid, ms) \<Rightarrow>
        JObj [(''SelfID'', JNum (format_uint mid)), (''ClusterID'', JNum (format_uint cid)),
              (''Members'', JArr (map member_json ms))])"

definition valid_peer_url :: "string \<Rightarrow> bool" where
  "valid_peer_url u =
     (case url_parse u of None \<Rightarrow> False | Some pu \<Rightarrow> host pu \<noteq> [] \<and> http_scheme (scheme pu))"

text \<open>\<open>%q\<close> of the rejected URL, for printable text.\<close>

definition go_quote :: "string \<Rightarrow> string" where
  "go_quote s = CHR 0x22 # concat (map (\<lambda>c. if c = CHR 0x22 \<or> c = CHR 0x5C then [CHR 0x5C, c] else [c]) s) @ [CHR 0x22]"

definition serve_add :: "'s server \<Rightarrow> request \<Rightarrow> 's world \<Rightarrow> response \<times> 's world" where
  "serve_add s r w =
     (case authorize s r of
        Inl resp \<Rightarrow> (resp, w)
      | Inr cli \<Rightarrow>
          (let peer_urls = form_value r ''peerURLs''; urls = split_on (CHR '','') peer_urls in
           if peer_urls = [] then (http_error 400 ''peerURLs required'', w)
           else
             (case find (\<lambda>u. \<not> valid_peer_url u) urls of
                Some u \<Rightarrow> (http_error 400 (''invalid peer URL '' @ go_quote u), w)
              | None \<Rightarrow>
                  (case call EAcquire (srv_acquire s) w of
                     (Some err, w1) \<Rightarrow> (http_error 503 (''acquiring join lock: '' @ err), w1)
                   | (None, w1) \<Rightarrow>
                       (case add_learner cli urls w1 of
                          (Inl (status, err), w2) \<Rightarrow>
                            (http_error status (''adding member: '' @ err), snd (call ERelease (srv_release s) w2))
                        | (Inr out, w2) \<Rightarrow>
                            (let prelude = json_print (prelude_json out) in
                             (case call ESnapshot (ec_snapshot cli) w2 of
                                (Inl err, w3) \<Rightarrow>
                                  (http_error 500 (''snapshot: '' @ ec_err_text cli err),
                                   snd (call ERelease (srv_release s) w3))
                              | (Inr (snap, broken), w3) \<Rightarrow>
                                  (\<lparr>resp_status = 200,
                                    resp_body = bytes32 (of_nat (length prelude)) @ prelude @ snap,
                                    resp_broken = broken\<rparr>,
                                   snd (call ERelease (srv_release s) w3)))))))))"

definition serve_reconfig ::
  "'s server \<Rightarrow> request \<Rightarrow> ('s etcd \<Rightarrow> u64 \<Rightarrow> 's world \<Rightarrow> etcd_err option \<times> 's world) \<Rightarrow> 's world
   \<Rightarrow> response \<times> 's world" where
  "serve_reconfig s r op w =
     (case authorize s r of
        Inl resp \<Rightarrow> (resp, w)
      | Inr cli \<Rightarrow>
          (case parse_uint (form_value r ''memberID'') of
             None \<Rightarrow> (http_error 400 ''valid memberID required'', w)
           | Some mid \<Rightarrow>
               (case op cli mid w of
                  (None, w1) \<Rightarrow> (reply 200 [], w1)
                | (Some err, w1) \<Rightarrow>
                    (http_error (if err = ErrMemberNotFound then 404 else 409) (ec_err_text cli err), w1))))"

definition promote_op :: "'s etcd \<Rightarrow> u64 \<Rightarrow> 's world \<Rightarrow> etcd_err option \<times> 's world" where
  "promote_op cli mid w =
     (case call (EPromote mid) (ec_promote cli mid) w of
        (e, w1) \<Rightarrow> (if e = Some ErrMemberNotLearner then None else e, w1))"

definition find_unstarted_learner :: "'s etcd \<Rightarrow> string list \<Rightarrow> 's world \<Rightarrow> (etcd_err + u64 option) \<times> 's world" where
  "find_unstarted_learner cli urls w =
     (case call EList (ec_member_list cli) w of
        (Inl err, w1) \<Rightarrow> (Inl err, w1)
      | (Inr (_, ms), w1) \<Rightarrow> (Inr (find_learner (set (map trim_space urls)) ms), w1))"

definition remove_member :: "'s etcd \<Rightarrow> u64 \<Rightarrow> 's world \<Rightarrow> response \<times> 's world" where
  "remove_member cli mid w =
     (case call (ERemove mid) (ec_remove cli mid) w of
        (e, w1) \<Rightarrow>
          (case e of
             None \<Rightarrow> (reply 200 [], w1)
           | Some err \<Rightarrow>
               if err = ErrMemberNotFound then (reply 200 [], w1)
               else (http_error 409 (ec_err_text cli err), w1)))"

definition serve_remove :: "'s server \<Rightarrow> request \<Rightarrow> 's world \<Rightarrow> response \<times> 's world" where
  "serve_remove s r w =
     (case authorize s r of
        Inl resp \<Rightarrow> (resp, w)
      | Inr cli \<Rightarrow>
          (case parse_uint (form_value r ''memberID'') of
             Some mid \<Rightarrow> remove_member cli mid w
           | None \<Rightarrow>
               (let urls = form_value r ''peerURLs'' in
                if urls = [] then (http_error 400 ''memberID or peerURLs required'', w)
                else
                  (case find_unstarted_learner cli (split_on (CHR '','') urls) w of
                     (Inl err, w1) \<Rightarrow> (http_error 409 (ec_err_text cli err), w1)
                   | (Inr None, w1) \<Rightarrow> (reply 200 [], w1)
                   | (Inr (Some mid), w1) \<Rightarrow> remove_member cli mid w1))))"

definition serve_http :: "'s server \<Rightarrow> request \<Rightarrow> 's world \<Rightarrow> response \<times> 's world" where
  "serve_http s r w =
     (if req_method r = ''POST'' then serve_add s r w
      else if req_method r = ''PUT'' then serve_reconfig s r promote_op w
      else if req_method r = ''DELETE'' then serve_remove s r w
      else (http_error 405 ''method not allowed'', w))"

section \<open>Authorization\<close>

definition credential_ok :: "'s server \<Rightarrow> string \<Rightarrow> bool" where
  "credential_ok s cred \<longleftrightarrow>
     (if srv_userinfo s = [] then sha256 cred = sha256 (srv_token s) else verify_via_userinfo s cred)"

lemma authorize_cases:
  "authorize s r =
     (if \<not> credential_ok s (req_token r)
      then Inl (http_error 403 (if srv_userinfo s = [] then ''invalid cluster token'' else ''invalid join token''))
      else (case srv_self s of None \<Rightarrow> Inl (http_error 503 ''server not ready'') | Some cli \<Rightarrow> Inr cli))"
  by (simp add: authorize_def credential_ok_def Let_def)

lemma authorize_Inr: "authorize s r = Inr cli \<longleftrightarrow> credential_ok s (req_token r) \<and> srv_self s = Some cli"
  by (auto simp: authorize_cases split: option.splits if_splits)

lemma verify_userinfo_sub:
  assumes "verify_via_userinfo s cred"
  shows "cred \<noteq> [] \<and> srv_token s \<noteq> [] \<and>
    (\<exists>body kvs. srv_userinfo_get s (srv_userinfo s) cred = Some (200, body)
       \<and> json_decode (take 65536 body) = Some (JObj kvs) \<and> json_get json_to_string ''sub'' kvs = Some (srv_token s))"
proof -
  have n: "json_get json_to_string ''sub'' [] = Some []" by (simp add: json_get_def seq_opt_def)
  obtain body where g: "cred \<noteq> []" "srv_userinfo_get s (srv_userinfo s) cred = Some (200, body)"
    using assms unfolding verify_via_userinfo_def by (auto split: if_splits option.splits prod.splits)
  then obtain sub where d: "Option.bind (Option.bind (json_decode (take 65536 body)) json_to_obj) (json_get json_to_string ''sub'') = Some sub"
    and sub: "sub \<noteq> []" "sub = srv_token s"
    using assms unfolding verify_via_userinfo_def by (simp split: option.splits)
  from d obtain v kvs where v: "json_decode (take 65536 body) = Some v" "json_to_obj v = Some kvs"
    "json_get json_to_string ''sub'' kvs = Some sub" unfolding bind_eq_Some_conv by blast
  have "v = JObj kvs"
  proof (cases v)
    case JNull
    then show ?thesis using v n sub(1) by simp
  qed (use v in simp_all)
  with g v sub show ?thesis by blast
qed

section \<open>The shape of a run\<close>

lemma add_learner_effects:
  "\<exists>l. effects (snd (add_learner cli urls w)) = effects w @ EAdd urls # l \<and> l \<in> {[], [EList]}"
  by (auto simp: add_learner_def call_def split: prod.splits sum.splits option.splits)

lemma add_learner_err_status:
  "fst (add_learner cli urls w) = Inl (st, msg) \<Longrightarrow> st = 404 \<or> st = 409"
  by (auto simp: add_learner_def call_def split: prod.splits sum.splits option.splits if_splits)

lemma find_learner_Some:
  "find_learner want ms = Some mid \<Longrightarrow>
     \<exists>m\<in>set ms. em_id m = mid \<and> em_learner m \<and> em_name m = [] \<and> set (em_peer_urls m) \<inter> want \<noteq> {}"
  by (induction ms) (auto split: if_splits simp: list_ex_iff)

lemma find_learner_None:
  "find_learner want ms = None \<longleftrightarrow>
     (\<forall>m\<in>set ms. em_learner m \<longrightarrow> em_name m = [] \<longrightarrow> set (em_peer_urls m) \<inter> want = {})"
  by (induction ms) (auto simp: list_ex_iff)

lemma find_valid_None:
  "find (\<lambda>u. \<not> valid_peer_url u) urls = None \<longleftrightarrow> list_all valid_peer_url urls"
  by (auto simp: find_None_iff list_all_iff)

section \<open>A concrete server\<close>

definition demo_server :: "etcd_member list server" where
  "demo_server = \<lparr>srv_self = Some demo_etcd, srv_token = ''tok'', srv_userinfo = [],
     srv_userinfo_get = (\<lambda>u c. None), srv_acquire = (\<lambda>ms. (None, ms)), srv_release = (\<lambda>ms. (None, ms))\<rparr>"

definition demo_request :: "string \<Rightarrow> string \<Rightarrow> string \<Rightarrow> request" where
  "demo_request method query body =
     \<lparr>req_method = method, req_path = join_url_path, req_query = query, req_urlencoded = body \<noteq> [],
      req_body = body, req_token = ''tok''\<rparr>"

lemma demo_auth: "authorize demo_server (demo_request m q b) = Inr demo_etcd"
  by (simp add: authorize_def demo_server_def demo_request_def)

lemma demo_request_sel [simp]:
  "req_method (demo_request m q b) = m" "req_path (demo_request m q b) = join_url_path"
  "req_token (demo_request m q b) = ''tok''"
  by (simp_all add: demo_request_def)

section \<open>Properties\<close>

text \<open>C6. The credential gate: a request of any method changes nothing and reaches no etcd
  operation unless its credential is accepted (in shared-secret mode its digest equals the
  token's, in JWT mode the userinfo endpoint answered 200 with the cluster's own non-empty
  sub) and the member's own client is ready.\<close>

theorem join_gate:
  assumes "snd (serve_http s r w) \<noteq> w"
  shows "srv_self s \<noteq> None \<and>
    (if srv_userinfo s = [] then sha256 (req_token r) = sha256 (srv_token s)
     else req_token r \<noteq> [] \<and> srv_token s \<noteq> [] \<and>
       (\<exists>body kvs. srv_userinfo_get s (srv_userinfo s) (req_token r) = Some (200, body)
          \<and> json_decode (take 65536 body) = Some (JObj kvs)
          \<and> json_get json_to_string ''sub'' kvs = Some (srv_token s)))"
proof -
  obtain cli where "authorize s r = Inr cli"
    using assms
    by (auto simp: serve_http_def serve_add_def serve_reconfig_def serve_remove_def
        split: if_splits sum.splits)
  then have "srv_self s = Some cli" "credential_ok s (req_token r)" by (simp_all add: authorize_Inr)
  then show ?thesis using verify_userinfo_sub [of s "req_token r"]
    by (auto simp: credential_ok_def split: if_splits)
qed

theorem join_gate_witness:
  "srv_self demo_server \<noteq> None \<and> sha256 (req_token (demo_request ''PUT'' ''memberID=2'' [])) = sha256 (srv_token demo_server)"
proof -
  let ?r = "demo_request ''PUT'' ''memberID=2'' []" and ?w = "demo_world [demo_seed, demo_stale]"
  have f: "form_value ?r ''memberID'' = ''2''" "parse_uint ''2'' = Some 2" by code_simp+
  have p: "promote_op demo_etcd 2 ?w = (None, \<lparr>cluster = [demo_seed, demo_stale\<lparr>em_learner := False\<rparr>], effects = [EPromote 2]\<rparr>)"
    by (simp add: promote_op_def call_def demo_simps)
  have "effects (snd (serve_http demo_server ?r ?w)) = [EPromote 2]"
    by (simp add: serve_http_def serve_reconfig_def demo_auth f p)
  then have "snd (serve_http demo_server ?r ?w) \<noteq> ?w" by (auto simp: demo_world_def)
  from join_gate [OF this] show ?thesis by (simp add: demo_server_def)
qed

text \<open>The two halves of an add: everything before the lock, and the critical section.\<close>

lemma serve_add_refused:
  "(\<exists>resp. authorize s r = Inl resp) \<or> form_value r ''peerURLs'' = []
     \<or> find (\<lambda>u. \<not> valid_peer_url u) (split_on (CHR '','') (form_value r ''peerURLs'')) \<noteq> None \<Longrightarrow>
   snd (serve_add s r w) = w"
  by (auto simp: serve_add_def Let_def split: sum.splits)

lemma serve_add_critical:
  assumes "authorize s r = Inr cli" "form_value r ''peerURLs'' \<noteq> []"
    "find (\<lambda>u. \<not> valid_peer_url u) (split_on (CHR '','') (form_value r ''peerURLs'')) = None"
  shows "\<exists>es. effects (snd (serve_add s r w)) = effects w @ es \<and>
     (es = [EAcquire] \<and> resp_status (fst (serve_add s r w)) = 503 \<or>
      (\<exists>l. es = EAcquire # EAdd (split_on (CHR '','') (form_value r ''peerURLs'')) # l @ [ERelease]
         \<and> l \<in> {[], [EList], [ESnapshot], [EList, ESnapshot]}
         \<and> (resp_status (fst (serve_add s r w)) = 200 \<longrightarrow> ESnapshot \<in> set l)))"
proof -
  let ?urls = "split_on (CHR '','') (form_value r ''peerURLs'')"
  obtain e w1 where acq: "call EAcquire (srv_acquire s) w = (e, w1)" by fastforce
  then have w1: "effects w1 = effects w @ [EAcquire]" by (metis call_effects snd_conv)
  obtain a w2 where add: "add_learner cli ?urls w1 = (a, w2)" by fastforce
  then obtain l where l: "effects w2 = effects w @ EAcquire # EAdd ?urls # l" "l \<in> {[], [EList]}"
    using add_learner_effects [of cli ?urls w1] w1 by auto
  obtain b w3 where snap: "call ESnapshot (ec_snapshot cli) w2 = (b, w3)" by fastforce
  then have w3: "effects w3 = effects w2 @ [ESnapshot]" by (metis call_effects snd_conv)
  note run = serve_add_def assms Let_def http_error_def reply_def acq
  show ?thesis
  proof (cases e)
    case Some
    then show ?thesis using w1 by (simp add: run)
  next
    case None
    show ?thesis
    proof (cases a)
      case (Inl p)
      have "fst p = 404 \<or> fst p = 409" using add_learner_err_status [of cli ?urls w1 "fst p" "snd p"] add Inl by simp
      then show ?thesis using None add Inl l by (auto simp: run split: prod.splits)
    next
      case (Inr out)
      then show ?thesis using None add l snap w3 by (cases b) (auto simp: run split: prod.splits)
    qed
  qed
qed

text \<open>C7. The add critical section: whatever the cluster answers, the effects of a POST are
  none, a failed lock acquisition, or one acquisition, then the learner-add of the validated
  URLs (possibly the membership read of the lost-response recovery, possibly the snapshot),
  then one release as the last effect.\<close>

theorem add_lock_discipline:
  "\<exists>es. effects (snd (serve_add s r w)) = effects w @ es \<and>
     (es = [] \<or> es = [EAcquire] \<and> resp_status (fst (serve_add s r w)) = 503 \<or>
      (\<exists>urls l. es = EAcquire # EAdd urls # l @ [ERelease] \<and> l \<in> {[], [EList], [ESnapshot], [EList, ESnapshot]}
         \<and> urls = split_on (CHR '','') (form_value r ''peerURLs'') \<and> list_all valid_peer_url urls
         \<and> (resp_status (fst (serve_add s r w)) = 200 \<longrightarrow> ESnapshot \<in> set l)))"
proof (cases "(\<exists>resp. authorize s r = Inl resp) \<or> form_value r ''peerURLs'' = []
    \<or> find (\<lambda>u. \<not> valid_peer_url u) (split_on (CHR '','') (form_value r ''peerURLs'')) \<noteq> None")
  case True
  then have "snd (serve_add s r w) = w" by (rule serve_add_refused)
  then show ?thesis by (intro exI [of _ "[]"]) simp
next
  case False
  then obtain cli where "authorize s r = Inr cli" by (cases "authorize s r") auto
  from serve_add_critical [OF this, of w] False show ?thesis by (simp add: find_valid_None) blast
qed

theorem add_lock_discipline_witness:
  "\<exists>l. effects (snd (serve_add demo_server (demo_request ''POST'' [] ''peerURLs=http%3A%2F%2Fb%3A2380'') (demo_world [demo_seed])))
     = EAcquire # EAdd [''http://b:2380''] # l @ [ERelease] \<and> list_all valid_peer_url [''http://b:2380'']"
proof -
  let ?r = "demo_request ''POST'' [] ''peerURLs=http%3A%2F%2Fb%3A2380''" and ?w = "demo_world [demo_seed]"
  have f: "form_value ?r ''peerURLs'' = ''http://b:2380''" by code_simp
  have s: "split_on (CHR '','') ''http://b:2380'' = [''http://b:2380'']" by code_simp
  have v: "valid_peer_url ''http://b:2380''" by code_simp
  have lock: "srv_acquire demo_server ms = (None, ms)" for ms by (simp add: demo_server_def)
  note run = serve_add_def demo_auth f s v call_def lock add_learner_def demo_run
  have "resp_status (fst (serve_add demo_server ?r ?w)) = 200" by (simp add: run Let_def split: prod.splits)
  moreover have "effects (snd (serve_add demo_server ?r ?w)) \<noteq> []" by (simp add: run Let_def split: prod.splits)
  ultimately show ?thesis using add_lock_discipline [of demo_server ?r ?w] by (auto simp: f s demo_run)
qed

text \<open>C8. The rollback by peer URLs touches only unstarted learners: a DELETE without a valid
  member ID removes at most one member, which the membership just read lists as an unnamed
  learner holding one of the (trimmed) URLs; if there is none it succeeds without effect.\<close>

theorem rollback_only_unstarted:
  assumes noid: "parse_uint (form_value r ''memberID'') = None"
    and auth: "authorize s r = Inr cli"
    and urls: "form_value r ''peerURLs'' \<noteq> []"
    and list: "ec_member_list cli (cluster w) = (Inr (cid, ms), c)"
  shows "(\<exists>m\<in>set ms. em_learner m \<and> em_name m = [] \<and>
            (\<exists>u\<in>set (split_on (CHR '','') (form_value r ''peerURLs'')). trim_space u \<in> set (em_peer_urls m)) \<and>
            effects (snd (serve_remove s r w)) = effects w @ [EList, ERemove (em_id m)])
     \<or> (\<forall>m\<in>set ms. em_learner m \<and> em_name m = [] \<longrightarrow>
            (\<forall>u\<in>set (split_on (CHR '','') (form_value r ''peerURLs'')). trim_space u \<notin> set (em_peer_urls m)))
        \<and> fst (serve_remove s r w) = reply 200 []
        \<and> effects (snd (serve_remove s r w)) = effects w @ [EList]"
proof -
  let ?want = "set (map trim_space (split_on (CHR '','') (form_value r ''peerURLs'')))"
  show ?thesis
  proof (cases "find_learner ?want ms")
    case None
    then show ?thesis
      using noid auth urls list find_learner_None [of ?want ms]
      by (auto simp: serve_remove_def Let_def find_unstarted_learner_def call_def)
  next
    case (Some mid)
    then obtain m where m: "m \<in> set ms" "em_id m = mid" "em_learner m" "em_name m = []"
      "set (em_peer_urls m) \<inter> ?want \<noteq> {}" using find_learner_Some [OF Some] by auto
    have "effects (snd (serve_remove s r w)) = effects w @ [EList, ERemove mid]"
      using noid auth urls list Some
      by (auto simp: serve_remove_def Let_def find_unstarted_learner_def remove_member_def call_def
          split: prod.splits option.splits)
    with m show ?thesis by fastforce
  qed
qed

theorem rollback_only_unstarted_witness:
  "effects (snd (serve_remove demo_server (demo_request ''DELETE'' ''peerURLs=http%3A%2F%2Fb%3A2380'' [])
     (demo_world [demo_seed, demo_stale]))) = [EList, ERemove 2]"
proof -
  let ?r = "demo_request ''DELETE'' ''peerURLs=http%3A%2F%2Fb%3A2380'' []"
  let ?w = "demo_world [demo_seed, demo_stale]"
  have f: "form_value ?r ''peerURLs'' = ''http://b:2380''" by code_simp
  have s: "split_on (CHR '','') ''http://b:2380'' = [''http://b:2380'']" "trim_space ''http://b:2380'' = ''http://b:2380''"
    by code_simp+
  have "parse_uint (form_value ?r ''memberID'') = None" by code_simp
  moreover have "ec_member_list demo_etcd (cluster ?w) = (Inr (7, [demo_seed, demo_stale]), [demo_seed, demo_stale])"
    by (simp add: demo_simps)
  ultimately show ?thesis
    using rollback_only_unstarted [of ?r demo_server demo_etcd ?w 7 "[demo_seed, demo_stale]" "[demo_seed, demo_stale]"]
    by (auto simp: demo_auth f s demo_simps)
qed

end
