(* ===== verification/Snapshot.thy ===== *)
theory Snapshot
  imports Join_Server
begin

text \<open>
  \<open>v0alpha0/snapshot/snapshot.go\<close>: \<open>Restore\<close>, which turns the snapshot stream of a join
  into the data directory of a caught-up member.  The file system is an association list from
  clean paths to nodes; the decoded content of the files that etcd writes (WAL, raft
  snapshot) is kept, not their encoding.  bbolt and etcd's membership store are parameters.
  Every I/O step can fail, by the oracle \<open>faults\<close>.
\<close>

section \<open>Files\<close>

record conf_state =
  cs_voters :: "u64 list"
  cs_learners :: "u64 list"

record wal_content =
  wal_node :: u64
  wal_cluster :: u64
  wal_term :: u64
  wal_commit :: u64
  wal_snap_index :: u64
  wal_snap_term :: u64
  wal_conf :: conf_state

record raft_snap =
  sn_members :: "member_info list"
  sn_index :: u64
  sn_term :: u64
  sn_conf :: conf_state

datatype fs_node = Dir | File string | Wal wal_content | Snap raft_snap

type_synonym fs = "(string \<times> fs_node) list"

definition fs_put :: "string \<Rightarrow> fs_node \<Rightarrow> fs \<Rightarrow> fs" where
  "fs_put p n f = (p, n) # filter (\<lambda>e. fst e \<noteq> p) f"

definition under :: "string \<Rightarrow> string \<Rightarrow> bool" where
  "under d p \<longleftrightarrow> has_prefix p (d @ ''/'')"

text \<open>\<open>fileutil.Exist\<close> and \<open>fileutil.DirEmpty\<close>.\<close>

definition fs_exists :: "string \<Rightarrow> fs \<Rightarrow> bool" where
  "fs_exists p f \<longleftrightarrow> map_of f p \<noteq> None \<or> list_ex (\<lambda>e. under p (fst e)) f"

definition fs_dir_empty :: "string \<Rightarrow> fs \<Rightarrow> bool" where
  "fs_dir_empty p f \<longleftrightarrow> \<not> list_ex (\<lambda>e. under p (fst e)) f"

text \<open>\<open>filepath.Join\<close> of a clean directory and plain names.\<close>

definition sub_path :: "string \<Rightarrow> string list \<Rightarrow> string" where
  "sub_path d names = join_with ''/'' (d # names)"

section \<open>Parameters\<close>

text \<open>What the code calls of etcd's storage: the membership bucket and the consistent index of
  a backend database, and the member IDs and learner flags of \<open>membership.RaftCluster\<close>.\<close>

record storage =
  st_trim :: "string \<Rightarrow> string + string"
  st_put_members :: "member_info list \<Rightarrow> string \<Rightarrow> string"
  st_cindex :: "string \<Rightarrow> u64 \<times> u64"
  st_set_cindex :: "u64 \<Rightarrow> u64 \<Rightarrow> string \<Rightarrow> string"
  st_ids :: "member_info list \<Rightarrow> u64 list"
  st_learner :: "member_info list \<Rightarrow> u64 \<Rightarrow> bool"

datatype restore_step = RsOpen | RsSeek | RsMkSnapDir | RsCreateDb | RsCopy | RsTruncate | RsClose
  | RsMkWalDir | RsMetadata | RsWalCreate | RsWalSave | RsSaveSnap | RsWalSnap | RsVerify

section \<open>Restore\<close>

record restore_config =
  rc_snapshot :: string
  rc_name :: string
  rc_self_id :: u64
  rc_cluster_id :: u64
  rc_members :: "member_info list"
  rc_data_dir :: string
  rc_wal_dir :: string
  rc_skip_hash :: bool

definition has_checksum :: "nat \<Rightarrow> bool" where
  "has_checksum n \<longleftrightarrow> n mod 512 = 32"

text \<open>A step of the run: it stops with the injected fault, leaving the files as they are.\<close>

definition attempt :: "(restore_step \<Rightarrow> string option) \<Rightarrow> restore_step \<Rightarrow> fs \<Rightarrow> (fs \<Rightarrow> (string + 'a) \<times> fs) \<Rightarrow> (string + 'a) \<times> fs" where
  "attempt faults s f k = (case faults s of Some e \<Rightarrow> (Inl e, f) | None \<Rightarrow> k f)"

definition snap_dir :: "string \<Rightarrow> string" where
  "snap_dir d = sub_path d [''member'', ''snap'']"

definition db_path :: "string \<Rightarrow> string" where
  "db_path d = sub_path (snap_dir d) [''db'']"

text \<open>The directories that \<open>CreateDirAll\<close> makes below the data directory.\<close>

definition make_snap_dir :: "string \<Rightarrow> fs \<Rightarrow> fs" where
  "make_snap_dir d f = fs_put (snap_dir d) Dir (fs_put (sub_path d [''member'']) Dir (fs_put d Dir f))"

text \<open>\<open>copyAndVerifyDB\<close>: the result is the text of the copied database.  A failing deferred
  close turns success into an error.\<close>

definition copy_and_verify_db ::
  "(restore_step \<Rightarrow> string option) \<Rightarrow> restore_config \<Rightarrow> string \<Rightarrow> fs \<Rightarrow> (string + string) \<times> fs" where
  "copy_and_verify_db faults cfg d f =
     attempt faults RsOpen f (\<lambda>f.
     attempt faults RsSeek f (\<lambda>f.
       (let src = rc_snapshot cfg; n = length src in
        if n < 32 then (Inl ''seek: invalid argument'', f)
        else
          attempt faults RsMkSnapDir f (\<lambda>f.
          (let f = make_snap_dir d f in
           attempt faults RsCreateDb f (\<lambda>f.
           attempt faults RsCopy (fs_put (db_path d) (File []) f) (\<lambda>f.
             (let f1 = fs_put (db_path d) (File src) f in
              if has_checksum n then
                attempt faults RsTruncate f1 (\<lambda>f.
                  (let body = take (n - 32) src; f2 = fs_put (db_path d) (File body) f in
                   if \<not> rc_skip_hash cfg \<and> drop (n - 32) src \<noteq> sha256 body
                   then (Inl ''expected sha256'', f2)
                   else attempt faults RsClose f2 (\<lambda>f. (Inr body, f))))
              else if \<not> rc_skip_hash cfg
                then (Inl ''snapshot missing hash but --skip-hash-check=false'', f1)
              else attempt faults RsClose f1 (\<lambda>f. (Inr src, f)))))))))) "

definition split_conf :: "storage \<Rightarrow> member_info list \<Rightarrow> conf_state" where
  "split_conf st ms =
     \<lparr>cs_voters = filter (\<lambda>i. \<not> st_learner st ms i) (st_ids st ms),
      cs_learners = filter (st_learner st ms) (st_ids st ms)\<rparr>"

text \<open>\<open>saveWALAndSnap\<close>; the result is the database with the membership.\<close>

definition save_wal_and_snap ::
  "storage \<Rightarrow> (restore_step \<Rightarrow> string option) \<Rightarrow> restore_config \<Rightarrow> string \<Rightarrow> string \<Rightarrow> u64 \<Rightarrow> u64 \<Rightarrow> string \<Rightarrow> fs
   \<Rightarrow> (string + string) \<times> fs" where
  "save_wal_and_snap st faults cfg d wd idx tm db f =
     attempt faults RsMkWalDir f (\<lambda>f.
     (let f = fs_put wd Dir f; db1 = st_put_members st (rc_members cfg) db;
          f = fs_put (db_path d) (File db1) f; conf = split_conf st (rc_members cfg);
          wal0 = \<lparr>wal_node = rc_self_id cfg, wal_cluster = rc_cluster_id cfg, wal_term = 0, wal_commit = 0,
                  wal_snap_index = 0, wal_snap_term = 0, wal_conf = \<lparr>cs_voters = [], cs_learners = []\<rparr>\<rparr>;
          wal1 = wal0\<lparr>wal_term := tm, wal_commit := idx\<rparr>;
          wal2 = wal1\<lparr>wal_snap_index := idx, wal_snap_term := tm, wal_conf := conf\<rparr>
      in attempt faults RsMetadata f (\<lambda>f.
         attempt faults RsWalCreate f (\<lambda>f.
         attempt faults RsWalSave (fs_put (sub_path wd [''wal'']) (Wal wal0) f) (\<lambda>f.
         attempt faults RsSaveSnap (fs_put (sub_path wd [''wal'']) (Wal wal1) f) (\<lambda>f.
         attempt faults RsWalSnap
           (fs_put (sub_path (snap_dir d) [''snap''])
              (Snap \<lparr>sn_members = rc_members cfg, sn_index = idx, sn_term = tm, sn_conf = conf\<rparr>) f) (\<lambda>f.
           (Inr db1, fs_put (sub_path wd [''wal'']) (Wal wal2) f))))))))"

text \<open>\<open>saveDB\<close> opens the copied database to trim the old membership from it.\<close>

definition save_db ::
  "storage \<Rightarrow> (restore_step \<Rightarrow> string option) \<Rightarrow> restore_config \<Rightarrow> string \<Rightarrow> fs \<Rightarrow> (string + string) \<times> fs" where
  "save_db st faults cfg d f =
     (case copy_and_verify_db faults cfg d f of
        (Inl e, f1) \<Rightarrow> (Inl e, f1)
      | (Inr body, f1) \<Rightarrow>
          (case st_trim st body of
             Inl e \<Rightarrow> (Inl e, f1)
           | Inr db \<Rightarrow> (Inr db, fs_put (db_path d) (File db) f1)))"

definition read_consistent_index :: "storage \<Rightarrow> string \<Rightarrow> u64 \<times> u64" where
  "read_consistent_index st db = st_cindex st db"

definition update_cindex :: "storage \<Rightarrow> string \<Rightarrow> u64 \<Rightarrow> u64 \<Rightarrow> string \<Rightarrow> fs \<Rightarrow> fs" where
  "update_cindex st d commit tm db f = fs_put (db_path d) (File (st_set_cindex st commit tm db)) f"

definition restore ::
  "storage \<Rightarrow> (restore_step \<Rightarrow> string option) \<Rightarrow> restore_config \<Rightarrow> fs \<Rightarrow> (string + unit) \<times> fs" where
  "restore st faults cfg f =
     (if rc_self_id cfg = 0 then (Inl ''restore: SelfID required'', f)
      else if rc_cluster_id cfg = 0 then (Inl ''restore: ClusterID required'', f)
      else
        (let d = (if rc_data_dir cfg = [] then rc_name cfg @ ''.etcd'' else rc_data_dir cfg);
             wd = (if rc_wal_dir cfg = [] then sub_path d [''member'', ''wal''] else rc_wal_dir cfg)
         in if fs_exists d f \<and> \<not> fs_dir_empty d f then (Inl ''data-dir not empty'', f)
            else if rc_wal_dir cfg \<noteq> [] \<and> fs_exists wd f then (Inl ''wal-dir exists'', f)
            else
              (case save_db st faults cfg d f of
                 (Inl e, f1) \<Rightarrow> (Inl e, f1)
               | (Inr db, f1) \<Rightarrow>
                   (case read_consistent_index st db of (idx, tm) \<Rightarrow>
                      (case save_wal_and_snap st faults cfg d wd idx tm db f1 of
                         (Inl e, f2) \<Rightarrow> (Inl e, f2)
                       | (Inr db1, f2) \<Rightarrow>
                           attempt faults RsVerify (update_cindex st d idx tm db1 f2) (\<lambda>f. (Inr (), f)))))))"

lemmas restore_defs = restore_def save_db_def read_consistent_index_def update_cindex_def

section \<open>Lemmas\<close>

lemma map_of_fs_put [simp]: "map_of (fs_put p n f) q = (if q = p then Some n else map_of f q)"
proof -
  have "map_of (filter (\<lambda>e. fst e \<noteq> p) f) q = map_of f q" if "q \<noteq> p"
    using that by (induction f) auto
  then show ?thesis by (auto simp: fs_put_def)
qed

lemma list_ex_fs_put [simp]:
  "list_ex (\<lambda>e. under d (fst e)) (fs_put p n f) \<longleftrightarrow> under d p \<or> list_ex (\<lambda>e. under d (fst e)) f"
  unfolding fs_put_def list_ex_iff by fastforce

lemma under_append [simp]: "under d (d @ CHR ''/'' # p)"
  by (simp add: under_def has_prefix_def)

lemma under_self [simp]: "\<not> under d d"
  by (simp add: under_def has_prefix_def)

lemma has_prefix_iff: "has_prefix s p \<longleftrightarrow> (\<exists>t. s = p @ t)"
  by (metis append_take_drop_id has_prefix_append has_prefix_def)

lemma under_iff: "under d p \<longleftrightarrow> (\<exists>t. p = d @ ''/'' @ t)"
  by (simp add: under_def has_prefix_iff)

lemma not_exists_under:
  assumes "fs_dir_empty d f"
  shows "\<not> fs_exists (d @ CHR ''/'' # p) f"
proof
  assume "fs_exists (d @ CHR ''/'' # p) f"
  then obtain e where "e \<in> set f" "fst e = d @ CHR ''/'' # p \<or> under (d @ CHR ''/'' # p) (fst e)"
    by (auto simp: fs_exists_def list_ex_iff dest: map_of_SomeD)
  then have "under d (fst e)" by (auto simp: under_iff)
  with \<open>e \<in> set f\<close> assms show False by (auto simp: fs_dir_empty_def list_ex_iff)
qed

lemma paths [simp]:
  "snap_dir d = d @ ''/member/snap''" "db_path d = d @ ''/member/snap/db''"
  "sub_path d [''member'', ''wal''] = d @ ''/member/wal''" "sub_path d [''member''] = d @ ''/member''"
  "sub_path (d @ p) [x] = d @ p @ ''/'' @ x"
  by (simp_all add: snap_dir_def db_path_def sub_path_def)

lemma attempt_Inr:
  "attempt faults s f k = (Inr x, g) \<longleftrightarrow> faults s = None \<and> k f = (Inr x, g)"
  by (simp add: attempt_def split: option.splits)

lemma copy_success:
  assumes "copy_and_verify_db faults cfg d f = (Inr body, g)"
  shows "body = (if has_checksum (length (rc_snapshot cfg)) then take (length (rc_snapshot cfg) - 32) (rc_snapshot cfg) else rc_snapshot cfg)
    \<and> 32 \<le> length (rc_snapshot cfg)
    \<and> (\<not> rc_skip_hash cfg \<longrightarrow> has_checksum (length (rc_snapshot cfg)) \<and> rc_snapshot cfg = body @ sha256 body)
    \<and> map_of g (db_path d) = Some (File body)"
  using assms
  apply (auto simp: copy_and_verify_db_def attempt_Inr Let_def make_snap_dir_def split: if_splits)
  by (metis append_take_drop_id)

lemma save_success:
  assumes "save_wal_and_snap st faults cfg d wd idx tm db f = (Inr db1, g)"
  shows "db1 = st_put_members st (rc_members cfg) db
    \<and> map_of g (sub_path wd [''wal'']) = Some (Wal \<lparr>wal_node = rc_self_id cfg, wal_cluster = rc_cluster_id cfg,
          wal_term = tm, wal_commit = idx, wal_snap_index = idx, wal_snap_term = tm, wal_conf = split_conf st (rc_members cfg)\<rparr>)
    \<and> (sub_path wd [''wal''] \<noteq> d @ ''/member/snap/snap'' \<longrightarrow>
        map_of g (d @ ''/member/snap/snap'') = Some (Snap \<lparr>sn_members = rc_members cfg, sn_index = idx, sn_term = tm,
          sn_conf = split_conf st (rc_members cfg)\<rparr>))"
  using assms
  by (auto simp: save_wal_and_snap_def attempt_Inr Let_def split: if_splits)

lemma restore_refused:
  assumes "d = (if rc_data_dir cfg = [] then rc_name cfg @ ''.etcd'' else rc_data_dir cfg)"
    and "rc_self_id cfg = 0 \<or> rc_cluster_id cfg = 0 \<or> \<not> fs_dir_empty d f"
  shows "\<exists>e. restore st faults cfg f = (Inl e, f)"
proof -
  have "fs_exists d f" if "\<not> fs_dir_empty d f" using that by (simp add: fs_exists_def fs_dir_empty_def)
  then show ?thesis using assms(2) unfolding restore_defs Let_def assms(1) [symmetric] by auto
qed

text \<open>What a corrupt snapshot leaves in an empty data directory.\<close>

lemma corrupt_restore:
  assumes empty: "fs_dir_empty d f" and cfg: "rc_data_dir cfg = d" "d \<noteq> []" "rc_wal_dir cfg = []"
    and ids: "rc_self_id cfg \<noteq> 0" "rc_cluster_id cfg \<noteq> 0" and check: "\<not> rc_skip_hash cfg"
    and size: "32 \<le> length (rc_snapshot cfg)" and no_fault: "\<And>s. faults s = None"
    and bad: "\<not> has_checksum (length (rc_snapshot cfg)) \<or>
      drop (length (rc_snapshot cfg) - 32) (rc_snapshot cfg) \<noteq> sha256 (take (length (rc_snapshot cfg) - 32) (rc_snapshot cfg))"
  shows "\<exists>e g. restore st faults cfg f = (Inl e, g) \<and> \<not> fs_exists (d @ ''/member/wal'') g \<and> \<not> fs_dir_empty d g"
proof -
  let ?n = "length (rc_snapshot cfg)"
  let ?c = "if has_checksum ?n then take (?n - 32) (rc_snapshot cfg) else rc_snapshot cfg"
  define g0 where "g0 = fs_put (db_path d) (File (rc_snapshot cfg)) (fs_put (db_path d) (File []) (make_snap_dir d f))"
  define g where "g = (if has_checksum ?n then fs_put (db_path d) (File ?c) g0 else g0)"
  have at: "attempt faults s h k = k h" for s h and k :: "fs \<Rightarrow> (string + string) \<times> fs"
    by (simp add: attempt_def no_fault)
  have "\<exists>e. copy_and_verify_db faults cfg d f = (Inl e, g)"
    using bad check size unfolding copy_and_verify_db_def at Let_def g_def g0_def
    by (cases "has_checksum ?n") (auto simp del: paths)
  then obtain e where copy: "copy_and_verify_db faults cfg d f = (Inl e, g)" ..
  have nw: "\<not> under (d @ ''/member/wal'') p" if "p \<in> {d, d @ ''/member'', d @ ''/member/snap'', d @ ''/member/snap/db''}" for p
    using that by (auto simp: under_def has_prefix_def)
  have old: "\<not> list_ex (\<lambda>e. under (d @ ''/member/wal'') (fst e)) f" "map_of f (d @ ''/member/wal'') = None"
    using not_exists_under [OF empty, of "''member/wal''"] by (auto simp: fs_exists_def)
  have "\<not> fs_exists (d @ ''/member/wal'') g"
    using nw old by (auto simp: g_def g0_def fs_exists_def make_snap_dir_def)
  moreover have ne: "\<not> fs_dir_empty d g"
    by (auto simp: g_def g0_def fs_dir_empty_def make_snap_dir_def)
  moreover have "restore st faults cfg f = (Inl e, g)"
    using empty cfg ids copy by (simp add: restore_defs)
  ultimately show ?thesis by blast
qed

section \<open>Properties\<close>

text \<open>C0. A seed that \<open>Restore\<close> reports as written makes the node boot caught up: the database
  is the snapshot without its hash (which matches unless the check is off), with the leader's
  membership; the WAL carries the given IDs and ends at the database's own index and term;
  and its configuration has exactly the members' IDs, learners as learners, voters as voters.\<close>

theorem restore_boots_caught_up:
  assumes run: "restore st faults cfg f = (Inr (), g)" and wal: "rc_wal_dir cfg = []"
    and ids: "set (st_ids st (rc_members cfg)) = mi_id ` set (rc_members cfg)"
    and learner: "\<And>m. m \<in> set (rc_members cfg) \<Longrightarrow> st_learner st (rc_members cfg) (mi_id m) = mi_learner m"
    and dir: "d = (if rc_data_dir cfg = [] then rc_name cfg @ ''.etcd'' else rc_data_dir cfg)"
  shows "\<exists>body db idx tm conf.
    (\<not> rc_skip_hash cfg \<longrightarrow> rc_snapshot cfg = body @ sha256 body) \<and> st_trim st body = Inr db \<and> st_cindex st db = (idx, tm)
    \<and> map_of g (d @ ''/member/snap/db'') =
        Some (File (st_set_cindex st idx tm (st_put_members st (rc_members cfg) db)))
    \<and> map_of g (d @ ''/member/wal/wal'') = Some (Wal \<lparr>wal_node = rc_self_id cfg, wal_cluster = rc_cluster_id cfg,
        wal_term = tm, wal_commit = idx, wal_snap_index = idx, wal_snap_term = tm, wal_conf = conf\<rparr>)
    \<and> map_of g (d @ ''/member/snap/snap'') = Some (Snap \<lparr>sn_members = rc_members cfg, sn_index = idx, sn_term = tm, sn_conf = conf\<rparr>)
    \<and> set (cs_voters conf) = {mi_id m | m. m \<in> set (rc_members cfg) \<and> \<not> mi_learner m}
    \<and> set (cs_learners conf) = {mi_id m | m. m \<in> set (rc_members cfg) \<and> mi_learner m}"
proof -
  let ?conf = "split_conf st (rc_members cfg)"
  obtain r1 f1 where copy: "copy_and_verify_db faults cfg d f = (r1, f1)" by fastforce
  note run' = run [unfolded restore_defs Let_def dir [symmetric] wal]
  from run' copy obtain body where r1: "r1 = Inr body" by (cases r1) (auto split: if_splits)
  from run' copy r1 obtain db where db: "st_trim st body = Inr db"
    by (cases "st_trim st body") (auto split: if_splits)
  obtain idx tm where ix: "st_cindex st db = (idx, tm)" by fastforce
  obtain r2 f2 where save: "save_wal_and_snap st faults cfg d (d @ ''/member/wal'') idx tm db (fs_put (db_path d) (File db) f1) = (r2, f2)"
    by fastforce
  from run' copy r1 db ix save obtain db1 where r2: "r2 = Inr db1"
    by (cases r2) (auto split: if_splits)
  from run' copy r1 db ix save r2 have g: "g = fs_put (db_path d) (File (st_set_cindex st idx tm db1)) f2"
    by (auto simp: attempt_Inr split: if_splits)
  note c = copy [unfolded r1] and s = save [unfolded r2]
  have conf: "set (cs_voters ?conf) = {mi_id m | m. m \<in> set (rc_members cfg) \<and> \<not> mi_learner m}"
    "set (cs_learners ?conf) = {mi_id m | m. m \<in> set (rc_members cfg) \<and> mi_learner m}"
    using ids learner by (auto simp: split_conf_def)
  have hash: "\<not> rc_skip_hash cfg \<longrightarrow> rc_snapshot cfg = body @ sha256 body" using copy_success [OF c] by blast
  note ss = save_success [OF s]
  have "map_of g (d @ ''/member/snap/db'') =
      Some (File (st_set_cindex st idx tm (st_put_members st (rc_members cfg) db)))"
    using g ss by simp
  moreover have "map_of g (d @ ''/member/wal/wal'') = Some (Wal \<lparr>wal_node = rc_self_id cfg, wal_cluster = rc_cluster_id cfg,
      wal_term = tm, wal_commit = idx, wal_snap_index = idx, wal_snap_term = tm, wal_conf = ?conf\<rparr>)"
    using g ss by simp
  moreover have "map_of g (d @ ''/member/snap/snap'') =
      Some (Snap \<lparr>sn_members = rc_members cfg, sn_index = idx, sn_term = tm, sn_conf = ?conf\<rparr>)"
    using g ss by simp
  ultimately show ?thesis using hash db ix conf by blast
qed

text \<open>Restore never overwrites: whatever the faults, a data directory that holds anything is
  left as it is with an error, so are the files when an ID is missing.\<close>

theorem restore_refuses:
  assumes "d = (if rc_data_dir cfg = [] then rc_name cfg @ ''.etcd'' else rc_data_dir cfg)"
    and "rc_self_id cfg = 0 \<or> rc_cluster_id cfg = 0 \<or> \<not> fs_dir_empty d f"
  shows "\<exists>e. restore st faults cfg f = (Inl e, f)"
  using assms by (rule restore_refused)

text \<open>C13. A snapshot whose trailing digest is wrong (or missing) never becomes a bootable
  member: Restore fails without writing a WAL, but it leaves the copied database behind, so
  that a second Restore into the same directory is refused.\<close>

theorem corrupt_snapshot_not_bootable:
  assumes fresh: "\<not> fs_exists d f" and cfg: "rc_data_dir cfg = d" "d \<noteq> []" "rc_wal_dir cfg = []"
    and ids: "rc_self_id cfg \<noteq> 0" "rc_cluster_id cfg \<noteq> 0" and check: "\<not> rc_skip_hash cfg"
    and size: "32 \<le> length (rc_snapshot cfg)" and no_fault: "\<And>s. faults s = None"
    and bad: "\<not> has_checksum (length (rc_snapshot cfg)) \<or>
      drop (length (rc_snapshot cfg) - 32) (rc_snapshot cfg) \<noteq> sha256 (take (length (rc_snapshot cfg) - 32) (rc_snapshot cfg))"
  shows "\<exists>e g. restore st faults cfg f = (Inl e, g) \<and> \<not> fs_exists (d @ ''/member/wal'') g
    \<and> \<not> fs_dir_empty d g \<and> (\<forall>faults'. \<exists>e'. restore st faults' cfg g = (Inl e', g))"
proof -
  have "fs_dir_empty d f" using fresh by (auto simp: fs_exists_def fs_dir_empty_def)
  from corrupt_restore [of d f cfg faults st, OF this cfg ids check size no_fault bad]
  obtain e g where g: "restore st faults cfg f = (Inl e, g)" "\<not> fs_exists (d @ ''/member/wal'') g" "\<not> fs_dir_empty d g" by blast
  moreover have "\<exists>e'. restore st faults' cfg g = (Inl e', g)" for faults'
    using g(3) cfg by (intro restore_refused [OF refl]) auto
  ultimately show ?thesis by blast
qed

section \<open>A concrete restore\<close>

text \<open>A storage whose databases are texts: the membership and the index are appended.\<close>

definition demo_storage :: storage where
  "demo_storage = \<lparr>st_trim = (\<lambda>db. Inr db), st_put_members = (\<lambda>ms db. db @ concat (map mi_name ms)),
     st_cindex = (\<lambda>db. (of_nat (length db), 3)), st_set_cindex = (\<lambda>i t db. db @ ''!''),
     st_ids = (\<lambda>ms. sort (remdups (map mi_id ms))),
     st_learner = (\<lambda>ms i. list_ex (\<lambda>m. mi_id m = i \<and> mi_learner m) ms)\<rparr>"

definition demo_config :: "string \<Rightarrow> restore_config" where
  "demo_config snap = \<lparr>rc_snapshot = snap, rc_name = ''b'', rc_self_id = 2, rc_cluster_id = 7,
     rc_members = [\<lparr>mi_id = 1, mi_name = ''a'', mi_peer_urls = [''http://a:2380''], mi_client_urls = [], mi_learner = False\<rparr>,
                   \<lparr>mi_id = 2, mi_name = ''b'', mi_peer_urls = [''http://b:2380''], mi_client_urls = [], mi_learner = True\<rparr>],
     rc_data_dir = ''/data'', rc_wal_dir = [], rc_skip_hash = False\<rparr>"

theorem restore_boots_caught_up_witness:
  "\<exists>db idx tm conf. map_of (snd (restore demo_storage (\<lambda>_. None) (demo_config (replicate 512 (CHR ''x'') @ sha256 (replicate 512 (CHR ''x'')))) []))
      ''/data/member/wal/wal'' = Some (Wal \<lparr>wal_node = 2, wal_cluster = 7, wal_term = tm, wal_commit = idx,
        wal_snap_index = idx, wal_snap_term = tm, wal_conf = conf\<rparr>)
    \<and> set (cs_voters conf) = {1} \<and> set (cs_learners conf) = {2}"
proof -
  let ?c = "demo_config (replicate 512 (CHR ''x'') @ sha256 (replicate 512 (CHR ''x'')))"
  have d: "''/data'' = (if rc_data_dir ?c = [] then rc_name ?c @ ''.etcd'' else rc_data_dir ?c)"
    by (simp add: demo_config_def)
  have hc: "has_checksum 544" by (simp add: has_checksum_def)
  obtain body g0 where copy: "copy_and_verify_db (\<lambda>_. None) ?c ''/data'' [] = (Inr body, g0)"
    by (simp add: copy_and_verify_db_def attempt_def Let_def demo_config_def hc)
  obtain g where run: "restore demo_storage (\<lambda>_. None) ?c [] = (Inr (), g)"
    using copy by (simp add: restore_defs Let_def demo_config_def demo_storage_def fs_exists_def
        save_wal_and_snap_def attempt_def)
  have "set (st_ids demo_storage (rc_members ?c)) = mi_id ` set (rc_members ?c)"
    "\<And>m. m \<in> set (rc_members ?c) \<Longrightarrow> st_learner demo_storage (rc_members ?c) (mi_id m) = mi_learner m"
    by (auto simp: demo_storage_def demo_config_def)
  from restore_boots_caught_up [OF run _ this d]
  obtain conf idx tm where "map_of g ''/data/member/wal/wal'' = Some (Wal \<lparr>wal_node = rc_self_id ?c, wal_cluster = rc_cluster_id ?c,
      wal_term = tm, wal_commit = idx, wal_snap_index = idx, wal_snap_term = tm, wal_conf = conf\<rparr>)"
    "set (cs_voters conf) = {mi_id m | m. m \<in> set (rc_members ?c) \<and> \<not> mi_learner m}"
    "set (cs_learners conf) = {mi_id m | m. m \<in> set (rc_members ?c) \<and> mi_learner m}"
    by (auto simp: demo_config_def)
  moreover have "{mi_id m | m. m \<in> set (rc_members ?c) \<and> \<not> mi_learner m} = {1}"
    "{mi_id m | m. m \<in> set (rc_members ?c) \<and> mi_learner m} = {2}" by (force simp: demo_config_def)+
  ultimately show ?thesis using run by (auto simp: demo_config_def)
qed

theorem restore_refuses_witness:
  "\<exists>e. restore demo_storage (\<lambda>_. None) (demo_config []) [(''/data/x'', File [])] = (Inl e, [(''/data/x'', File [])])"
proof (rule restore_refuses)
  show "''/data'' = (if rc_data_dir (demo_config []) = [] then rc_name (demo_config []) @ ''.etcd'' else rc_data_dir (demo_config []))"
    by (simp add: demo_config_def)
  show "rc_self_id (demo_config []) = 0 \<or> rc_cluster_id (demo_config []) = 0 \<or> \<not> fs_dir_empty ''/data'' [(''/data/x'', File [])]"
    by (simp add: fs_dir_empty_def under_def has_prefix_def)
qed

theorem corrupt_snapshot_not_bootable_witness:
  "\<exists>e g. restore demo_storage (\<lambda>_. None) (demo_config (replicate 100 (CHR ''x''))) [] = (Inl e, g)
    \<and> \<not> fs_exists ''/data/member/wal'' g \<and> \<not> fs_dir_empty ''/data'' g"
proof -
  let ?c = "demo_config (replicate 100 (CHR ''x''))"
  have "\<not> fs_exists ''/data'' []" by (simp add: fs_exists_def)
  moreover have "rc_data_dir ?c = ''/data''" "''/data'' \<noteq> []" "rc_wal_dir ?c = []" "rc_self_id ?c \<noteq> 0"
    "rc_cluster_id ?c \<noteq> 0" "\<not> rc_skip_hash ?c" "32 \<le> length (rc_snapshot ?c)"
    by (simp_all add: demo_config_def)
  moreover have "\<not> has_checksum (length (rc_snapshot ?c))" by (simp add: demo_config_def has_checksum_def)
  ultimately show ?thesis
    using corrupt_snapshot_not_bootable [of "''/data''" "[]" ?c "\<lambda>_. None" demo_storage] by auto
qed

end
