(* ===== verification/Executor.thy ===== *)
theory Executor
  imports Builder Snapshot
begin

text \<open>
  The lifecycle of a node (\<open>v0alpha0/server.go\<close>, \<open>v0alpha0/executor.go\<close>): minting the server,
  the HTTP servers of both sides, \<open>Start\<close> with its bounded ready wait, and \<open>Stop\<close> with the
  auto-leave loop.  Calls are sequential.  Times are milliseconds on one clock.  The embedded
  etcd server, the operating system and the network are a record of operations on an
  arbitrary environment; a run logs every one of them.
\<close>

section \<open>Runs\<close>

datatype side = Client | Peer

datatype event =
    EvBind side | EvMkTemp | EvMint bool | EvStart | EvServe side | EvReady | EvLeave u64
  | EvHardStop | EvCleanup | EvShutdown side
  | EvAdd string | EvPromote string u64 | EvRemove string u64 | EvSweep string | EvSeed | EvStatus
  | EvProbe string | EvUserinfo | EvClaim | EvRoster | EvRegister string

record 'e run =
  r_env :: 'e
  r_now :: int
  r_fs :: fs
  r_log :: "event list"

text \<open>
  The operations of the host.  \<open>ho_mint\<close> is \<open>etcdserver.NewServer\<close> (it writes the data
  directory), \<open>ho_ready\<close> the time at which \<open>ReadyNotify\<close> fires, if ever, \<open>ho_leave\<close> the
  in-process \<open>MemberRemove\<close> within the remaining budget (the error and the time taken), \<open>ho_status\<close> the
  in-process \<open>Status\<close> (learner flag and leader), \<open>ho_tie\<close> the choice of a \<open>select\<close> between the
  ready server and the finished context.
\<close>

record 'e host =
  ho_bind :: "side \<Rightarrow> 'e \<Rightarrow> (string + listener) \<times> 'e"
  ho_mktemp :: "string \<Rightarrow> fs \<Rightarrow> 'e \<Rightarrow> (string + string) \<times> 'e"
  ho_mint :: "server_config option \<Rightarrow> fs \<Rightarrow> 'e \<Rightarrow> string option \<times> fs \<times> 'e"
  ho_ready :: "'e \<Rightarrow> int option"
  ho_tie :: bool
  ho_member_id :: u64
  ho_health_interval :: int
  ho_leave :: "u64 \<Rightarrow> int \<Rightarrow> 'e \<Rightarrow> (string option \<times> int) \<times> 'e"
  ho_shutdown :: "side \<Rightarrow> 'e \<Rightarrow> string option \<times> 'e"
  ho_status :: "int \<Rightarrow> 'e \<Rightarrow> ((string + bool \<times> u64) \<times> int) \<times> 'e"

definition emit :: "event \<Rightarrow> 'e run \<Rightarrow> 'e run" where
  "emit ev w = w\<lparr>r_log := r_log w @ [ev]\<rparr>"

definition elapse :: "int \<Rightarrow> 'e run \<Rightarrow> 'e run" where
  "elapse d w = w\<lparr>r_now := r_now w + max 0 d\<rparr>"

definition bind_run :: "'e host \<Rightarrow> side \<Rightarrow> 'e run \<Rightarrow> (string + listener) \<times> 'e run" where
  "bind_run ho sd w =
     (case ho_bind ho sd (r_env w) of (r, e) \<Rightarrow> (r, (emit (EvBind sd) w)\<lparr>r_env := e\<rparr>))"

definition mktemp_run :: "'e host \<Rightarrow> string \<Rightarrow> 'e run \<Rightarrow> (string + string) \<times> 'e run" where
  "mktemp_run ho pat w =
     (case ho_mktemp ho pat (r_fs w) (r_env w) of
        (r, e) \<Rightarrow> (r, (emit EvMkTemp w)\<lparr>r_env := e,
                       r_fs := (case r of Inl _ \<Rightarrow> r_fs w | Inr d \<Rightarrow> fs_put d Dir (r_fs w))\<rparr>))"

section \<open>Minting\<close>

definition mint_run :: "'e host \<Rightarrow> server_config option \<Rightarrow> 'e run \<Rightarrow> string option \<times> 'e run" where
  "mint_run ho sc w =
     (case ho_mint ho sc (r_fs w) (r_env w) of
        (r, f, e) \<Rightarrow> (r, (emit (EvMint (r = None)) w)\<lparr>r_env := e, r_fs := f\<rparr>))"

definition ensure_dir :: "embed_api \<Rightarrow> 'e host \<Rightarrow> node \<Rightarrow> 'e run \<Rightarrow> bool \<times> node \<times> 'e run" where
  "ensure_dir em ho b w =
     (if c_dir (n_cfg b) \<noteq> [] then (True, b, w)
      else
        (case mktemp_run ho (c_name (n_cfg b) @ ''-'') w of
           (Inl e, w1) \<Rightarrow> (False, latch (''create data dir: '' @ e) b, w1)
         | (Inr d, w1) \<Rightarrow> (True, with_dir em d b, w1)))"

definition server :: "embed_api \<Rightarrow> 'e host \<Rightarrow> node \<Rightarrow> 'e run \<Rightarrow> node \<times> 'e run" where
  "server em ho b w =
     (if n_server_once b then (b, w)
      else
        (case client_listener em (bind_run ho Client) (b\<lparr>n_server_once := True\<rparr>) w of (b1, w1) \<Rightarrow>
         case peer_listener em (bind_run ho Peer) b1 w1 of (b2, w2) \<Rightarrow>
         case ensure_dir em ho b2 w2 of (ok, b3, w3) \<Rightarrow>
           if \<not> ok \<or> n_cause b3 \<noteq> None then (b3, w3)
           else
             (case mint_run ho (n_srvcfg b3) w3 of
                (Some e, w4) \<Rightarrow> (latch (''new server: '' @ e) b3, w4)
              | (None, w4) \<Rightarrow> (b3\<lparr>n_minted := True\<rparr>, w4))))"

text \<open>\<open>Self\<close> and \<open>GrpcServer\<close>: both mint first; the result says whether it is non-nil.\<close>

definition self_client :: "embed_api \<Rightarrow> 'e host \<Rightarrow> node \<Rightarrow> 'e run \<Rightarrow> bool \<times> node \<times> 'e run" where
  "self_client em ho b w =
     (case server em ho b w of (b1, w1) \<Rightarrow>
        if n_minted b1 then (True, b1\<lparr>n_loopback := True\<rparr>, w1) else (False, b1, w1))"

definition grpc_server :: "embed_api \<Rightarrow> 'e host \<Rightarrow> node \<Rightarrow> 'e run \<Rightarrow> bool \<times> node \<times> 'e run" where
  "grpc_server em ho b w =
     (case server em ho b w of (b1, w1) \<Rightarrow>
        if \<not> n_minted b1 then (False, b1, w1)
        else if n_grpc b1 then (True, b1, w1)
        else (case self_client em ho b1 w1 of (_, b2, w2) \<Rightarrow> (True, b2\<lparr>n_grpc := True\<rparr>, w2)))"

section \<open>Serving\<close>

text \<open>Resolving the HTTP server of a side mints its handler (\<open>ClientHandler\<close>, \<open>PeerHandler\<close>).\<close>

definition client_server :: "embed_api \<Rightarrow> 'e host \<Rightarrow> node \<Rightarrow> 'e run \<Rightarrow> node \<times> 'e run" where
  "client_server em ho b w =
     (if n_client_http_once b then (b, w)
      else if \<not> n_client_http b then (b\<lparr>n_client_http_once := True\<rparr>, w)
      else (case grpc_server em ho (b\<lparr>n_client_http_once := True\<rparr>) w of
              (_, b1, w1) \<Rightarrow> (b1\<lparr>n_client_srv := True\<rparr>, w1)))"

definition peer_server :: "embed_api \<Rightarrow> 'e host \<Rightarrow> node \<Rightarrow> 'e run \<Rightarrow> node \<times> 'e run" where
  "peer_server em ho b w =
     (if n_peer_http_once b then (b, w)
      else if \<not> n_peer_http b then (b\<lparr>n_peer_http_once := True\<rparr>, w)
      else (case server em ho (b\<lparr>n_peer_http_once := True\<rparr>) w of
              (b1, w1) \<Rightarrow> (b1\<lparr>n_peer_srv := True\<rparr>, w1)))"

definition serve_peer :: "embed_api \<Rightarrow> 'e host \<Rightarrow> node \<Rightarrow> 'e run \<Rightarrow> node \<times> 'e run" where
  "serve_peer em ho b w =
     (if n_peer_lis b = None then (b, w)
      else (case peer_server em ho b w of (b1, w1) \<Rightarrow>
              (b1, if n_peer_srv b1 then emit (EvServe Peer) w1 else w1)))"

definition serve_client :: "embed_api \<Rightarrow> 'e host \<Rightarrow> node \<Rightarrow> 'e run \<Rightarrow> node \<times> 'e run" where
  "serve_client em ho b w =
     (if n_client_lis b = None then (b, w)
      else (case client_server em ho b w of (b1, w1) \<Rightarrow>
              (b1, if n_client_srv b1 then emit (EvServe Client) w1 else w1)))"

section \<open>Start\<close>

datatype start_result = Blocked | Started "string option"

text \<open>When a caller's context is done.\<close>

definition uc_done :: "user_ctx \<Rightarrow> int option" where
  "uc_done c =
     (case (uc_deadline c, uc_cancelled c) of
        (Some d, Some x) \<Rightarrow> Some (min d x)
      | (Some d, None) \<Rightarrow> Some d
      | (None, x) \<Rightarrow> x)"

definition wait_done :: "node \<Rightarrow> int option" where
  "wait_done b =
     (case n_start_wait b of
        Some d \<Rightarrow> Some d
      | None \<Rightarrow> (case n_user_ctx b of Some c \<Rightarrow> uc_done c | None \<Rightarrow> None))"

text \<open>The \<open>select\<close> of \<open>Start\<close>: ready, expired, or neither ever.\<close>

definition await_ready :: "'e host \<Rightarrow> int option \<Rightarrow> 'e run \<Rightarrow> (bool \<times> 'e run) option" where
  "await_ready ho limit w =
     (case (map_option (max (r_now w)) (ho_ready ho (r_env w)), map_option (max (r_now w)) limit) of
        (None, None) \<Rightarrow> None
      | (Some r, None) \<Rightarrow> Some (True, w\<lparr>r_now := r\<rparr>)
      | (None, Some d) \<Rightarrow> Some (False, w\<lparr>r_now := d\<rparr>)
      | (Some r, Some d) \<Rightarrow>
          if r < d \<or> r = d \<and> ho_tie ho then Some (True, w\<lparr>r_now := r\<rparr>) else Some (False, w\<lparr>r_now := d\<rparr>))"

definition start :: "embed_api \<Rightarrow> 'e host \<Rightarrow> node \<Rightarrow> 'e run \<Rightarrow> start_result \<times> node \<times> 'e run" where
  "start em ho b w =
     (case server em ho b w of (b1, w1) \<Rightarrow>
        if \<not> n_minted b1 then (Started (n_cause b1), b1, w1)
        else if n_start_once b1 then (Started None, b1, w1)
        else
          (case serve_peer em ho (b1\<lparr>n_start_once := True, n_started := True\<rparr>) (emit EvStart w1) of (b2, w2) \<Rightarrow>
           case serve_client em ho b2 w2 of (b3, w3) \<Rightarrow>
           case await_ready ho (wait_done b3) w3 of
             None \<Rightarrow> (Blocked, b3, w3)
           | Some (ready, w4) \<Rightarrow>
               (Started (if \<not> ready \<and> n_start_wait b3 \<noteq> None then Some ''server not ready'' else None),
                b3\<lparr>n_after_func := (n_user_ctx b3 \<noteq> None)\<rparr>,
                if ready then emit EvReady w4 else w4)))"

section \<open>Stop\<close>

definition leave_run :: "'e host \<Rightarrow> int \<Rightarrow> 'e run \<Rightarrow> string option \<times> 'e run" where
  "leave_run ho deadline w =
     (case ho_leave ho (ho_member_id ho) (deadline - r_now w) (r_env w) of
        ((r, t), e) \<Rightarrow> (r, elapse t ((emit (EvLeave (ho_member_id ho)) w)\<lparr>r_env := e\<rparr>)))"

lemma leave_run_now: "(r, w1) = leave_run ho d w \<Longrightarrow> r_now w \<le> r_now w1"
  by (auto simp: leave_run_def elapse_def emit_def split: prod.splits)

text \<open>The auto-leave loop.  A retry is due 500 ms after a failed attempt, unless the context
  ends before (or exactly then).\<close>

function leave_loop :: "'e host \<Rightarrow> int \<Rightarrow> 'e run \<Rightarrow> 'e run" where
  "leave_loop ho deadline w =
     (case leave_run ho deadline w of
        (None, w1) \<Rightarrow> w1
      | (Some _, w1) \<Rightarrow>
          if r_now w1 + 500 < deadline then leave_loop ho deadline (w1\<lparr>r_now := r_now w1 + 500\<rparr>)
          else w1\<lparr>r_now := max (r_now w1) deadline\<rparr>)"
  by pat_completeness auto
termination
  by (relation "measure (\<lambda>(ho, deadline, w). nat (deadline - r_now w))") (auto dest!: leave_run_now)

declare leave_loop.simps [simp del]

definition shutdown_run :: "'e host \<Rightarrow> side \<Rightarrow> 'e run \<Rightarrow> string option \<times> 'e run" where
  "shutdown_run ho sd w =
     (case ho_shutdown ho sd (r_env w) of (r, e) \<Rightarrow> (r, (emit (EvShutdown sd) w)\<lparr>r_env := e\<rparr>))"

definition leave :: "'e host \<Rightarrow> node \<Rightarrow> 'e run \<Rightarrow> 'e run" where
  "leave ho b w =
     (if n_minted b \<and> n_started b \<and> n_leave_on_stop b
      then leave_loop ho (r_now w + 2 * ho_health_interval ho) w else w)"

definition teardown :: "node \<Rightarrow> 'e run \<Rightarrow> 'e run" where
  "teardown b w = (if \<not> n_minted b then w else if n_started b then emit EvHardStop w else emit EvCleanup w)"

definition shutdown_side :: "'e host \<Rightarrow> side \<Rightarrow> string \<Rightarrow> bool \<Rightarrow> 'e run \<Rightarrow> string list \<times> 'e run" where
  "shutdown_side ho sd what has w =
     (if has
      then (case shutdown_run ho sd w of (r, w1) \<Rightarrow> ((case r of None \<Rightarrow> [] | Some e \<Rightarrow> [what @ e]), w1))
      else ([], w))"

text \<open>The errors of \<open>Stop\<close> are the list that \<open>errors.Join\<close> gets.\<close>

definition stop :: "embed_api \<Rightarrow> 'e host \<Rightarrow> node \<Rightarrow> 'e run \<Rightarrow> string list \<times> node \<times> 'e run" where
  "stop em ho b w =
     (if n_stop_once b then ([], b, w)
      else
        (let w1 = leave ho b w;
             b1 = b\<lparr>n_stop_once := True,
                    n_loopback := n_loopback b \<or> n_minted b \<and> n_started b \<and> n_leave_on_stop b\<rparr>;
             w2 = teardown b w1
         in case shutdown_side ho Client ''shutdown client http: '' (n_client_srv b) w2 of (e1, w3) \<Rightarrow>
            case shutdown_side ho Peer ''shutdown peer http: '' (n_peer_srv b) w3 of (e2, w4) \<Rightarrow>
              (e1 @ e2, b1, w4)))"

section \<open>The lifecycle contract\<close>

text \<open>
  The abstract contract of the log: each side is bound at most once, the server is minted at
  most once, started at most once and only when minted, a side is served at most once and only
  by a started server, the node leaves only while started and not stopped, and it is torn
  down at most once, hard when started and by cleanup when only minted.
\<close>

record phase =
  ph_bound :: "side set"
  ph_tried :: bool
  ph_minted :: bool
  ph_started :: bool
  ph_served :: "side set"
  ph_stopped :: bool

definition phase0 :: phase where
  "phase0 = \<lparr>ph_bound = {}, ph_tried = False, ph_minted = False, ph_started = False, ph_served = {}, ph_stopped = False\<rparr>"

fun admit :: "event \<Rightarrow> phase \<Rightarrow> phase option" where
  "admit (EvBind sd) p = (if sd \<in> ph_bound p then None else Some (p\<lparr>ph_bound := insert sd (ph_bound p)\<rparr>))"
| "admit (EvMint ok) p = (if ph_tried p then None else Some (p\<lparr>ph_tried := True, ph_minted := ok\<rparr>))"
| "admit EvStart p = (if \<not> ph_minted p \<or> ph_started p then None else Some (p\<lparr>ph_started := True\<rparr>))"
| "admit (EvServe sd) p =
     (if \<not> ph_started p \<or> sd \<in> ph_served p then None else Some (p\<lparr>ph_served := insert sd (ph_served p)\<rparr>))"
| "admit EvReady p = (if ph_started p then Some p else None)"
| "admit (EvLeave _) p = (if ph_started p \<and> \<not> ph_stopped p then Some p else None)"
| "admit EvHardStop p = (if ph_started p \<and> \<not> ph_stopped p then Some (p\<lparr>ph_stopped := True\<rparr>) else None)"
| "admit EvCleanup p =
     (if ph_minted p \<and> \<not> ph_started p \<and> \<not> ph_stopped p then Some (p\<lparr>ph_stopped := True\<rparr>) else None)"
| "admit (EvShutdown _) p = (if ph_stopped p then Some p else None)"
| "admit _ p = Some p"

fun replay :: "event list \<Rightarrow> phase \<Rightarrow> phase option" where
  "replay [] p = Some p"
| "replay (e # es) p = Option.bind (admit e p) (replay es)"

lemma replay_append: "replay (l @ m) p = Option.bind (replay l p) (replay m)"
proof (induction l arbitrary: p)
  case (Cons e l)
  then show ?case by (cases "admit e p") simp_all
qed simp

text \<open>How the flags of a node refine the phase.\<close>

definition refines :: "node \<Rightarrow> phase \<Rightarrow> bool" where
  "refines b p \<longleftrightarrow>
     (Client \<in> ph_bound p \<longrightarrow> n_client_mat b) \<and> (Peer \<in> ph_bound p \<longrightarrow> n_peer_mat b)
     \<and> (ph_tried p \<longrightarrow> n_server_once b) \<and> ph_minted p = n_minted b \<and> ph_started p = n_started b
     \<and> n_start_once b = n_started b \<and> (n_started b \<longrightarrow> n_minted b)
     \<and> (ph_served p \<noteq> {} \<longrightarrow> n_started b) \<and> (n_client_srv b \<or> n_peer_srv b \<longrightarrow> n_started b)
     \<and> (ph_stopped p \<longrightarrow> n_stop_once b) \<and> (n_minted b \<longrightarrow> n_server_once b)"

definition life_at :: "phase \<Rightarrow> node \<Rightarrow> 'e run \<Rightarrow> bool" where
  "life_at p b w \<longleftrightarrow> replay (r_log w) phase0 = Some p \<and> refines b p"

definition life_inv :: "node \<Rightarrow> 'e run \<Rightarrow> bool" where
  "life_inv b w \<longleftrightarrow> (\<exists>p. life_at p b w)"

text \<open>The lifecycle flags of a node, those of its two listeners apart.\<close>

definition core :: "node \<Rightarrow> bool list" where
  "core b = [n_server_once b, n_minted b, n_start_once b, n_started b, n_stop_once b, n_client_srv b, n_peer_srv b]"

definition mats :: "node \<Rightarrow> bool list" where
  "mats b = [n_client_mat b, n_peer_mat b]"

lemma refines_cong: "core b1 = core b \<Longrightarrow> mats b1 = mats b \<Longrightarrow> refines b1 p = refines b p"
  by (simp add: refines_def core_def mats_def)

lemma replay_single: "replay [e] p = admit e p"
  by (cases "admit e p") simp_all

lemma emit_other [simp]: "r_env (emit e w) = r_env w" "r_now (emit e w) = r_now w" "r_fs (emit e w) = r_fs w"
  "r_log (emit e w) = r_log w @ [e]"
  by (simp_all add: emit_def)

lemma auto_sync_flags [simp]: "core (auto_sync b) = core b" "mats (auto_sync b) = mats b"
  by (simp_all add: auto_sync_def core_def mats_def)

lemma latch_flags [simp]: "core (latch e b) = core b" "mats (latch e b) = mats b"
  by (simp_all add: latch_def core_def mats_def)

lemma mutate_flags:
  assumes "\<And>b1. f b = Inr b1 \<Longrightarrow> core b1 = core b \<and> mats b1 = mats b"
  shows "core (mutate em f b) = core b \<and> mats (mutate em f b) = mats b"
proof -
  have "core (x\<lparr>n_srvcfg := y\<rparr>) = core x \<and> mats (x\<lparr>n_srvcfg := y\<rparr>) = mats x" for x y
    by (simp add: core_def mats_def)
  then show ?thesis using assms by (simp add: mutate_def Let_def split: sum.split option.split)
qed

lemmas flag_defs = core_def mats_def

lemma setting_flags: "core (apply_setting em s b) = core b \<and> mats (apply_setting em s b) = mats b"
  by (cases s; simp only: apply_setting.simps setting_defs; rule mutate_flags;
      auto simp: flag_defs set_client_urls_def apply_peer_urls_def Let_def split: sum.splits option.splits if_splits)

lemma with_dir_flags [simp]: "core (with_dir em d b) = core b" "mats (with_dir em d b) = mats b"
  using setting_flags [of em "SDir d" b] by simp_all

lemma core_eqD:
  assumes "core b1 = core b"
  shows "n_server_once b1 = n_server_once b" "n_minted b1 = n_minted b" "n_start_once b1 = n_start_once b"
    "n_started b1 = n_started b" "n_stop_once b1 = n_stop_once b" "n_client_srv b1 = n_client_srv b"
    "n_peer_srv b1 = n_peer_srv b"
  using assms by (simp_all add: core_def)

lemma client_listener_flags:
  assumes "client_listener em bind b w = (b1, w1)"
  shows "core b1 = core b \<and> mats b1 = [True, n_peer_mat b]"
proof -
  have m: "core (mutate em (\<lambda>b. Inr (set_client_urls us (b\<lparr>n_client_lis := l\<rparr>))) x) = core x
    \<and> mats (mutate em (\<lambda>b. Inr (set_client_urls us (b\<lparr>n_client_lis := l\<rparr>))) x) = mats x" for us l x
    by (rule mutate_flags) (auto simp: flag_defs set_client_urls_def)
  have c: "core (b\<lparr>n_client_mat := True\<rparr>) = core b" "mats (b\<lparr>n_client_mat := True\<rparr>) = [True, n_peer_mat b]"
    by (simp_all add: flag_defs)
  have o: "n_client_mat b \<Longrightarrow> mats b = [True, n_peer_mat b]" by (simp add: mats_def)
  show ?thesis using assms m c o unfolding client_listener_def
    by (auto simp: Let_def split: if_splits option.splits sum.splits prod.splits)
qed

lemma peer_listener_flags:
  assumes "peer_listener em bind b w = (b1, w1)"
  shows "core b1 = core b \<and> mats b1 = [n_client_mat b, True]"
proof -
  have m: "core (mutate em (\<lambda>b. Inr (apply_peer_urls l (b\<lparr>n_peer_lis := k\<rparr>))) x) = core x
    \<and> mats (mutate em (\<lambda>b. Inr (apply_peer_urls l (b\<lparr>n_peer_lis := k\<rparr>))) x) = mats x" for l k x
    by (rule mutate_flags) (auto simp: flag_defs apply_peer_urls_def)
  have c: "core (b\<lparr>n_peer_mat := True\<rparr>) = core b" "mats (b\<lparr>n_peer_mat := True\<rparr>) = [n_client_mat b, True]"
    by (simp_all add: flag_defs)
  have o: "n_peer_mat b \<Longrightarrow> mats b = [n_client_mat b, True]" by (simp add: mats_def)
  show ?thesis using assms m c o unfolding peer_listener_def
    by (auto simp: Let_def split: if_splits option.splits sum.splits prod.splits)
qed

lemma run_factory_log:
  assumes "run_factory (bind_run ho sd) f w = (r, w1)"
  shows "r_log w1 = r_log w \<or> r_log w1 = r_log w @ [EvBind sd]"
  using assms by (auto simp: run_factory_def bind_run_def split: factory.splits prod.splits)

lemma client_listener_log:
  assumes "client_listener em (bind_run ho Client) b w = (b1, w1)"
  shows "r_log w1 = r_log w \<or> \<not> n_client_mat b \<and> r_log w1 = r_log w @ [EvBind Client]"
  using assms unfolding client_listener_def
  by (auto simp: Let_def dest!: run_factory_log split: if_splits option.splits sum.splits prod.splits)

lemma peer_listener_log:
  assumes "peer_listener em (bind_run ho Peer) b w = (b1, w1)"
  shows "r_log w1 = r_log w \<or> \<not> n_peer_mat b \<and> r_log w1 = r_log w @ [EvBind Peer]"
  using assms unfolding peer_listener_def
  by (auto simp: Let_def dest!: run_factory_log split: if_splits option.splits sum.splits prod.splits)

lemma client_listener_life:
  assumes "life_at p b w" "client_listener em (bind_run ho Client) b w = (b1, w1)"
  shows "\<exists>B. life_at (p\<lparr>ph_bound := B\<rparr>) b1 w1"
proof -
  have r: "refines b1 p" and m: "n_client_mat b1"
    using assms(1) client_listener_flags [OF assms(2)] by (auto simp: life_at_def refines_def flag_defs)
  from client_listener_log [OF assms(2)] show ?thesis
  proof
    assume "r_log w1 = r_log w"
    then have "life_at (p\<lparr>ph_bound := ph_bound p\<rparr>) b1 w1" using assms(1) r by (simp add: life_at_def)
    then show ?thesis ..
  next
    assume "\<not> n_client_mat b \<and> r_log w1 = r_log w @ [EvBind Client]"
    then have "life_at (p\<lparr>ph_bound := insert Client (ph_bound p)\<rparr>) b1 w1" using assms(1) r m
      by (auto simp: life_at_def replay_append replay_single refines_def)
    then show ?thesis ..
  qed
qed

lemma peer_listener_life:
  assumes "life_at p b w" "peer_listener em (bind_run ho Peer) b w = (b1, w1)"
  shows "\<exists>B. life_at (p\<lparr>ph_bound := B\<rparr>) b1 w1"
proof -
  have r: "refines b1 p" and m: "n_peer_mat b1"
    using assms(1) peer_listener_flags [OF assms(2)] by (auto simp: life_at_def refines_def flag_defs)
  from peer_listener_log [OF assms(2)] show ?thesis
  proof
    assume "r_log w1 = r_log w"
    then have "life_at (p\<lparr>ph_bound := ph_bound p\<rparr>) b1 w1" using assms(1) r by (simp add: life_at_def)
    then show ?thesis ..
  next
    assume "\<not> n_peer_mat b \<and> r_log w1 = r_log w @ [EvBind Peer]"
    then have "life_at (p\<lparr>ph_bound := insert Peer (ph_bound p)\<rparr>) b1 w1" using assms(1) r m
      by (auto simp: life_at_def replay_append replay_single refines_def)
    then show ?thesis ..
  qed
qed

lemma life_cong:
  "life_at p b w \<Longrightarrow> core b1 = core b \<Longrightarrow> mats b1 = mats b \<Longrightarrow> r_log w1 = r_log w \<Longrightarrow> life_at p b1 w1"
  by (simp add: life_at_def refines_cong [of b1 b])

lemma life_event:
  "life_at p b w \<Longrightarrow> r_log w1 = r_log w @ [e] \<Longrightarrow> admit e p = Some p1 \<Longrightarrow> refines b1 p1 \<Longrightarrow> life_at p1 b1 w1"
  by (simp add: life_at_def replay_append replay_single)

lemma ensure_dir_life:
  assumes "life_at p b w" "ensure_dir em ho b w = (ok, b1, w1)"
  shows "life_at p b1 w1 \<and> core b1 = core b"
proof -
  have "core b1 = core b \<and> mats b1 = mats b \<and> (r_log w1 = r_log w \<or> r_log w1 = r_log w @ [EvMkTemp])"
    using assms(2) by (auto simp: ensure_dir_def mktemp_run_def split: if_splits prod.splits sum.splits)
  then show ?thesis
    using assms(1) life_cong [OF assms(1)] life_event [of p b w w1 EvMkTemp p b1] refines_cong [of b1 b p]
    by (auto simp: life_at_def)
qed

lemma server_life:
  assumes "life_inv b w" "server em ho b w = (b1, w1)"
  shows "life_inv b1 w1 \<and> n_server_once b1 \<and> drop 2 (core b1) = drop 2 (core b) \<and> (n_minted b \<longrightarrow> n_minted b1)"
proof (cases "n_server_once b")
  case True
  then show ?thesis using assms by (auto simp: server_def)
next
  case False
  let ?b0 = "b\<lparr>n_server_once := True\<rparr>"
  obtain p where p: "life_at p b w" using assms(1) by (auto simp: life_inv_def)
  have np: "\<not> ph_tried p" "\<not> n_minted b" "\<not> n_started b" "\<not> ph_minted p"
    using p False by (auto simp: life_at_def refines_def)
  have p0: "life_at p ?b0 w" using p by (auto simp: life_at_def refines_def)
  obtain b2 w2 where c: "client_listener em (bind_run ho Client) ?b0 w = (b2, w2)" by force
  obtain b3 w3 where d: "peer_listener em (bind_run ho Peer) b2 w2 = (b3, w3)" by force
  obtain ok b4 w4 where e: "ensure_dir em ho b3 w3 = (ok, b4, w4)" by (metis prod_cases3)
  obtain B where "life_at (p\<lparr>ph_bound := B\<rparr>) b2 w2" using client_listener_life [OF p0 c] by blast
  from peer_listener_life [OF this d] obtain C where "life_at (p\<lparr>ph_bound := C\<rparr>) b3 w3" by auto
  from ensure_dir_life [OF this e] have l4: "life_at (p\<lparr>ph_bound := C\<rparr>) b4 w4" and "core b4 = core b3" by auto
  then have k: "core b4 = core ?b0" using client_listener_flags [OF c] peer_listener_flags [OF d] by simp
  note kd = core_eqD [OF k]
  show ?thesis
  proof (cases "\<not> ok \<or> n_cause b4 \<noteq> None")
    case True
    then have "b1 = b4" "w1 = w4" using assms(2) False by (auto simp: server_def c d e)
    then show ?thesis using l4 kd np by (auto simp: life_inv_def core_def)
  next
    case ok: False
    obtain r w5 where m: "mint_run ho (n_srvcfg b4) w4 = (r, w5)" by force
    have lg: "r_log w5 = r_log w4 @ [EvMint (r = None)]" using m by (auto simp: mint_run_def split: prod.splits)
    have a: "admit (EvMint (r = None)) (p\<lparr>ph_bound := C\<rparr>) = Some (p\<lparr>ph_bound := C, ph_tried := True, ph_minted := (r = None)\<rparr>)"
      using np by simp
    have w1: "w1 = w5" and b1: "core b1 = core (b4\<lparr>n_minted := (r = None)\<rparr>)" "mats b1 = mats b4"
    proof -
      have "server em ho b w = (case r of Some err \<Rightarrow> (latch (''new server: '' @ err) b4, w5) | None \<Rightarrow> (b4\<lparr>n_minted := True\<rparr>, w5))"
        using False ok by (simp add: server_def c d e m)
      then show "w1 = w5" "core b1 = core (b4\<lparr>n_minted := (r = None)\<rparr>)" "mats b1 = mats b4"
        using assms(2) np(2) kd(2) by (cases r; simp add: core_def mats_def latch_def)+
    qed
    note bd = core_eqD [OF b1(1)]
    have "refines b1 (p\<lparr>ph_bound := C, ph_tried := True, ph_minted := (r = None)\<rparr>)"
      using l4 kd np bd b1(2) by (simp add: life_at_def refines_def mats_def)
    from life_event [OF l4 _ a this, of w1] lg w1 have "life_inv b1 w1" by (auto simp: life_inv_def)
    then show ?thesis using kd bd np by (simp add: core_def)
  qed
qed

lemma server_once_after: "server em ho b w = (b1, w1) \<Longrightarrow> n_server_once b1"
proof -
  assume r: "server em ho b w = (b1, w1)"
  show ?thesis
  proof (cases "n_server_once b")
    case True
    then show ?thesis using r by (simp add: server_def)
  next
    case False
    let ?b0 = "b\<lparr>n_server_once := True\<rparr>"
    obtain b2 w2 where c: "client_listener em (bind_run ho Client) ?b0 w = (b2, w2)" by force
    obtain b3 w3 where d: "peer_listener em (bind_run ho Peer) b2 w2 = (b3, w3)" by force
    obtain ok b4 w4 where e: "ensure_dir em ho b3 w3 = (ok, b4, w4)" by (metis prod_cases3)
    have "core b4 = core b3" using e by (auto simp: ensure_dir_def split: if_splits prod.splits sum.splits)
    then have o: "n_server_once b4" using client_listener_flags [OF c] peer_listener_flags [OF d] by (simp add: core_def)
    have "server em ho b w = (if \<not> ok \<or> n_cause b4 \<noteq> None then (b4, w4)
        else (case mint_run ho (n_srvcfg b4) w4 of
                (Some err, w4) \<Rightarrow> (latch (''new server: '' @ err) b4, w4)
              | (None, w4) \<Rightarrow> (b4\<lparr>n_minted := True\<rparr>, w4)))" using False by (simp add: server_def c d e)
    then have "n_server_once (fst (server em ho b w))" using o
      by (auto simp: latch_def split: prod.split option.split)
    then show ?thesis by (simp add: r)
  qed
qed

lemma server_cached: "n_server_once b \<Longrightarrow> server em ho b w = (b, w)"
  by (simp add: server_def)

lemma loopback_flags [simp]: "core (b\<lparr>n_loopback := x\<rparr>) = core b" "mats (b\<lparr>n_loopback := x\<rparr>) = mats b"
  "core (b\<lparr>n_grpc := x\<rparr>) = core b" "mats (b\<lparr>n_grpc := x\<rparr>) = mats b"
  by (simp_all add: flag_defs)

lemma life_loopback [simp]: "life_inv (b\<lparr>n_loopback := x\<rparr>) w = life_inv b w" "life_inv (b\<lparr>n_grpc := x\<rparr>) w = life_inv b w"
  by (simp_all add: life_inv_def life_at_def refines_cong [of "b\<lparr>n_loopback := x\<rparr>" b] refines_cong [of "b\<lparr>n_grpc := x\<rparr>" b])

lemma self_client_life: "life_inv b w \<Longrightarrow> self_client em ho b w = (x, b1, w1) \<Longrightarrow> life_inv b1 w1"
  by (auto simp: self_client_def split: prod.splits if_splits dest: server_life)

lemma self_client_flags:
  assumes "n_server_once b" "self_client em ho b w = (x, b1, w1)"
  shows "w1 = w \<and> core b1 = core b \<and> mats b1 = mats b"
  using assms by (auto simp: self_client_def server_cached split: if_splits)

lemma grpc_server_flags:
  assumes "n_server_once b" "grpc_server em ho b w = (x, b1, w1)"
  shows "w1 = w \<and> core b1 = core b \<and> mats b1 = mats b"
  using assms
  by (auto simp: grpc_server_def server_cached split: if_splits prod.splits dest!: self_client_flags [OF assms(1)])

lemma grpc_server_life:
  assumes "life_inv b w" "grpc_server em ho b w = (x, b1, w1)"
  shows "life_inv b1 w1"
proof -
  obtain b2 w2 where s: "server em ho b w = (b2, w2)" by force
  have l: "life_inv b2 w2" "n_server_once b2" using server_life [OF assms(1) s] by auto
  then have "grpc_server em ho b2 w2 = (x, b1, w1)"
    using assms(2) by (simp add: grpc_server_def s server_cached)
  from grpc_server_flags [OF l(2) this] l(1) show ?thesis by (auto simp: life_inv_def intro: life_cong)
qed

text \<open>Resolving and serving a side of a started node.\<close>

lemma serve_peer_life:
  assumes "life_at p b w" "n_server_once b" "n_started b" "Peer \<notin> ph_served p" "serve_peer em ho b w = (b1, w1)"
  shows "\<exists>S \<subseteq> {Peer}. life_at (p\<lparr>ph_served := ph_served p \<union> S\<rparr>) b1 w1 \<and> take 5 (core b1) = take 5 (core b)
    \<and> n_client_srv b1 = n_client_srv b"
proof -
  obtain b2 w2 where s: "peer_server em ho b w = (b2, w2)" by force
  have w2: "w2 = w" "mats b2 = mats b" "take 6 (core b2) = take 6 (core b)"
    using s assms(2) by (auto simp: peer_server_def server_def flag_defs split: if_splits)
  have l2: "life_at p b2 w" using assms(1,3) w2 by (auto simp: life_at_def refines_def flag_defs)
  consider "b1 = b" "w1 = w" | "b1 = b2" "w1 = w" | "b1 = b2" "w1 = emit (EvServe Peer) w"
    using assms(5) by (auto simp: serve_peer_def s w2 split: if_splits)
  then show ?thesis
  proof cases
    case 3
    have "life_at (p\<lparr>ph_served := insert Peer (ph_served p)\<rparr>) b2 (emit (EvServe Peer) w)"
      using assms(1,3,4) l2 by (intro life_event [OF l2, where e = "EvServe Peer"]) (auto simp: life_at_def refines_def)
    then show ?thesis using 3 w2 by (intro exI [of _ "{Peer}"]) (simp add: core_def)
  qed (use assms(1) l2 w2 in \<open>auto simp: core_def intro!: exI [of _ "{}"]\<close>)
qed

lemma serve_client_life:
  assumes "life_at p b w" "n_server_once b" "n_started b" "Client \<notin> ph_served p" "serve_client em ho b w = (b1, w1)"
  shows "\<exists>S \<subseteq> {Client}. life_at (p\<lparr>ph_served := ph_served p \<union> S\<rparr>) b1 w1 \<and> take 5 (core b1) = take 5 (core b)"
proof -
  obtain b2 w2 where s: "client_server em ho b w = (b2, w2)" by force
  obtain x b3 w3 where g: "grpc_server em ho (b\<lparr>n_client_http_once := True\<rparr>) w = (x, b3, w3)"
    by (metis prod_cases3)
  have g3: "w3 = w" "mats b3 = mats b" "core b3 = core b"
    using grpc_server_flags [OF _ g] assms(2) by (simp_all add: flag_defs)
  have w2: "w2 = w" "mats b2 = mats b" "take 5 (core b2) = take 5 (core b)" "n_peer_srv b2 = n_peer_srv b"
  proof -
    have "(b2, w2) = (if n_client_http_once b then (b, w)
      else if \<not> n_client_http b then (b\<lparr>n_client_http_once := True\<rparr>, w) else (b3\<lparr>n_client_srv := True\<rparr>, w))"
      using s g3(1) by (auto simp: client_server_def g split: if_splits)
    then show "w2 = w" "mats b2 = mats b" "take 5 (core b2) = take 5 (core b)" "n_peer_srv b2 = n_peer_srv b"
      using g3(2,3) by (auto simp: flag_defs split: if_splits)
  qed
  have l2: "life_at p b2 w" using assms(1,3) w2 by (auto simp: life_at_def refines_def flag_defs)
  consider "b1 = b" "w1 = w" | "b1 = b2" "w1 = w" | "b1 = b2" "w1 = emit (EvServe Client) w"
    using assms(5) by (auto simp: serve_client_def s w2 split: if_splits)
  then show ?thesis
  proof cases
    case 3
    have "life_at (p\<lparr>ph_served := insert Client (ph_served p)\<rparr>) b2 (emit (EvServe Client) w)"
      using assms(1,3,4) l2 by (intro life_event [OF l2, where e = "EvServe Client"]) (auto simp: life_at_def refines_def)
    then show ?thesis using 3 w2 by (intro exI [of _ "{Client}"]) simp
  qed (use assms(1) l2 w2 in \<open>auto intro!: exI [of _ "{}"]\<close>)
qed

lemma await_ready_log: "await_ready ho lim w = Some (r, w1) \<Longrightarrow> r_log w1 = r_log w"
  by (auto simp: await_ready_def split: option.splits if_splits)

lemma start_life:
  assumes "life_inv b w" "start em ho b w = (r, b1, w1)"
  shows "life_inv b1 w1"
proof -
  obtain b2 w2 where s: "server em ho b w = (b2, w2)" by force
  have l2: "life_inv b2 w2" "n_server_once b2" using server_life [OF assms(1) s] by auto
  show ?thesis
  proof (cases "n_minted b2 \<and> \<not> n_start_once b2")
    case False
    then show ?thesis using assms(2) l2(1) by (auto simp: start_def s split: if_splits)
  next
    case True
    let ?b = "b2\<lparr>n_start_once := True, n_started := True\<rparr>"
    obtain p where p: "life_at p b2 w2" using l2(1) by (auto simp: life_inv_def)
    have q: "life_at (p\<lparr>ph_started := True\<rparr>) ?b (emit EvStart w2)"
      using p True by (intro life_event [OF p, where e = EvStart]) (auto simp: life_at_def refines_def)
    have sv: "ph_served p = {}" using p True by (auto simp: life_at_def refines_def)
    obtain b3 w3 where sp: "serve_peer em ho ?b (emit EvStart w2) = (b3, w3)" by force
    obtain b4 w4 where sc: "serve_client em ho b3 w3 = (b4, w4)" by force
    from serve_peer_life [OF q _ _ _ sp] obtain S where S: "S \<subseteq> {Peer}"
      "life_at (p\<lparr>ph_started := True, ph_served := S\<rparr>) b3 w3" "take 5 (core b3) = take 5 (core ?b)"
      using l2(2) sv by auto
    then have "n_server_once b3" "n_started b3" using l2(2) by (auto simp: core_def)
    from serve_client_life [OF S(2) this _ sc] obtain U where
      l4: "life_at (p\<lparr>ph_started := True, ph_served := U\<rparr>) b4 w4" using S(1) by auto
    have "(r, b1, w1) = (case await_ready ho (wait_done b4) w4 of
             None \<Rightarrow> (Blocked, b4, w4)
           | Some (ready, w4) \<Rightarrow>
               (Started (if \<not> ready \<and> n_start_wait b4 \<noteq> None then Some ''server not ready'' else None),
                b4\<lparr>n_after_func := (n_user_ctx b4 \<noteq> None)\<rparr>,
                if ready then emit EvReady w4 else w4))"
      using assms(2) True by (simp add: start_def s sp sc)
    then have b1: "core b1 = core b4 \<and> mats b1 = mats b4 \<and> (r_log w1 = r_log w4 \<or> r_log w1 = r_log w4 @ [EvReady])"
      by (auto simp: flag_defs dest: await_ready_log split: option.splits if_splits)
    then show ?thesis
      using l4 refines_cong [of b1 b4] by (auto simp: life_inv_def life_at_def replay_append replay_single)
  qed
qed

text \<open>The loop leaves the flags alone and logs attempts only.\<close>

lemma leave_loop_log:
  "\<exists>n\<ge>1. r_log (leave_loop ho d w) = r_log w @ replicate n (EvLeave (ho_member_id ho))
     \<and> (n = 1 \<or> 500 * (int n - 1) < d - r_now w)"
proof (induction ho d w rule: leave_loop.induct)
  case (1 ho d w)
  obtain r w1 where l: "leave_run ho d w = (r, w1)" by force
  have w1: "r_log w1 = r_log w @ [EvLeave (ho_member_id ho)]"
    using l by (auto simp: leave_run_def elapse_def split: prod.splits)
  have t: "r_now w \<le> r_now w1" using leave_run_now l by metis
  show ?case
  proof (cases "r \<noteq> None \<and> r_now w1 + 500 < d")
    case True
    then obtain e where e: "r = Some e" by auto
    then obtain n where n: "n \<ge> 1" "r_log (leave_loop ho d w) = r_log w1 @ replicate n (EvLeave (ho_member_id ho))"
      "n = 1 \<or> 500 * (int n - 1) < d - (r_now w1 + 500)"
      using 1 [OF l [symmetric] e] l True by (auto simp: leave_loop.simps [of ho d w])
    then show ?thesis using w1 t True by (intro exI [of _ "Suc n"]) auto
  next
    case False
    then show ?thesis using w1 by (auto simp: leave_loop.simps [of ho d w] l split: option.splits intro!: exI [of _ 1])
  qed
qed

lemma leave_loop_time:
  assumes "\<And>i t e. snd (fst (ho_leave ho i t e)) \<le> max 0 t"
  shows "r_now (leave_loop ho d w) \<le> max (r_now w) d"
  using assms
proof (induction ho d w rule: leave_loop.induct)
  case (1 ho d w)
  obtain r w1 where l: "leave_run ho d w = (r, w1)" by force
  have t: "r_now w1 \<le> max (r_now w) d"
    using l 1(2) [of "ho_member_id ho" "d - r_now w" "r_env w"]
    by (auto simp: leave_run_def elapse_def split: prod.splits)
  show ?case
    using 1(1) [OF l [symmetric]] 1(2) l t by (auto simp: leave_loop.simps [of ho d w] split: option.splits)
qed

lemma replay_leaves: "ph_started p \<Longrightarrow> \<not> ph_stopped p \<Longrightarrow> replay (replicate n (EvLeave i)) p = Some p"
  by (induction n) auto

lemma shutdown_side_log:
  "shutdown_side ho sd what has w = (e, w1) \<Longrightarrow> r_log w1 = r_log w @ (if has then [EvShutdown sd] else [])"
  by (auto simp: shutdown_side_def shutdown_run_def split: if_splits prod.splits)

text \<open>Everything \<open>Stop\<close> logs, in order.\<close>

lemma stop_log:
  assumes "\<not> n_stop_once b" "stop em ho b w = (es, b1, w1)"
  shows "\<exists>n. r_log w1 = r_log w
      @ (if n_minted b \<and> n_started b \<and> n_leave_on_stop b then replicate n (EvLeave (ho_member_id ho)) else [])
      @ (if \<not> n_minted b then [] else if n_started b then [EvHardStop] else [EvCleanup])
      @ (if n_client_srv b then [EvShutdown Client] else []) @ (if n_peer_srv b then [EvShutdown Peer] else [])
    \<and> 1 \<le> n \<and> (n = 1 \<or> 500 * (int n - 1) < 2 * ho_health_interval ho)"
proof -
  obtain e1 w3 where c: "shutdown_side ho Client ''shutdown client http: '' (n_client_srv b) (teardown b (leave ho b w)) = (e1, w3)"
    by force
  obtain e2 w4 where d: "shutdown_side ho Peer ''shutdown peer http: '' (n_peer_srv b) w3 = (e2, w4)" by force
  have "w1 = w4" using assms by (simp add: stop_def Let_def c d)
  moreover obtain n where "1 \<le> n" "r_log (leave_loop ho (r_now w + 2 * ho_health_interval ho) w) = r_log w @ replicate n (EvLeave (ho_member_id ho))"
    "n = 1 \<or> 500 * (int n - 1) < 2 * ho_health_interval ho"
    using leave_loop_log [of ho "r_now w + 2 * ho_health_interval ho" w] by auto
  ultimately show ?thesis
    using shutdown_side_log [OF c] shutdown_side_log [OF d]
    by (intro exI [of _ n]) (auto simp: teardown_def leave_def)
qed

lemma stop_flags:
  "stop em ho b w = (es, b1, w1) \<Longrightarrow> core b1 = core (b\<lparr>n_stop_once := True\<rparr>) \<and> mats b1 = mats b"
  by (auto simp: stop_def Let_def flag_defs split: if_splits prod.splits)

lemma stop_life:
  assumes "life_inv b w" "stop em ho b w = (es, b1, w1)"
  shows "life_inv b1 w1"
proof (cases "n_stop_once b")
  case True
  then show ?thesis using assms by (simp add: stop_def)
next
  case False
  obtain p where p: "replay (r_log w) phase0 = Some p" "refines b p" using assms(1) by (auto simp: life_inv_def life_at_def)
  have ns: "\<not> ph_stopped p" using p False by (auto simp: refines_def)
  note sf = stop_flags [OF assms(2)]
  have r: "refines b1 (p\<lparr>ph_stopped := st\<rparr>)" for st
    using sf p(2) by (auto simp: refines_def flag_defs)
  have m: "ph_minted p = n_minted b" "ph_started p = n_started b" "n_started b \<longrightarrow> n_minted b"
    "n_client_srv b \<or> n_peer_srv b \<longrightarrow> n_started b" using p(2) by (simp_all add: refines_def)
  obtain n where lg: "r_log w1 = r_log w
      @ (if n_minted b \<and> n_started b \<and> n_leave_on_stop b then replicate n (EvLeave (ho_member_id ho)) else [])
      @ (if \<not> n_minted b then [] else if n_started b then [EvHardStop] else [EvCleanup])
      @ (if n_client_srv b then [EvShutdown Client] else []) @ (if n_peer_srv b then [EvShutdown Peer] else [])"
    using stop_log [OF False assms(2)] by blast
  have "p\<lparr>ph_stopped := False\<rparr> = p" using ns by (cases p) simp
  then have "replay (r_log w1) phase0 = Some (p\<lparr>ph_stopped := n_minted b\<rparr>)"
    unfolding lg using m ns
    by (cases "n_minted b"; cases "n_started b"; cases "n_leave_on_stop b")
      (simp_all add: replay_append p(1) replay_leaves)
  then show ?thesis using r by (auto simp: life_inv_def life_at_def)
qed

section \<open>The calls on a node\<close>

text \<open>One call of the API, the passing of time, or the stop that a cancelled caller context
  triggers after \<open>Start\<close> (\<open>context.AfterFunc\<close>).\<close>

inductive api_step :: "embed_api \<Rightarrow> 'e host \<Rightarrow> node \<times> 'e run \<Rightarrow> node \<times> 'e run \<Rightarrow> bool" for em ho where
  Configure: "api_step em ho (b, w) (apply_setting em s b, w)"
| ClientListener: "client_listener em (bind_run ho Client) b w = bw \<Longrightarrow> api_step em ho (b, w) bw"
| PeerListener: "peer_listener em (bind_run ho Peer) b w = bw \<Longrightarrow> api_step em ho (b, w) bw"
| Server: "server em ho b w = bw \<Longrightarrow> api_step em ho (b, w) bw"
| Self: "self_client em ho b w = (x, bw) \<Longrightarrow> api_step em ho (b, w) bw"
| Grpc: "grpc_server em ho b w = (x, bw) \<Longrightarrow> api_step em ho (b, w) bw"
| Start: "start em ho b w = (r, bw) \<Longrightarrow> api_step em ho (b, w) bw"
| Stop: "stop em ho b w = (es, bw) \<Longrightarrow> api_step em ho (b, w) bw"
| AfterFunc: "n_after_func b \<Longrightarrow> n_user_ctx b = Some c \<Longrightarrow> uc_done c = Some d \<Longrightarrow> d \<le> r_now w
    \<Longrightarrow> stop em ho b w = (es, bw) \<Longrightarrow> api_step em ho (b, w) bw"
| Tick: "api_step em ho (b, w) (b, elapse d w)"

inductive reachable :: "embed_api \<Rightarrow> 'e host \<Rightarrow> node \<times> 'e run \<Rightarrow> bool" for em ho where
  Init: "r_log w = [] \<Longrightarrow> reachable em ho (new_impl em base name tok dir, w)"
| Step: "reachable em ho s \<Longrightarrow> api_step em ho s t \<Longrightarrow> reachable em ho t"

lemma new_impl_flags: "core (new_impl em base name tok dir) = replicate 7 False \<and> mats (new_impl em base name tok dir) = [False, False]"
proof -
  let ?n = "blank_node (default_config base name tok dir)"
  have "core (mutate em Inr ?n) = core ?n \<and> mats (mutate em Inr ?n) = mats ?n" by (rule mutate_flags) simp
  then show ?thesis by (simp add: new_impl_def) (simp add: flag_defs blank_node_def numeral_eq_Suc)
qed

lemma life_new: "r_log w = [] \<Longrightarrow> life_inv (new_impl em base name tok dir) w"
  using new_impl_flags [of em base name tok dir]
  by (auto simp: life_inv_def life_at_def refines_def phase0_def flag_defs numeral_eq_Suc)

lemma api_step_life:
  assumes "api_step em ho (b, w) (b1, w1)" "life_inv b w"
  shows "life_inv b1 w1"
  using assms(1)
proof (cases rule: api_step.cases)
  case (Configure s)
  then show ?thesis using assms(2) setting_flags [of em s b] by (auto simp: life_inv_def intro: life_cong)
next
  case ClientListener
  then show ?thesis using assms(2) client_listener_life by (fastforce simp: life_inv_def)
next
  case PeerListener
  then show ?thesis using assms(2) peer_listener_life by (fastforce simp: life_inv_def)
next
  case (Tick d)
  then show ?thesis using assms(2) by (simp add: life_inv_def life_at_def elapse_def)
next
  case (Server)
  then show ?thesis using assms(2) server_life [of b w em ho b1 w1] by simp
next
  case (Self x)
  then show ?thesis using assms(2) self_client_life [of b w em ho x b1 w1] by simp
next
  case (Grpc x)
  then show ?thesis using assms(2) grpc_server_life [of b w em ho x b1 w1] by simp
next
  case (Start r)
  then show ?thesis using assms(2) start_life [of b w em ho r b1 w1] by simp
next
  case (Stop es)
  then show ?thesis using assms(2) stop_life [of b w em ho es b1 w1] by simp
next
  case (AfterFunc c d es)
  then show ?thesis using assms(2) stop_life [of b w em ho es b1 w1] by simp
qed

lemma reachable_life: "reachable em ho s \<Longrightarrow> life_inv (fst s) (snd s)"
proof (induction rule: reachable.induct)
  case (Step s t)
  then show ?case using api_step_life [of em ho "fst s" "snd s" "fst t" "snd t"] by simp
qed (simp add: life_new)

text \<open>What the contract says in numbers.\<close>

lemma count_Cons: "count_list (e # l) x = of_bool (e = x) + count_list l x"
  by simp

lemma admit_counts:
  assumes "admit e p = Some q"
  shows "of_bool (e = EvStart) + of_bool (ph_started p) = (of_bool (ph_started q) :: nat)"
    and "of_bool (e = EvHardStop) + of_bool (e = EvCleanup) + of_bool (ph_stopped p) = (of_bool (ph_stopped q) :: nat)"
    and "of_bool (e = EvMint True) + of_bool (e = EvMint False) + of_bool (ph_tried p) = (of_bool (ph_tried q) :: nat)"
  using assms by (cases e; auto split: if_splits)+

lemma replay_counts:
  assumes "replay l p = Some q"
  shows "count_list l EvStart + of_bool (ph_started p) = of_bool (ph_started q)
    \<and> count_list l EvHardStop + count_list l EvCleanup + of_bool (ph_stopped p) = of_bool (ph_stopped q)
    \<and> count_list l (EvMint True) + count_list l (EvMint False) + of_bool (ph_tried p) = of_bool (ph_tried q)"
  using assms
proof (induction l arbitrary: p)
  case (Cons e l)
  then obtain p1 where a: "admit e p = Some p1" "replay l p1 = Some q" by (auto simp: bind_eq_Some_conv)
  show ?case using admit_counts [OF a(1)] Cons.IH [OF a(2)] by (simp only: count_Cons) linarith
qed simp

text \<open>Observations that no configuration mutation touches.\<close>

lemma mutate_obs:
  assumes "\<And>b1. f b = Inr b1 \<Longrightarrow> g b1 = g b"
    and "\<And>x c. g (x\<lparr>n_cfg := c\<rparr>) = g x" "\<And>x y. g (x\<lparr>n_srvcfg := y\<rparr>) = g x" "\<And>x y. g (x\<lparr>n_cause := y\<rparr>) = g x"
  shows "g (mutate em f b) = g b"
proof -
  have a: "g (auto_sync x) = g x" "g (latch e x) = g x" for x e
    by (simp_all add: auto_sync_def latch_def assms(2-4))
  show ?thesis
  proof (cases "f b")
    case (Inl e)
    then show ?thesis by (simp add: mutate_def a)
  next
    case (Inr b1)
    then show ?thesis using assms(1) [OF Inr] by (simp add: mutate_def Let_def a assms(3) split: sum.split option.split)
  qed
qed

definition waits :: "node \<Rightarrow> int option \<times> user_ctx option" where
  "waits b = (n_start_wait b, n_user_ctx b)"

definition http_factories :: "node \<Rightarrow> bool \<times> bool" where
  "http_factories b = (n_client_http b, n_peer_http b)"

lemma listener_obs:
  assumes "\<And>x y. g (x\<lparr>n_client_mat := y\<rparr>) = g x" "\<And>x y. g (x\<lparr>n_peer_mat := y\<rparr>) = g x"
    "\<And>x y. g (x\<lparr>n_client_lis := y\<rparr>) = g x" "\<And>x y. g (x\<lparr>n_peer_lis := y\<rparr>) = g x"
    and cfg: "\<And>x c. g (x\<lparr>n_cfg := c\<rparr>) = g x" "\<And>x y. g (x\<lparr>n_srvcfg := y\<rparr>) = g x" "\<And>x y. g (x\<lparr>n_cause := y\<rparr>) = g x"
  shows "client_listener em bind b w = (b1, w1) \<Longrightarrow> g b1 = g b"
    and "peer_listener em bind b w = (b1, w1) \<Longrightarrow> g b1 = g b"
proof -
  have m: "g (mutate em (\<lambda>b. Inr (set_client_urls us (b\<lparr>n_client_lis := l\<rparr>))) x) = g x"
    "g (mutate em (\<lambda>b. Inr (apply_peer_urls k (b\<lparr>n_peer_lis := l\<rparr>))) x) = g x" for us k l x
    by (rule mutate_obs [of _ _ g, OF _ cfg]; auto simp: set_client_urls_def apply_peer_urls_def assms)+
  show "client_listener em bind b w = (b1, w1) \<Longrightarrow> g b1 = g b"
    by (auto simp: client_listener_def Let_def m assms latch_def split: if_splits option.splits sum.splits prod.splits)
  show "peer_listener em bind b w = (b1, w1) \<Longrightarrow> g b1 = g b"
    by (auto simp: peer_listener_def Let_def m assms latch_def split: if_splits option.splits sum.splits prod.splits)
qed

lemma server_obs:
  assumes "\<And>x y. g (x\<lparr>n_client_mat := y\<rparr>) = g x" "\<And>x y. g (x\<lparr>n_peer_mat := y\<rparr>) = g x"
    "\<And>x y. g (x\<lparr>n_client_lis := y\<rparr>) = g x" "\<And>x y. g (x\<lparr>n_peer_lis := y\<rparr>) = g x"
    "\<And>x c. g (x\<lparr>n_cfg := c\<rparr>) = g x" "\<And>x y. g (x\<lparr>n_srvcfg := y\<rparr>) = g x" "\<And>x y. g (x\<lparr>n_cause := y\<rparr>) = g x"
    "\<And>x y. g (x\<lparr>n_server_once := y\<rparr>) = g x" "\<And>x y. g (x\<lparr>n_minted := y\<rparr>) = g x"
    and run: "server em ho b w = (b1, w1)"
  shows "g b1 = g b"
proof -
  note l = listener_obs [of g, OF assms(1-7)]
  have d: "g (with_dir em d x) = g x" for d x
    unfolding with_dir_def by (rule mutate_obs [of _ _ g, OF _ assms(5-7)]) (auto simp: assms)
  have e: "ensure_dir em ho x v = (ok, y, u) \<Longrightarrow> g y = g x" for x y v u ok
    by (auto simp: ensure_dir_def d latch_def assms split: if_splits prod.splits sum.splits)
  show ?thesis using run
    by (auto simp: server_def latch_def assms dest!: e l split: if_splits prod.splits option.splits)
qed

text \<open>What serving a side of a minted node leaves alone.\<close>

lemma self_client_cached: "n_server_once b \<Longrightarrow> self_client em ho b w = (if n_minted b then (True, b\<lparr>n_loopback := True\<rparr>, w) else (False, b, w))"
  by (simp add: self_client_def server_cached)

lemma grpc_server_cached:
  "n_server_once b \<Longrightarrow> \<exists>x l g. grpc_server em ho b w = (x, b\<lparr>n_loopback := l, n_grpc := g\<rparr>, w)"
proof -
  assume o: "n_server_once b"
  show ?thesis
  proof (cases "n_minted b \<and> \<not> n_grpc b")
    case True
    then have "grpc_server em ho b w = (True, b\<lparr>n_loopback := True, n_grpc := True\<rparr>, w)"
      using o by (simp add: grpc_server_def server_cached self_client_cached)
    then show ?thesis by blast
  next
    case False
    then have "\<exists>x. grpc_server em ho b w = (x, b\<lparr>n_loopback := n_loopback b, n_grpc := n_grpc b\<rparr>, w)"
      using o by (auto simp: grpc_server_def server_cached)
    then show ?thesis by blast
  qed
qed

lemma serve_peer_frame:
  assumes "n_server_once b" "serve_peer em ho b w = (b1, w1)"
  shows "waits b1 = waits b \<and> n_started b1 = n_started b \<and> n_server_once b1 \<and> w1\<lparr>r_log := l\<rparr> = w\<lparr>r_log := l\<rparr>
    \<and> (r_log w1 = r_log w \<or> r_log w1 = r_log w @ [EvServe Peer]) \<and> http_factories b1 = http_factories b
    \<and> n_client_srv b1 = n_client_srv b \<and> n_stop_once b1 = n_stop_once b"
  using assms
  by (auto simp: serve_peer_def peer_server_def server_cached waits_def http_factories_def emit_def split: if_splits)

lemma serve_client_frame:
  assumes "n_server_once b" "serve_client em ho b w = (b1, w1)"
  shows "waits b1 = waits b \<and> n_started b1 = n_started b \<and> n_stop_once b1 = n_stop_once b \<and> n_server_once b1
    \<and> w1\<lparr>r_log := l\<rparr> = w\<lparr>r_log := l\<rparr>
    \<and> (r_log w1 = r_log w \<or> n_client_lis b \<noteq> None \<and> (n_client_http b \<or> n_client_srv b) \<and> r_log w1 = r_log w @ [EvServe Client])"
proof -
  obtain x u g where "grpc_server em ho (b\<lparr>n_client_http_once := True\<rparr>) w =
      (x, b\<lparr>n_client_http_once := True, n_loopback := u, n_grpc := g\<rparr>, w)"
    using grpc_server_cached [of "b\<lparr>n_client_http_once := True\<rparr>"] assms(1) by force
  then show ?thesis using assms
    by (auto simp: serve_client_def client_server_def waits_def emit_def split: if_splits)
qed

lemma server_log:
  assumes "server em ho b w = (b1, w1)"
  shows "\<exists>l. r_log w1 = r_log w @ l \<and> set l \<subseteq> {EvBind Client, EvBind Peer, EvMkTemp, EvMint True, EvMint False}"
proof (cases "n_server_once b")
  case True
  then show ?thesis using assms by (simp add: server_def)
next
  case False
  let ?b0 = "b\<lparr>n_server_once := True\<rparr>"
  obtain b2 w2 where c: "client_listener em (bind_run ho Client) ?b0 w = (b2, w2)" by force
  obtain b3 w3 where d: "peer_listener em (bind_run ho Peer) b2 w2 = (b3, w3)" by force
  obtain ok b4 w4 where e: "ensure_dir em ho b3 w3 = (ok, b4, w4)" by (metis prod_cases3)
  obtain r w5 where m: "mint_run ho (n_srvcfg b4) w4 = (r, w5)" by force
  have 1: "r_log w2 = r_log w \<or> r_log w2 = r_log w @ [EvBind Client]" using client_listener_log [OF c] by auto
  have 2: "r_log w3 = r_log w2 \<or> r_log w3 = r_log w2 @ [EvBind Peer]" using peer_listener_log [OF d] by auto
  have 3: "r_log w4 = r_log w3 \<or> r_log w4 = r_log w3 @ [EvMkTemp]"
    using e by (auto simp: ensure_dir_def mktemp_run_def split: if_splits prod.splits sum.splits)
  have 4: "r_log w5 = r_log w4 @ [EvMint (r = None)]" using m by (auto simp: mint_run_def split: prod.splits)
  have "w1 = w4 \<or> w1 = w5" using assms False by (auto simp: server_def c d e m split: if_splits option.splits)
  then show ?thesis using 1 2 3 4 by (elim disjE) auto
qed

lemma serve_minted:
  assumes "n_server_once b" "serve_peer em ho b w = (b2, w2)" "serve_client em ho b2 w2 = (b3, w3)"
  shows "n_minted b3 = n_minted b"
proof -
  have 2: "n_minted b2 = n_minted b" "n_server_once b2"
    using assms(1,2) by (auto simp: serve_peer_def peer_server_def server_cached split: if_splits)
  obtain x u g where "grpc_server em ho (b2\<lparr>n_client_http_once := True\<rparr>) w2 =
      (x, b2\<lparr>n_client_http_once := True, n_loopback := u, n_grpc := g\<rparr>, w2)"
    using grpc_server_cached [of "b2\<lparr>n_client_http_once := True\<rparr>"] 2(2) by force
  then have "n_minted b3 = n_minted b2"
    using assms(3) by (auto simp: serve_client_def client_server_def split: if_splits)
  then show ?thesis using 2 by simp
qed

text \<open>The two ends of a start: nothing to start, or both sides served and the wait for readiness.\<close>

lemma start_phases:
  assumes s: "server em ho b w = (b1, w1)" and run: "start em ho b w = (r, b2, w2)"
  obtains (Idle) "\<not> n_minted b1 \<or> n_start_once b1" "r = Started (if n_minted b1 then None else n_cause b1)" "b2 = b1" "w2 = w1"
  | (Served) b4 w4 l where "n_minted b1" "\<not> n_start_once b1" "waits b4 = waits b1" "n_started b4" "n_minted b4" "n_server_once b4"
      "n_stop_once b4 = n_stop_once b1" "r_now w4 = r_now w1" "r_log w4 = r_log w1 @ EvStart # l"
      "set l \<subseteq> {EvServe Peer, EvServe Client}" "EvServe Client \<in> set l \<longrightarrow> n_client_http b1 \<or> n_client_srv b1"
      "(r, b2, w2) =
        (case await_ready ho (wait_done b4) w4 of
           None \<Rightarrow> (Blocked, b4, w4)
         | Some (ready, w5) \<Rightarrow>
             (Started (if \<not> ready \<and> n_start_wait b4 \<noteq> None then Some ''server not ready'' else None),
              b4\<lparr>n_after_func := (n_user_ctx b4 \<noteq> None)\<rparr>, if ready then emit EvReady w5 else w5))"
proof (cases "n_minted b1 \<and> \<not> n_start_once b1")
  case False
  then show ?thesis using run by (intro Idle) (auto simp: start_def s split: if_splits)
next
  case True
  let ?b = "b1\<lparr>n_start_once := True, n_started := True\<rparr>"
  obtain b3 w3 where sp: "serve_peer em ho ?b (emit EvStart w1) = (b3, w3)" by force
  obtain b4 w4 where sc: "serve_client em ho b3 w3 = (b4, w4)" by force
  have o: "n_server_once ?b" using server_once_after [OF s] by simp
  note p = serve_peer_frame [OF o sp, of "[]"] and c = serve_client_frame [OF _ sc, of "[]"]
  have "r_now w4 = r_now (w4\<lparr>r_log := []\<rparr>)" "r_now w3 = r_now (w3\<lparr>r_log := []\<rparr>)" by simp_all
  then have now: "r_now w4 = r_now w1" using p c by simp
  obtain l where l: "r_log w4 = r_log w1 @ EvStart # l" "set l \<subseteq> {EvServe Peer, EvServe Client}"
      "EvServe Client \<in> set l \<longrightarrow> n_client_http b1 \<or> n_client_srv b1"
    using p c by (auto simp: http_factories_def)
  show ?thesis
    using True run p c now l serve_minted [OF o sp sc]
    by (intro Served [of b4 w4 l]) (auto simp: start_def s sp sc waits_def)
qed

section \<open>A concrete host\<close>

text \<open>A host on which every operation succeeds at once.\<close>

definition demo_host :: "unit host" where
  "demo_host = \<lparr>ho_bind = (\<lambda>sd e. (Inr \<lparr>lis_addr = (if sd = Peer then ''127.0.0.1:7001'' else ''127.0.0.1:7002''), lis_tls = False\<rparr>, e)),
     ho_mktemp = (\<lambda>p f e. (Inr ''/tmp/n1'', e)), ho_mint = (\<lambda>sc f e. (None, f, e)), ho_ready = (\<lambda>e. Some 5),
     ho_tie = True, ho_member_id = 9, ho_health_interval = 5000, ho_leave = (\<lambda>i t e. ((None, min 1 (max 0 t)), e)),
     ho_shutdown = (\<lambda>sd e. (None, e)), ho_status = (\<lambda>t e. ((Inr (False, 1), min 1 (max 0 t)), e))\<rparr>"

definition demo_run0 :: "unit run" where
  "demo_run0 = \<lparr>r_env = (), r_now = 0, r_fs = [], r_log = []\<rparr>"

definition demo_minted :: "node \<times> unit run" where
  "demo_minted = server demo_embed demo_host demo_node demo_run0"

definition demo_started :: "start_result \<times> node \<times> unit run" where
  "demo_started = start demo_embed demo_host demo_node demo_run0"

definition lifecycle_view :: "node \<times> 'e run \<Rightarrow> bool list \<times> bool list \<times> (int option \<times> bool) \<times> event list \<times> int" where
  "lifecycle_view s =
     (core (fst s), mats (fst s), (n_start_wait (fst s), n_user_ctx (fst s) = None), r_log (snd s), r_now (snd s))"

lemma demo_minted_view:
  "lifecycle_view demo_minted =
     ([True, True, False, False, False, False, False], [True, True], (None, True),
      [EvBind Client, EvBind Peer, EvMkTemp, EvMint True], 0)"
  by code_simp

lemma demo_started_view:
  "lifecycle_view (snd demo_started) =
     ([True, True, True, True, False, True, True], [True, True], (None, True),
      [EvBind Client, EvBind Peer, EvMkTemp, EvMint True, EvStart, EvServe Peer, EvServe Client, EvReady], 5)"
  by code_simp

lemma demo_minted_flags:
  "n_minted (fst demo_minted)" "\<not> n_started (fst demo_minted)" "\<not> n_start_once (fst demo_minted)" "\<not> n_stop_once (fst demo_minted)"
  "\<not> n_client_srv (fst demo_minted)" "\<not> n_peer_srv (fst demo_minted)" "n_server_once (fst demo_minted)"
  "n_start_wait (fst demo_minted) = None" "n_user_ctx (fst demo_minted) = None" "r_now (snd demo_minted) = 0"
  "r_log (snd demo_minted) = [EvBind Client, EvBind Peer, EvMkTemp, EvMint True]"
  using demo_minted_view by (simp_all add: lifecycle_view_def core_def)

section \<open>Properties\<close>

text \<open>C0. The lifecycle contract: along every sequence of calls on a fresh node the log follows
  the contract \<open>admit\<close>, and the node's flags refine its phase.  In numbers: the server is
  minted and started at most once, torn down at most once (hard stop or cleanup), and a
  torn-down node has had its \<open>Stop\<close>.\<close>

theorem lifecycle_contract:
  assumes "reachable em ho (b, w)"
  shows "\<exists>p. replay (r_log w) phase0 = Some p \<and> ph_minted p = n_minted b \<and> ph_started p = n_started b
      \<and> (ph_stopped p \<longrightarrow> n_stop_once b)
    \<and> count_list (r_log w) (EvMint True) + count_list (r_log w) (EvMint False) \<le> 1
    \<and> count_list (r_log w) EvStart = of_bool (n_started b)
    \<and> count_list (r_log w) EvHardStop + count_list (r_log w) EvCleanup \<le> of_bool (n_stop_once b)"
proof -
  obtain p where p: "replay (r_log w) phase0 = Some p" "refines b p"
    using reachable_life [OF assms] by (auto simp: life_inv_def life_at_def)
  show ?thesis
    using p replay_counts [OF p(1)] by (intro exI [of _ p]) (auto simp: refines_def phase0_def of_bool_def)
qed

theorem lifecycle_contract_witness:
  "\<exists>(b :: node) (w :: unit run) p. r_log w = [EvBind Client, EvBind Peer, EvMkTemp, EvMint True, EvStart, EvServe Peer, EvServe Client, EvReady]
     \<and> replay (r_log w) phase0 = Some p \<and> ph_started p = n_started b \<and> count_list (r_log w) EvStart = of_bool (n_started b)"
proof -
  obtain r b w where d: "demo_started = (r, b, w)" by (metis prod_cases3)
  have "reachable demo_embed demo_host (demo_node, demo_run0)"
    unfolding demo_node_def by (rule reachable.Init) (simp add: demo_run0_def)
  moreover have "api_step demo_embed demo_host (demo_node, demo_run0) (b, w)"
    using d by (intro api_step.Start [of _ _ _ _ r]) (simp add: demo_started_def)
  ultimately have "reachable demo_embed demo_host (b, w)" by (rule reachable.Step)
  note c = lifecycle_contract [OF this]
  have "r_log w = [EvBind Client, EvBind Peer, EvMkTemp, EvMint True, EvStart, EvServe Peer, EvServe Client, EvReady]"
    using demo_started_view [unfolded d lifecycle_view_def] by simp
  with c show ?thesis by blast
qed





text \<open>C0. Stop before start: a node that was minted (by any accessor) and stopped has released
  its server, yet a later \<open>Start\<close> runs that server, marks the node started, and no later
  \<open>Stop\<close> ever stops it: the two once-guards do not know of each other.\<close>

theorem start_after_cleanup:
  assumes "n_minted b" "n_server_once b" "\<not> n_start_once b" "\<not> n_started b" "\<not> n_stop_once b"
    and st: "stop em ho b w = (es, b1, w1)" and run: "start em ho b1 w1 = (r, b2, w2)"
  shows "EvCleanup \<in> set (r_log w1) \<and> (\<exists>l. r_log w2 = r_log w1 @ EvStart # l) \<and> n_started b2
    \<and> stop em ho b2 w3 = ([], b2, w3)"
proof -
  have f: "n_minted b1" "n_server_once b1" "\<not> n_start_once b1" "\<not> n_started b1" "n_stop_once b1"
    using stop_flags [OF st] assms(1-4) by (simp_all add: core_def)
  have cl: "EvCleanup \<in> set (r_log w1)" using stop_log [OF assms(5) st] assms(1,4) by auto
  from server_cached [OF f(2)] run show ?thesis
  proof (cases rule: start_phases)
    case (Served b4 w4 l)
    have "n_started b2 = n_started b4 \<and> n_stop_once b2 = n_stop_once b4 \<and> (\<exists>l. r_log w2 = r_log w4 @ l)"
      using Served(12) by (auto dest: await_ready_log split: option.splits if_splits)
    then show ?thesis using cl f Served by (auto simp: stop_def)
  qed (use f in simp)
qed

theorem start_after_cleanup_witness:
  "\<exists>b1 w1 l. stop demo_embed demo_host (fst demo_minted) (snd demo_minted) = ([], b1, w1)
     \<and> r_log (snd (snd (start demo_embed demo_host b1 w1))) = r_log w1 @ EvStart # l"
proof -
  obtain es b1 w1 where st: "stop demo_embed demo_host (fst demo_minted) (snd demo_minted) = (es, b1, w1)"
    by (metis prod_cases3)
  obtain r b2 w2 where run: "start demo_embed demo_host b1 w1 = (r, b2, w2)" by (metis prod_cases3)
  have "es = []" using st demo_minted_flags by (auto simp: stop_def Let_def shutdown_side_def)
  with start_after_cleanup [OF demo_minted_flags(1,7,3,2,4) st run, of w1] st run show ?thesis by auto
qed

text \<open>C0. A headless client side cannot be undone: after \<open>WithClientListener(nil)\<close> a later call
  with a listener is accepted and its listener materializes and is advertised, but \<open>Start\<close>
  serves nothing on it (the HTTP factory that the nil cleared is never restored).\<close>

theorem headless_is_sticky:
  fixes w :: "'e run"
  assumes "\<not> n_client_mat b" "\<not> n_server_once b" "\<not> n_client_srv b" "\<not> n_start_once b"
    and cfg: "b1 = configure em [SClient None, SClient (Some l)] b" "n_cause b1 = None"
    and run: "start em ho b1 w = (r, b2, w2)" "r_log w = []"
  shows "c_advertise_client (n_cfg b1) = [listener_url l] \<and> n_client_factory b1 = Given l
    \<and> EvServe Client \<notin> set (r_log w2)"
proof -
  let ?b0 = "with_client_listener em None b"
  have a: "n_cause ?b0 = None"
    using cfg setter.no_error_before [of em "SClient (Some l)" ?b0] by simp
  obtain x sc where x: "?b0 = (auto_sync x)\<lparr>n_srvcfg := sc\<rparr>" "\<not> n_client_http x"
    using a assms(1) unfolding with_client_listener_def
    by (auto elim!: mutate_accepted simp: set_client_urls_def)
  have b0: "\<not> n_client_http ?b0" "\<not> n_client_mat ?b0"
    using x setting_flags [of em "SClient None" b] assms(1) by (simp_all add: auto_sync_def mats_def)
  have e1: "b1 = with_client_listener em (Some l) ?b0" using cfg(1) by simp
  have "\<exists>y sd. with_client_listener em (Some l) z = (auto_sync y)\<lparr>n_srvcfg := sd\<rparr> \<and> \<not> n_client_http y
      \<and> n_client_factory y = Given l \<and> c_advertise_client (n_cfg y) = [listener_url l]"
    if "n_cause (with_client_listener em (Some l) z) = None" "\<not> n_client_http z" "\<not> n_client_mat z" for z
    using that unfolding with_client_listener_def
    by (auto elim!: mutate_accepted simp: set_client_urls_def) (intro exI conjI, rule refl, simp_all)
  then obtain y sd where y: "b1 = (auto_sync y)\<lparr>n_srvcfg := sd\<rparr>" "\<not> n_client_http y" "n_client_factory y = Given l"
      "c_advertise_client (n_cfg y) = [listener_url l]"
    using cfg(2) b0 unfolding e1 by blast
  have b1: "\<not> n_client_http b1" "n_client_factory b1 = Given l" "c_advertise_client (n_cfg b1) = [listener_url l]"
    using y by (simp_all add: auto_sync_def)
  have k: "core b1 = core b"
    using setting_flags [of em "SClient (Some l)" ?b0] setting_flags [of em "SClient None" b] by (simp add: e1)
  obtain b3 w3 where s: "server em ho b1 w = (b3, w3)" by force
  have f3: "\<not> n_client_http b3" "\<not> n_client_srv b3"
    using server_obs [of n_client_http, OF _ _ _ _ _ _ _ _ _ s] server_obs [of n_client_srv, OF _ _ _ _ _ _ _ _ _ s]
      b1 k assms(3) by (simp_all add: core_def)
  have l3: "EvServe Client \<notin> set (r_log w3)" using server_log [OF s] run(2) by auto
  from s run(1) have "EvServe Client \<notin> set (r_log w2)"
  proof (cases rule: start_phases)
    case (Served b4 w4 l)
    then have "EvServe Client \<notin> set (r_log w4)" using l3 f3 by auto
    then show ?thesis using Served(12) by (auto dest: await_ready_log split: option.splits if_splits)
  qed (use l3 in simp)
  then show ?thesis using b1 by simp
qed

theorem headless_is_sticky_witness:
  "c_advertise_client (n_cfg (configure demo_embed [SClient None, SClient (Some demo_lis)] demo_node)) = [listener_url demo_lis]
   \<and> EvServe Client \<notin> set (r_log (snd (snd (start demo_embed demo_host
        (configure demo_embed [SClient None, SClient (Some demo_lis)] demo_node) demo_run0))))"
proof -
  let ?b1 = "configure demo_embed [SClient None, SClient (Some demo_lis)] demo_node"
  have f: "\<not> n_client_mat demo_node" "\<not> n_server_once demo_node" "\<not> n_client_srv demo_node" "\<not> n_start_once demo_node"
    using new_impl_flags [of demo_embed demo_base "''n1''" "[]" "[]"]
    by (simp_all add: demo_node_def core_def mats_def numeral_eq_Suc)
  have c: "n_cause ?b1 = None" by code_simp
  obtain r b2 w2 where run: "start demo_embed demo_host ?b1 demo_run0 = (r, b2, w2)" by (metis prod_cases3)
  have "r_log demo_run0 = []" by (simp add: demo_run0_def)
  from headless_is_sticky [OF f refl c run this] run show ?thesis by simp
qed

end
