(* ===== verification/Join_Client.thy ===== *)
theory Join_Client
  imports Join_Server
begin

text \<open>
  The client half of \<open>v0alpha0/join/join.go\<close>: the request it builds, the wire prelude it
  reads, and how it sorts the answers into success, permanent and retryable failures.
\<close>

section \<open>Definitions\<close>

text \<open>\<open>ErrPermanent\<close> or any other (retryable) error.\<close>

datatype join_err = Permanent string | Retryable string

fun is_permanent :: "join_err \<Rightarrow> bool" where
  "is_permanent (Permanent _) \<longleftrightarrow> True"
| "is_permanent (Retryable _) \<longleftrightarrow> False"

text \<open>The client's HTTP transport: the URL and the request, to a transport error or a response.\<close>

type_synonym 'w transport = "url \<Rightarrow> request \<Rightarrow> 'w \<Rightarrow> (string + response) \<times> 'w"

record add_result =
  ar_self_id :: u64
  ar_cluster_id :: u64
  ar_members :: "member_info list"
  ar_snapshot :: "string \<times> bool"

definition client_do ::
  "'w transport \<Rightarrow> string \<Rightarrow> string \<Rightarrow> string \<Rightarrow> (string \<times> string) list \<Rightarrow> (string \<times> string) list option \<Rightarrow> 'w
   \<Rightarrow> (string + response) \<times> 'w" where
  "client_do send token meth peer_url query body w =
     (case url_parse peer_url of
        None \<Rightarrow> (Inl (''parsing peer URL '' @ go_quote peer_url), w)
      | Some base \<Rightarrow>
          (let full = (join_path base join_url_path)\<lparr>raw_query := values_encode query\<rparr> in
           case url_parse (url_string full) of
             None \<Rightarrow> (Inl ''parse'', w)
           | Some u \<Rightarrow>
               send u \<lparr>req_method = meth, req_path = path u, req_query = raw_query u,
                       req_urlencoded = (body \<noteq> None),
                       req_body = (case body of None \<Rightarrow> [] | Some b \<Rightarrow> values_encode b),
                       req_token = token\<rparr> w))"

definition read_body :: "response \<Rightarrow> string" where
  "read_body r = trim_space (take 4096 (resp_body r))"

text \<open>\<open>Response.Status\<close>: the code and its text; only the code is kept.\<close>

definition status_error :: "response \<Rightarrow> join_err" where
  "status_error r = Retryable (format_nat (resp_status r) @ '': '' @ read_body r)"

text \<open>\<open>json.Unmarshal\<close> into \<open>addPrelude\<close>.\<close>

definition decode_strings :: "json \<Rightarrow> string list option" where
  "decode_strings = json_to_list json_to_string"

definition decode_member :: "json \<Rightarrow> member_info option" where
  "decode_member v =
     Option.bind (json_to_obj v) (\<lambda>kvs.
       Option.bind (json_get json_to_u64 ''ID'' kvs) (\<lambda>mid.
       Option.bind (json_get json_to_string ''Name'' kvs) (\<lambda>nm.
       Option.bind (json_get decode_strings ''PeerURLs'' kvs) (\<lambda>pu.
       Option.bind (json_get decode_strings ''ClientURLs'' kvs) (\<lambda>cu.
       map_option (\<lambda>l. \<lparr>mi_id = mid, mi_name = nm, mi_peer_urls = pu, mi_client_urls = cu, mi_learner = l\<rparr>)
         (json_get json_to_bool ''IsLearner'' kvs))))))"

definition decode_prelude :: "string \<Rightarrow> add_outcome option" where
  "decode_prelude s =
     Option.bind (Option.bind (json_parse s) json_to_obj) (\<lambda>kvs.
       Option.bind (json_get json_to_u64 ''SelfID'' kvs) (\<lambda>mid.
       Option.bind (json_get json_to_u64 ''ClusterID'' kvs) (\<lambda>cid.
       map_option (\<lambda>ms. (mid, cid, ms)) (json_get (json_to_list decode_member) ''Members'' kvs))))"

definition client_add ::
  "'w transport \<Rightarrow> string \<Rightarrow> string \<Rightarrow> string list \<Rightarrow> 'w \<Rightarrow> (join_err + add_result) \<times> 'w" where
  "client_add send token peer_url peer_urls w =
     (case client_do send token ''POST'' peer_url [] (Some [(''peerURLs'', join_with '','' peer_urls)]) w of
        (Inl err, w1) \<Rightarrow> (Inl (Retryable err), w1)
      | (Inr resp, w1) \<Rightarrow>
          if resp_status resp \<noteq> 200 then
            (if resp_status resp = 404 then (Inl (Permanent (read_body resp)), w1)
             else (Inl (status_error resp), w1))
          else
            (let b = resp_body resp in
             if length b < 4 then (Inl (Retryable ''add: reading prelude length''), w1)
             else
               (let n = unat (be32 (take 4 b)); rest = drop 4 b in
                if length rest < n then (Inl (Retryable ''add: reading prelude''), w1)
                else
                  (case decode_prelude (take n rest) of
                     None \<Rightarrow> (Inl (Retryable ''add: decoding prelude''), w1)
                   | Some (mid, cid, ms) \<Rightarrow>
                       (Inr \<lparr>ar_self_id = mid, ar_cluster_id = cid, ar_members = ms,
                             ar_snapshot = (drop n rest, resp_broken resp)\<rparr>, w1)))))"

definition client_reconfig ::
  "'w transport \<Rightarrow> string \<Rightarrow> string \<Rightarrow> string \<Rightarrow> (string \<times> string) list \<Rightarrow> 'w \<Rightarrow> join_err option \<times> 'w" where
  "client_reconfig send token meth peer_url q w =
     (case client_do send token meth peer_url q None w of
        (Inl err, w1) \<Rightarrow> (Some (Retryable err), w1)
      | (Inr resp, w1) \<Rightarrow>
          (if resp_status resp = 200 then None
           else if resp_status resp = 404 then Some (Permanent (read_body resp))
           else Some (status_error resp), w1))"

definition client_promote :: "'w transport \<Rightarrow> string \<Rightarrow> string \<Rightarrow> u64 \<Rightarrow> 'w \<Rightarrow> join_err option \<times> 'w" where
  "client_promote send token peer_url mid =
     client_reconfig send token ''PUT'' peer_url [(''memberID'', format_uint mid)]"

definition client_remove :: "'w transport \<Rightarrow> string \<Rightarrow> string \<Rightarrow> u64 \<Rightarrow> 'w \<Rightarrow> join_err option \<times> 'w" where
  "client_remove send token peer_url mid =
     client_reconfig send token ''DELETE'' peer_url [(''memberID'', format_uint mid)]"

definition client_remove_by_urls ::
  "'w transport \<Rightarrow> string \<Rightarrow> string \<Rightarrow> string list \<Rightarrow> 'w \<Rightarrow> join_err option \<times> 'w" where
  "client_remove_by_urls send token peer_url peer_urls =
     client_reconfig send token ''DELETE'' peer_url [(''peerURLs'', join_with '','' peer_urls)]"

text \<open>A transport that delivers every request to one server's join resource.\<close>

definition direct :: "'s server \<Rightarrow> 's world transport" where
  "direct srv u r w =
     (if req_path r = join_url_path
      then (case serve_http srv r w of (resp, w1) \<Rightarrow> (Inr resp, w1))
      else (Inr (http_error 404 ''404 page not found''), w))"

section \<open>The request a plain peer URL gives\<close>

lemma join_path_plain:
  assumes "path u = []" "raw_path u = []"
  shows "join_path u join_url_path = u\<lparr>path := ''libetcd/v1/join'', raw_path := []\<rparr>"
proof -
  have e: "escaped_path u = []" using assms by (simp add: escaped_path_def)
  have "clean_rooted (''/'' @ [] @ ''/'' @ join_url_path) = ''/libetcd/v1/join''" by code_simp
  moreover have "unescape EncPath ''libetcd/v1/join'' = Some ''libetcd/v1/join''"
    "escape EncPath ''libetcd/v1/join'' = ''libetcd/v1/join''" by code_simp+
  ultimately show ?thesis
    by (simp add: join_path_def e has_prefix_def set_path_def Let_def)
qed

definition plain_url :: "string \<Rightarrow> bool" where
  "plain_url s \<longleftrightarrow>
     (\<exists>sch h t. (sch = ''http'' \<or> sch = ''https'') \<and> plain_host h \<and> plain_tail t \<and> s = sch @ ''://'' @ h @ t)"

lemma escape_host_plain: "list_all plain_host_char h \<Longrightarrow> escape EncHost h = h"
  by (induction h) (auto simp: plain_should_escape)

lemma escape_host_tail: "plain_tail t \<Longrightarrow> escape EncHost t = t"
  using escape_host_plain [of "tl t"]
  by (auto simp: plain_tail_def all_digits_def colon_should_escape list_all_iff digit_url_char)

lemma escape_append: "escape m (s @ t) = escape m s @ escape m t"
  by (induction s) auto

lemma join_url_string:
  assumes "sch = ''http'' \<or> sch = ''https''" "plain_host h" "plain_tail t"
  shows "url_string (url0\<lparr>scheme := sch, host := h @ t, path := ''libetcd/v1/join'', raw_query := q\<rparr>) =
    sch @ ''://'' @ h @ t @ join_url_path @ with_query q"
proof -
  have e: "escape EncHost (h @ t) = h @ t"
    using assms(2,3) by (simp add: escape_append escape_host_plain escape_host_tail plain_host_def)
  have p: "escape EncPath ''libetcd/v1/join'' = ''libetcd/v1/join''" by code_simp
  have "h \<noteq> []" "sch \<noteq> []" using assms(1,2) by (auto simp: plain_host_def)
  then show ?thesis
    by (simp add: url_string_def url0_def escaped_path_def e p user_string_def join_url_path_def
        with_query_def del: escape.simps)
qed

lemma client_do_plain:
  assumes "plain_url peer"
  shows "\<exists>u. client_do send token meth peer q body w =
    send u \<lparr>req_method = meth, req_path = join_url_path, req_query = values_encode q,
            req_urlencoded = (body \<noteq> None),
            req_body = (case body of None \<Rightarrow> [] | Some b \<Rightarrow> values_encode b), req_token = token\<rparr> w"
proof -
  obtain sch h t where s: "sch = ''http'' \<or> sch = ''https''" "plain_host h" "plain_tail t"
    "peer = sch @ ''://'' @ h @ t" using assms unfolding plain_url_def by blast
  let ?u = "url0\<lparr>scheme := sch, host := h @ t\<rparr>"
  let ?p = "''libetcd/v1/join''"
  have b: "url_parse peer = Some ?u" unfolding s(4) using s(1-3) by (rule url_parse_plain)
  have j: "join_path ?u join_url_path = ?u\<lparr>path := ?p, raw_path := []\<rparr>"
    by (rule join_path_plain) (simp_all add: url0_def)
  have p: "list_all url_char ?p" "escape EncPath (CHR ''/'' # ?p) = CHR ''/'' # ?p"
    "unescape EncPath (CHR ''/'' # ?p) = Some (CHR ''/'' # ?p)" by code_simp+
  have "url_parse (url_string ((join_path ?u join_url_path)\<lparr>raw_query := values_encode q\<rparr>)) =
    Some (url0\<lparr>scheme := sch, host := h @ t, path := CHR ''/'' # ?p, raw_query := values_encode q\<rparr>)"
    using join_url_string [OF s(1-3), of "values_encode q"]
      url_parse_path_query [OF s(1-3) p values_encode_char, of q]
    unfolding j by (simp add: url0_def join_url_path_def)
  then show ?thesis
    unfolding client_do_def b
    by (intro exI [of _ "url0\<lparr>scheme := sch, host := h @ t, path := CHR ''/'' # ?p, raw_query := values_encode q\<rparr>"])
      (simp add: Let_def join_url_path_def)
qed

section \<open>The wire prelude\<close>

lemma format_nat_lead: "0 < n \<Longrightarrow> hd (format_nat n) \<noteq> CHR ''0''"
proof (induction n rule: format_nat.induct)
  case (1 n)
  have "digit_char d \<noteq> CHR ''0''" if "0 < d" "d < 10" for d
    using digit_char_props [OF that(2)] that(1) by (auto simp: digit_val_def byte_def)
  moreover have "format_nat (n div 10) \<noteq> []"
    using format_nat_parse [of "n div 10"] by (auto simp: all_digits_def)
  ultimately show ?case using 1 by (auto simp: format_nat.simps [of n])
qed

lemma plain_num_format_uint [simp]: "plain_num (format_uint x)"
proof (cases "unat x = 0")
  case True
  then show ?thesis by (simp add: format_uint_def format_nat.simps plain_num_def all_digits_def digit_char_def byte_class_defs)
next
  case False
  then show ?thesis
    using format_nat_lead [of "unat x"] format_nat_parse [of "unat x"]
    by (auto simp: format_uint_def plain_num_def)
qed

definition wire_member :: "member_info \<Rightarrow> member_info" where
  "wire_member m =
     m\<lparr>mi_name := to_valid (mi_name m), mi_peer_urls := map to_valid (mi_peer_urls m),
       mi_client_urls := map to_valid (mi_client_urls m)\<rparr>"

definition prelude_keys :: "string list" where
  "prelude_keys = [''ID'', ''Name'', ''PeerURLs'', ''ClientURLs'', ''IsLearner'', ''SelfID'', ''ClusterID'', ''Members'']"

lemma prelude_keys_fold: "\<forall>k\<in>set prelude_keys. \<forall>n\<in>set prelude_keys. equal_fold k (to_lower n) \<longleftrightarrow> k = n"
  by code_simp

lemma prelude_keys_valid: "\<forall>k\<in>set prelude_keys. to_valid k = k"
  by code_simp

lemma to_valid_key [simp]:
  "to_valid ''ID'' = ''ID''" "to_valid ''Name'' = ''Name''" "to_valid ''PeerURLs'' = ''PeerURLs''"
  "to_valid ''ClientURLs'' = ''ClientURLs''" "to_valid ''IsLearner'' = ''IsLearner''"
  "to_valid ''SelfID'' = ''SelfID''" "to_valid ''ClusterID'' = ''ClusterID''" "to_valid ''Members'' = ''Members''"
  using prelude_keys_valid by (simp_all add: prelude_keys_def)

lemma json_get_key:
  assumes "n \<in> set prelude_keys" "fst ` set kvs \<subseteq> set prelude_keys"
  shows "json_get f n kvs =
    (case seq_opt (map (\<lambda>kv. f (snd kv)) (filter (\<lambda>(k, v). k = n \<and> v \<noteq> JNull) kvs)) of
       None \<Rightarrow> None | Some [] \<Rightarrow> f JNull | Some vs \<Rightarrow> Some (last vs))"
proof -
  have "filter (\<lambda>(k, v). equal_fold k (to_lower n) \<and> v \<noteq> JNull) kvs = filter (\<lambda>(k, v). k = n \<and> v \<noteq> JNull) kvs"
    using assms prelude_keys_fold by (intro filter_cong) auto
  then show ?thesis by (simp add: json_get_def)
qed

lemma decode_slice: "decode_strings (slice_json xs) = Some xs"
  by (simp add: decode_strings_def slice_json_def o_def)

lemma slice_valid: "json_valid (slice_json xs) = slice_json (map to_valid xs)"
  by (simp add: slice_json_def)

lemma slice_ok: "json_ok (slice_json xs)"
  by (simp add: slice_json_def list_all_iff)

lemma slice_null: "slice_json xs = JNull \<longleftrightarrow> xs = []"
  by (simp add: slice_json_def)

lemma member_json_ok: "json_ok (member_json m)"
  by (simp add: member_json_def slice_ok)

lemma member_json_valid: "json_valid (member_json m) = member_json (wire_member m)"
  by (simp add: member_json_def slice_valid wire_member_def)

lemma seq_opt_single [simp]: "seq_opt [] = Some []" "seq_opt [Some x] = Some [x]"
  by (simp_all add: seq_opt_def)

lemma decode_member_json: "decode_member (member_json m) = Some m"
  unfolding decode_member_def member_json_def
  by (simp add: json_get_key prelude_keys_def decode_slice slice_null)
    (simp add: decode_strings_def)

lemma decode_prelude_print:
  "decode_prelude (json_print (prelude_json (mid, cid, ms))) = Some (mid, cid, map wire_member ms)"
proof -
  have "json_parse (json_print (prelude_json (mid, cid, ms))) =
    Some (prelude_json (mid, cid, map wire_member ms))"
    by (subst json_parse_print)
      (auto simp: prelude_json_def list_all_iff member_json_ok member_json_valid)
  then show ?thesis
    by (simp add: decode_prelude_def prelude_json_def json_get_key prelude_keys_def
        decode_member_json o_def)
qed

section \<open>Client and server together\<close>

definition add_request :: "string \<Rightarrow> string list \<Rightarrow> request" where
  "add_request token urls =
     \<lparr>req_method = ''POST'', req_path = join_url_path, req_query = [], req_urlencoded = True,
      req_body = values_encode [(''peerURLs'', join_with '','' urls)], req_token = token\<rparr>"

definition query_request :: "string \<Rightarrow> string \<Rightarrow> (string \<times> string) list \<Rightarrow> request" where
  "query_request token meth q =
     \<lparr>req_method = meth, req_path = join_url_path, req_query = values_encode q, req_urlencoded = False,
      req_body = [], req_token = token\<rparr>"

lemma values_encode_Nil [simp]: "values_encode [] = []"
  by (simp add: values_encode_def)

lemma parse_query_Nil [simp]: "parse_query [] = []"
  by (simp add: parse_query_def parse_setting_def map_filter_simps)

lemma add_request_form:
  assumes "int (length (req_body (add_request token urls))) \<le> max_form_size"
  shows "form_value (add_request token urls) ''peerURLs'' = join_with '','' urls"
  using assms parse_query_encode [of "[(''peerURLs'', join_with '','' urls)]"]
  by (simp add: form_value_def request_form_def add_request_def)

lemma query_request_form:
  assumes "\<forall>kv\<in>set q. fst kv \<noteq> []"
  shows "form_value (query_request token meth q) k = (case map_of q k of Some v \<Rightarrow> v | None \<Rightarrow> [])"
  using parse_query_encode [OF assms] by (simp add: form_value_def request_form_def query_request_def)

lemma client_do_direct_add:
  assumes "plain_url peer"
  shows "client_do (direct srv) token ''POST'' peer [] (Some [(''peerURLs'', join_with '','' urls)]) w =
    (case serve_add srv (add_request token urls) w of (resp, w1) \<Rightarrow> (Inr resp, w1))"
  using client_do_plain [OF assms, of "direct srv" token "''POST''" "[]" "Some [(''peerURLs'', join_with '','' urls)]" w]
  by (auto simp: direct_def serve_http_def add_request_def split: prod.splits)

lemma client_do_direct_query:
  assumes "plain_url peer"
  shows "client_do (direct srv) token meth peer q None w =
    (case serve_http srv (query_request token meth q) w of (resp, w1) \<Rightarrow> (Inr resp, w1))"
  using client_do_plain [OF assms, of "direct srv" token meth q None w]
  by (auto simp: direct_def query_request_def split: prod.splits)

lemma valid_peer_url_not_Nil: "valid_peer_url u \<Longrightarrow> u \<noteq> []"
proof
  assume "valid_peer_url u" "u = []"
  moreover have "\<not> valid_peer_url []" by code_simp
  ultimately show False by simp
qed

text \<open>The POST handler once it holds the lock, for a request the client built.\<close>

lemma serve_add_direct:
  assumes auth: "credential_ok srv token" "srv_self srv = Some cli"
    and urls: "urls \<noteq> []" "\<forall>u\<in>set urls. valid_peer_url u \<and> CHR '','' \<notin> set u"
    and size: "int (length (req_body (add_request token urls))) \<le> max_form_size"
    and lock: "srv_acquire srv (cluster w) = (None, c)"
  shows "serve_add srv (add_request token urls) w =
    (case add_learner cli urls (w\<lparr>cluster := c, effects := effects w @ [EAcquire]\<rparr>) of
       (Inl (status, err), w2) \<Rightarrow>
         (http_error status (''adding member: '' @ err), snd (call ERelease (srv_release srv) w2))
     | (Inr out, w2) \<Rightarrow>
         (let prelude = json_print (prelude_json out) in
          (case call ESnapshot (ec_snapshot cli) w2 of
             (Inl err, w3) \<Rightarrow>
               (http_error 500 (''snapshot: '' @ ec_err_text cli err), snd (call ERelease (srv_release srv) w3))
           | (Inr (snap, broken), w3) \<Rightarrow>
               (\<lparr>resp_status = 200, resp_body = bytes32 (of_nat (length prelude)) @ prelude @ snap,
                 resp_broken = broken\<rparr>, snd (call ERelease (srv_release srv) w3)))))"
proof -
  have a: "authorize srv (add_request token urls) = Inr cli"
    using auth by (simp add: authorize_Inr add_request_def)
  have f: "form_value (add_request token urls) ''peerURLs'' = join_with '','' urls"
    using size by (rule add_request_form)
  have ne: "join_with '','' urls \<noteq> []"
    using urls valid_peer_url_not_Nil by (cases urls; cases "tl urls") auto
  have s: "split_on (CHR '','') (join_with '','' urls) = urls"
    using urls by (intro split_join) auto
  have v: "find (\<lambda>u. \<not> valid_peer_url u) urls = None"
    using urls(2) by (auto simp: find_None_iff)
  have l: "call EAcquire (srv_acquire srv) w = (None, w\<lparr>cluster := c, effects := effects w @ [EAcquire]\<rparr>)"
    using lock by (simp add: call_def)
  show ?thesis
    unfolding serve_add_def a sum.case f s Let_def v option.case l prod.case if_not_P [OF ne] ..
qed

lemma length_bytes32 [simp]: "length (bytes32 x) = 4"
  by (simp add: bytes32_def)

lemma plain_url_demo: "plain_url ''http://a:2380''"
proof -
  have "plain_host ''a''" "all_digits ''2380''" by code_simp+
  then show ?thesis unfolding plain_url_def plain_tail_def
    by (intro exI [of _ "''http''"] exI [of _ "''a''"] exI [of _ "'':2380''"]) simp
qed

lemma credential_demo: "credential_ok demo_server ''tok''" "srv_self demo_server = Some demo_etcd"
  "srv_acquire demo_server ms = (None, ms)"
  by (simp_all add: credential_ok_def demo_server_def)

lemma urls_demo:
  "[''http://b:2380''] \<noteq> []" "\<forall>u\<in>set [''http://b:2380'']. valid_peer_url u \<and> CHR '','' \<notin> set u"
  "int (length (req_body (add_request ''tok'' [''http://b:2380'']))) \<le> max_form_size"
  by code_simp+

definition demo_new :: member_info where
  "demo_new = \<lparr>mi_id = 2, mi_name = [], mi_peer_urls = [''http://b:2380''], mi_client_urls = [], mi_learner = True\<rparr>"

text \<open>C9. The join RPC is transparent: what the client's Add returns over a plain peer URL is
  exactly the server's outcome (member ID, cluster ID, membership with invalid UTF-8
  replaced, and the snapshot stream with its ending), through the form encoding, the
  authorization, the length prefix and the JSON prelude.\<close>

theorem add_rpc_transparent:
  assumes "plain_url peer" "credential_ok srv token" "srv_self srv = Some cli"
    and "urls \<noteq> []" "\<forall>u\<in>set urls. valid_peer_url u \<and> CHR '','' \<notin> set u"
    and "int (length (req_body (add_request token urls))) \<le> max_form_size"
    and "srv_acquire srv (cluster w) = (None, c)"
    and add: "add_learner cli urls (w\<lparr>cluster := c, effects := effects w @ [EAcquire]\<rparr>) = (Inr (mid, cid, ms), w2)"
    and snap: "ec_snapshot cli (cluster w2) = (Inr (snap, broken), c3)"
    and len: "int (length (json_print (prelude_json (mid, cid, ms)))) < 2 ^ 32"
  shows "fst (client_add (direct srv) token peer urls w) =
    Inr \<lparr>ar_self_id = mid, ar_cluster_id = cid, ar_members = map wire_member ms, ar_snapshot = (snap, broken)\<rparr>"
proof -
  let ?p = "json_print (prelude_json (mid, cid, ms))"
  have n: "unat (of_nat (length ?p) :: 32 word) = length ?p"
  proof -
    have "length ?p < 2 ^ 32" using len by simp
    then show ?thesis by (simp add: unat_of_nat)
  qed
  show ?thesis
    using serve_add_direct [OF assms(2-7)] add snap
    unfolding client_add_def client_do_direct_add [OF assms(1)]
    by (simp add: call_def Let_def n decode_prelude_print split: prod.splits)
qed

theorem add_rpc_transparent_witness:
  "\<exists>ms. fst (client_add (direct demo_server) ''tok'' ''http://a:2380'' [''http://b:2380''] (demo_world [demo_seed])) =
     Inr \<lparr>ar_self_id = 2, ar_cluster_id = 7, ar_members = ms, ar_snapshot = (''SNAP'', False)\<rparr>"
proof -
  let ?w = "demo_world [demo_seed]"
  let ?ms = "to_member_infos [demo_seed] @ [demo_new]"
  have add: "add_learner demo_etcd [''http://b:2380''] (?w\<lparr>cluster := cluster ?w, effects := effects ?w @ [EAcquire]\<rparr>) =
    (Inr (2, 7, ?ms), \<lparr>cluster = [demo_seed, demo_stale], effects = [EAcquire, EAdd [''http://b:2380'']]\<rparr>)"
  proof -
    have "ec_add_learner demo_etcd [''http://b:2380''] [demo_seed] =
      (Inr (2, 7, [demo_seed, demo_stale]), [demo_seed, demo_stale])" by (simp add: demo_simps Let_def)
    then show ?thesis
      by (simp add: add_learner_def call_def demo_world_def to_member_infos_def)
        (simp add: demo_stale_def demo_new_def)
  qed
  have len: "int (length (json_print (prelude_json (2, 7, ?ms)))) < 2 ^ 32" by code_simp
  have snap: "ec_snapshot demo_etcd (cluster \<lparr>cluster = [demo_seed, demo_stale], effects = [EAcquire, EAdd [''http://b:2380'']]\<rparr>)
    = (Inr (''SNAP'', False), [demo_seed, demo_stale])" by (simp add: demo_etcd_def)
  from add_rpc_transparent [OF plain_url_demo credential_demo(1,2) urls_demo credential_demo(3) add snap len]
  show ?thesis by blast
qed



text \<open>C11. Promote and Remove over the RPC: one etcd operation each on exactly the given
  member ID; Promote succeeds when etcd promoted or the member already votes and is permanent
  only for a member that is gone; Remove succeeds when etcd removed or the member is already
  gone and is never permanent.\<close>

theorem reconfig_rpc_transparent:
  assumes "plain_url peer" "credential_ok srv token" "srv_self srv = Some cli"
    and p: "ec_promote cli mid (cluster w) = (pe, c1)" and r: "ec_remove cli mid (cluster w) = (re, c2)"
  shows "snd (client_promote (direct srv) token peer mid w) = w\<lparr>cluster := c1, effects := effects w @ [EPromote mid]\<rparr>
    \<and> (fst (client_promote (direct srv) token peer mid w) = None \<longleftrightarrow> pe = None \<or> pe = Some ErrMemberNotLearner)
    \<and> ((\<exists>m. fst (client_promote (direct srv) token peer mid w) = Some (Permanent m)) \<longleftrightarrow> pe = Some ErrMemberNotFound)
    \<and> snd (client_remove (direct srv) token peer mid w) = w\<lparr>cluster := c2, effects := effects w @ [ERemove mid]\<rparr>
    \<and> (fst (client_remove (direct srv) token peer mid w) = None \<longleftrightarrow> re = None \<or> re = Some ErrMemberNotFound)
    \<and> (\<forall>m. fst (client_remove (direct srv) token peer mid w) \<noteq> Some (Permanent m))"
proof -
  let ?q = "[(''memberID'', format_uint mid)]"
  have a: "authorize srv (query_request token m ?q) = Inr cli" for m
    using assms(2,3) by (simp add: authorize_Inr query_request_def)
  have f: "form_value (query_request token m ?q) ''memberID'' = format_uint mid" for m
    by (subst query_request_form) auto
  have m: "req_method (query_request token m ?q) = m" for m by (simp add: query_request_def)
  note c = client_do_direct_query [OF assms(1)] client_reconfig_def
  have "serve_http srv (query_request token ''PUT'' ?q) w = serve_reconfig srv (query_request token ''PUT'' ?q) promote_op w"
    "serve_http srv (query_request token ''DELETE'' ?q) w = serve_remove srv (query_request token ''DELETE'' ?q) w"
    by (simp_all add: serve_http_def m)
  moreover have "serve_reconfig srv (query_request token ''PUT'' ?q) promote_op w =
    (case (if pe = Some ErrMemberNotLearner then None else pe) of
       None \<Rightarrow> (reply 200 [], w\<lparr>cluster := c1, effects := effects w @ [EPromote mid]\<rparr>)
     | Some err \<Rightarrow> (http_error (if err = ErrMemberNotFound then 404 else 409) (ec_err_text cli err),
                   w\<lparr>cluster := c1, effects := effects w @ [EPromote mid]\<rparr>))"
    by (auto simp: serve_reconfig_def a f promote_op_def call_def p split: option.splits)
  moreover have "serve_remove srv (query_request token ''DELETE'' ?q) w =
    (case re of
       None \<Rightarrow> (reply 200 [], w\<lparr>cluster := c2, effects := effects w @ [ERemove mid]\<rparr>)
     | Some err \<Rightarrow> (if err = ErrMemberNotFound then reply 200 [] else http_error 409 (ec_err_text cli err),
                   w\<lparr>cluster := c2, effects := effects w @ [ERemove mid]\<rparr>))"
    by (auto simp: serve_remove_def a f remove_member_def call_def r split: option.splits)
  ultimately show ?thesis
    by (auto simp: client_promote_def client_remove_def c reply_def http_error_def status_error_def
        split: option.splits if_splits)
qed

theorem reconfig_rpc_transparent_witness:
  "fst (client_promote (direct demo_server) ''tok'' ''http://a:2380'' 2 (demo_world [demo_seed, demo_stale])) = None
   \<and> (\<exists>m. fst (client_promote (direct demo_server) ''tok'' ''http://a:2380'' 9 (demo_world [demo_seed])) = Some (Permanent m))"
proof
  let ?w = "demo_world [demo_seed, demo_stale]" and ?v = "demo_world [demo_seed]"
  have "ec_promote demo_etcd 2 (cluster ?w) = (None, [demo_seed, demo_stale\<lparr>em_learner := False\<rparr>])"
    "ec_remove demo_etcd 2 (cluster ?w) = (None, [demo_seed])" by (simp_all add: demo_simps)
  from reconfig_rpc_transparent [OF plain_url_demo credential_demo(1,2) this]
  show "fst (client_promote (direct demo_server) ''tok'' ''http://a:2380'' 2 ?w) = None" by simp
  have "ec_promote demo_etcd 9 (cluster ?v) = (Some ErrMemberNotFound, [demo_seed])"
    "ec_remove demo_etcd 9 (cluster ?v) = (Some ErrMemberNotFound, [demo_seed])" by (simp_all add: demo_simps)
  from reconfig_rpc_transparent [OF plain_url_demo credential_demo(1,2) this]
  show "\<exists>m. fst (client_promote (direct demo_server) ''tok'' ''http://a:2380'' 9 ?v) = Some (Permanent m)" by simp
qed

end
