(* ===== verification/Discovery_Client.thy ===== *)
theory Discovery_Client
  imports Executor Join_Client
begin

text \<open>
  The discovery client (\<open>v0alpha0/discovery.go\<close>): the sniff of a seed, and its userinfo,
  claim, register and roster operations, with the wait for a non-empty roster.  The HTTP
  client is a parameter, called with the time that is left of the context.
\<close>

section \<open>Seeds\<close>

definition discovery_well_known :: string where
  "discovery_well_known = ''/.well-known/libetcd-discovery''"

record descriptor =
  de_discovery :: string
  de_token :: string
  de_userinfo :: string
  de_claim :: string
  de_register :: string
  de_roster :: string

record seed =
  sd_base :: string
  sd_desc :: descriptor
  sd_token :: string
  sd_timeout :: int

record seed_request =
  sq_method :: string
  sq_url :: url
  sq_bearer :: "string option"
  sq_body :: "string option"

type_synonym 'e seed_http = "int \<Rightarrow> seed_request \<Rightarrow> 'e \<Rightarrow> ((string + response) \<times> int) \<times> 'e"

text \<open>\<open>sd_timeout\<close> is the \<open>Timeout\<close> of the seed's HTTP client.
  \<open>http.NewRequestWithContext\<close> and \<open>Client.Do\<close>, by the deadline of the context.\<close>

definition seed_call ::
  "'e seed_http \<Rightarrow> int \<Rightarrow> string \<Rightarrow> string \<Rightarrow> string option \<Rightarrow> string option \<Rightarrow> 'e run \<Rightarrow> (string + response) \<times> 'e run" where
  "seed_call hc deadline meth raw bearer body w =
     (case url_parse raw of
        None \<Rightarrow> (Inl ''parse'', w)
      | Some u \<Rightarrow>
          (case hc (deadline - r_now w) \<lparr>sq_method = meth, sq_url = u, sq_bearer = bearer, sq_body = body\<rparr> (r_env w) of
             ((r, t), e) \<Rightarrow> (r, elapse t (w\<lparr>r_env := e\<rparr>))))"

definition decode_descriptor :: "string \<Rightarrow> descriptor option" where
  "decode_descriptor s =
     Option.bind (Option.bind (json_decode s) json_to_obj) (\<lambda>kvs.
       Option.bind (json_get json_to_string ''discovery'' kvs) (\<lambda>d.
       Option.bind (json_get json_to_string ''token'' kvs) (\<lambda>t.
       Option.bind (json_get json_to_string ''userinfo'' kvs) (\<lambda>u.
       Option.bind (json_get json_to_string ''claim'' kvs) (\<lambda>c.
       Option.bind (json_get json_to_string ''register'' kvs) (\<lambda>g.
       map_option (\<lambda>r. \<lparr>de_discovery = d, de_token = t, de_userinfo = u, de_claim = c, de_register = g, de_roster = r\<rparr>)
         (json_get json_to_string ''roster'' kvs)))))))"

definition complete_descriptor :: "descriptor \<Rightarrow> bool" where
  "complete_descriptor d \<longleftrightarrow>
     de_discovery d \<noteq> [] \<and> de_userinfo d \<noteq> [] \<and> de_claim d \<noteq> [] \<and> de_register d \<noteq> [] \<and> de_roster d \<noteq> []"

definition probe_seed :: "'e seed_http \<Rightarrow> int \<Rightarrow> string \<Rightarrow> 'e run \<Rightarrow> seed option \<times> 'e run" where
  "probe_seed hc deadline raw w =
     (let base = trim_right_char (CHR ''/'') raw in
      case seed_call hc deadline ''GET'' (base @ discovery_well_known) None None (emit (EvProbe raw) w) of
        (Inl _, w1) \<Rightarrow> (None, w1)
      | (Inr resp, w1) \<Rightarrow>
          if resp_status resp \<noteq> 200 then (None, w1)
          else
            (case decode_descriptor (take 65536 (resp_body resp)) of
               None \<Rightarrow> (None, w1)
             | Some d \<Rightarrow>
                 if complete_descriptor d then (Some \<lparr>sd_base = base, sd_desc = d, sd_token = [], sd_timeout = 30000\<rparr>, w1)
                 else (None, w1)))"

section \<open>Operations\<close>

definition userinfo_url :: "seed \<Rightarrow> string" where
  "userinfo_url s = sd_base s @ de_userinfo (sd_desc s)"

definition seed_do ::
  "'e seed_http \<Rightarrow> seed \<Rightarrow> int \<Rightarrow> string \<Rightarrow> string \<Rightarrow> string option \<Rightarrow> 'e run \<Rightarrow> (string + response) \<times> 'e run" where
  "seed_do hc s deadline meth p body w =
     seed_call hc (min deadline (r_now w + sd_timeout s)) meth (sd_base s @ p) (Some (sd_token s)) body w"

definition seed_status_error :: "string \<Rightarrow> response \<Rightarrow> string" where
  "seed_status_error op resp =
     op @ '': '' @ format_nat (resp_status resp) @ '': '' @ trim_space (take 256 (resp_body resp))"

definition seed_userinfo :: "'e seed_http \<Rightarrow> seed \<Rightarrow> int \<Rightarrow> 'e run \<Rightarrow> (string + string) \<times> 'e run" where
  "seed_userinfo hc s deadline w =
     (case seed_do hc s deadline ''GET'' (de_userinfo (sd_desc s)) None (emit EvUserinfo w) of
        (Inl e, w1) \<Rightarrow> (Inl e, w1)
      | (Inr resp, w1) \<Rightarrow>
          if resp_status resp \<noteq> 200 then (Inl (seed_status_error ''userinfo'' resp), w1)
          else
            (case Option.bind (Option.bind (json_decode (take 65536 (resp_body resp))) json_to_obj)
                    (json_get json_to_string ''sub'') of
               None \<Rightarrow> (Inl ''userinfo: decode'', w1)
             | Some u \<Rightarrow> if u = [] then (Inl ''userinfo: empty sub'', w1) else (Inr u, w1)))"

definition seed_claim :: "'e seed_http \<Rightarrow> seed \<Rightarrow> int \<Rightarrow> 'e run \<Rightarrow> (string + bool) \<times> 'e run" where
  "seed_claim hc s deadline w =
     (case seed_do hc s deadline ''POST'' (de_claim (sd_desc s)) None (emit EvClaim w) of
        (Inl e, w1) \<Rightarrow> (Inl e, w1)
      | (Inr resp, w1) \<Rightarrow>
          (if resp_status resp = 200 then Inr True
           else if resp_status resp = 409 then Inr False
           else Inl (seed_status_error ''claim'' resp), w1))"

definition register_body :: "string \<Rightarrow> string \<Rightarrow> string" where
  "register_body i u = json_print (JObj [(''id'', JStr i), (''url'', JStr u)])"

definition seed_register :: "'e seed_http \<Rightarrow> seed \<Rightarrow> int \<Rightarrow> string \<Rightarrow> string \<Rightarrow> 'e run \<Rightarrow> string option \<times> 'e run" where
  "seed_register hc s deadline i u w =
     (case seed_do hc s deadline ''POST'' (de_register (sd_desc s)) (Some (register_body i u)) (emit (EvRegister u) w) of
        (Inl e, w1) \<Rightarrow> (Some e, w1)
      | (Inr resp, w1) \<Rightarrow>
          (if resp_status resp \<noteq> 200 \<and> resp_status resp \<noteq> 204 then Some (seed_status_error ''register'' resp) else None, w1))"

definition decode_roster :: "string \<Rightarrow> string list option" where
  "decode_roster s =
     Option.bind (Option.bind (json_decode s) json_to_obj) (json_get (json_to_list json_to_string) ''urls'')"

definition seed_roster :: "'e seed_http \<Rightarrow> seed \<Rightarrow> int \<Rightarrow> 'e run \<Rightarrow> (string + string list) \<times> 'e run" where
  "seed_roster hc s deadline w =
     (case seed_do hc s deadline ''GET'' (de_roster (sd_desc s)) None (emit EvRoster w) of
        (Inl e, w1) \<Rightarrow> (Inl e, w1)
      | (Inr resp, w1) \<Rightarrow>
          if resp_status resp \<noteq> 200 then (Inl (seed_status_error ''roster'' resp), w1)
          else
            (case decode_roster (take 1048576 (resp_body resp)) of
               None \<Rightarrow> (Inl ''roster: decode'', w1)
             | Some us \<Rightarrow> (Inr us, w1)))"

lemma elapse_now: "r_now w \<le> r_now (elapse d w)"
  by (simp add: elapse_def)

lemma seed_call_now: "seed_call hc d m u b c w = (r, w1) \<Longrightarrow> r_now w \<le> r_now w1"
  by (auto simp: seed_call_def elapse_def split: option.splits prod.splits)

lemma seed_do_now: "seed_do hc s d m p c w = (r, w1) \<Longrightarrow> r_now w \<le> r_now w1"
  by (auto simp: seed_do_def dest: seed_call_now)

lemma seed_roster_now: "seed_roster hc s d w = (r, w1) \<Longrightarrow> r_now w \<le> r_now w1"
  by (auto simp: seed_roster_def dest!: seed_do_now split: prod.splits sum.splits if_splits option.splits)

text \<open>The roster wait: polled once a second until the context is done.\<close>

function roster_wait :: "'e seed_http \<Rightarrow> seed \<Rightarrow> int \<Rightarrow> 'e run \<Rightarrow> (string + string list) \<times> 'e run" where
  "roster_wait hc s deadline w =
     (case seed_roster hc s deadline w of
        (Inl e, w1) \<Rightarrow> (Inl e, w1)
      | (Inr us, w1) \<Rightarrow>
          if us \<noteq> [] then (Inr us, w1)
          else if r_now w1 + 1000 < deadline then roster_wait hc s deadline (w1\<lparr>r_now := r_now w1 + 1000\<rparr>)
          else (Inl ''roster: empty until deadline'', w1\<lparr>r_now := max (r_now w1) deadline\<rparr>))"
  by pat_completeness auto
termination
  by (relation "measure (\<lambda>(hc, s, deadline, w). nat (deadline - r_now w))") (auto dest!: seed_roster_now [OF sym])

declare roster_wait.simps [simp del]

end
