(* ===== verification/Join_Flow.thy ===== *)
theory Join_Flow
  imports Discovery_Client
begin

text \<open>
  The joiner (\<open>v0alpha0/peer.go\<close>): \<open>Join\<close> with its role decision, the join machinery (add,
  seed, start, promote, confirm), its rollback, the retry loop, and the discovery path.  The
  RPCs are the model of the join client over a timed transport; the local server is the node
  of \<open>Executor\<close>, the seed is written by \<open>Restore\<close>.
\<close>

section \<open>State\<close>

text \<open>\<open>peerJoiner\<close>; \<open>h_keepalive\<close> says that a keepalive runs.\<close>

record handle =
  h_node :: node
  h_peers :: "string list"
  h_joining :: bool
  h_exhausted :: bool
  h_keepalive :: bool

text \<open>The host of a joiner: the node's host, the transport of the join RPCs and of the seed
  (called with the time left of the context), the storage and the faults of \<open>Restore\<close>, and the
  creation of the scratch file.\<close>

record 'e jhost =
  jh_host :: "'e host"
  jh_send :: "int \<Rightarrow> url \<Rightarrow> request \<Rightarrow> 'e \<Rightarrow> ((string + response) \<times> int) \<times> 'e"
  jh_seed :: "'e seed_http"
  jh_storage :: storage
  jh_faults :: "restore_step \<Rightarrow> string option"
  jh_scratch :: "'e \<Rightarrow> string option \<times> 'e"

datatype failure = JExhausted | JInProgress | JConfig string | JMinted | JListeners string | JNoAdvertise
  | JNoPeers "string list" | JLoopback | JAddPermanent "(string \<times> join_err) list"
  | JAddTimeout "(string \<times> join_err) list" | JSeed string | JStart string | JBlocked
  | JPermanent string | JExpired string | JDiscovery string | JRegister string

definition timed :: "'e jhost \<Rightarrow> int \<Rightarrow> 'e run transport" where
  "timed jh deadline u r w =
     (case jh_send jh (deadline - r_now w) u r (r_env w) of ((res, t), e) \<Rightarrow> (res, elapse t (w\<lparr>r_env := e\<rparr>)))"

definition self_peer_urls :: "node \<Rightarrow> string list" where
  "self_peer_urls b = map url_string (c_advertise_peer (n_cfg b))"

definition has_member_data :: "node \<Rightarrow> fs \<Rightarrow> bool" where
  "has_member_data b f \<longleftrightarrow> c_dir (n_cfg b) \<noteq> [] \<and> fs_exists (sub_path (c_dir (n_cfg b)) [''member'', ''wal'']) f"

text \<open>The context that bounds a join: the caller's if it has a deadline, else 90 seconds.\<close>

definition join_done :: "user_ctx option \<Rightarrow> int \<Rightarrow> int" where
  "join_done c now =
     (case c of
        None \<Rightarrow> now + 90000
      | Some u \<Rightarrow>
          (case uc_deadline u of
             Some d \<Rightarrow> (case uc_cancelled u of Some x \<Rightarrow> min d x | None \<Rightarrow> d)
           | None \<Rightarrow> (case uc_cancelled u of Some x \<Rightarrow> min (now + 90000) x | None \<Rightarrow> now + 90000)))"

text \<open>The pre-join probe (30 s) and a single seed call (10 s) on the caller's context.\<close>

definition bounded_done :: "int \<Rightarrow> user_ctx option \<Rightarrow> int \<Rightarrow> int" where
  "bounded_done span c now =
     (case Option.bind c uc_done of None \<Rightarrow> now + span | Some d \<Rightarrow> min d (now + span))"

definition probe_done :: "user_ctx option \<Rightarrow> int \<Rightarrow> int" where
  "probe_done = bounded_done 30000"

definition op_done :: "user_ctx option \<Rightarrow> int \<Rightarrow> int" where
  "op_done = bounded_done 10000"

section \<open>Guards\<close>

record plan =
  pl_done :: int
  pl_peers :: "string list"
  pl_self :: "string list"
  pl_token :: string
  pl_name :: string

definition join_token :: "node \<Rightarrow> string" where
  "join_token b = (if n_join_credential b \<noteq> [] then n_join_credential b else c_cluster_token (n_cfg b))"

text \<open>The part of \<open>joinResolved\<close> before the first request: the checks, in order.\<close>

definition join_prepare ::
  "embed_api \<Rightarrow> 'e jhost \<Rightarrow> string list \<Rightarrow> bool \<Rightarrow> handle \<Rightarrow> 'e run \<Rightarrow> (failure + plan) \<times> handle \<times> 'e run" where
  "join_prepare em jh self_urls race h w =
     (case n_cause (h_node h) of
        Some e \<Rightarrow> (Inl (JConfig e), h, w)
      | None \<Rightarrow>
          if n_minted (h_node h) then (Inl JMinted, h, w)
          else
            (case peer_listener em (bind_run (jh_host jh) Peer) (h_node h) w of (b1, w1) \<Rightarrow>
             case client_listener em (bind_run (jh_host jh) Client) b1 w1 of (b2, w2) \<Rightarrow>
               (let h2 = h\<lparr>h_node := b2\<rparr>; adv = c_advertise_peer (n_cfg b2) in
                case n_cause b2 of
                  Some e \<Rightarrow> (Inl (JListeners e), h2, w2)
                | None \<Rightarrow>
                    if adv = [] then (Inl JNoAdvertise, h2, w2)
                    else
                      (let ds = dial_set (h_peers h) self_urls race;
                           ps = fst (sanitize_peers ds)
                       in if ps = [] then (Inl (JNoPeers ds), h2, w2)
                          else if loopback_only adv \<and> \<not> all_loopback_peers ps then (Inl JLoopback, h2, w2)
                          else (Inr \<lparr>pl_done = join_done (n_user_ctx b2) (r_now w2), pl_peers = ps,
                                     pl_self = self_peer_urls b2, pl_token = join_token b2,
                                     pl_name = c_name (n_cfg b2)\<rparr>, h2, w2)))))"

section \<open>The member add\<close>

fun join_add_to_any ::
  "'e jhost \<Rightarrow> int \<Rightarrow> string \<Rightarrow> string list \<Rightarrow> string list \<Rightarrow> 'e run
   \<Rightarrow> ((string \<times> join_err) list + add_result \<times> string) \<times> 'e run" where
  "join_add_to_any jh deadline token urls [] w = (Inl [], w)"
| "join_add_to_any jh deadline token urls (p # ps) w =
     (case client_add (timed jh deadline) token p urls (emit (EvAdd p) w) of
        (Inr a, w1) \<Rightarrow> (Inr (a, p), w1)
      | (Inl e, w1) \<Rightarrow>
          (case join_add_to_any jh deadline token urls ps w1 of
             (Inl es, w2) \<Rightarrow> (Inl ((p, e) # es), w2)
           | (Inr r, w2) \<Rightarrow> (Inr r, w2)))"

lemma timed_now: "timed jh d u r w = (x, w1) \<Longrightarrow> r_now w \<le> r_now w1"
  by (auto simp: timed_def elapse_def split: prod.splits)

lemma client_do_now: "client_do (timed jh d) tok m p q b w = (x, w1) \<Longrightarrow> r_now w \<le> r_now w1"
  by (auto simp: client_do_def Let_def dest: timed_now split: option.splits)

lemma client_add_now: "client_add (timed jh d) tok p us w = (x, w1) \<Longrightarrow> r_now w \<le> r_now w1"
  by (auto simp: client_add_def Let_def dest!: client_do_now split: prod.splits sum.splits if_splits option.splits)

lemma join_add_to_any_now: "join_add_to_any jh d tok us ps w = (x, w1) \<Longrightarrow> r_now w \<le> r_now w1"
  by (induction ps arbitrary: w x w1) (fastforce dest!: client_add_now split: prod.splits sum.splits)+

text \<open>The add is retried every second until the join context is done.\<close>

function add_loop ::
  "'e jhost \<Rightarrow> plan \<Rightarrow> 'e run \<Rightarrow> (failure + add_result \<times> string) \<times> 'e run" where
  "add_loop jh pl w =
     (case join_add_to_any jh (pl_done pl) (pl_token pl) (pl_self pl) (pl_peers pl) w of
        (Inr r, w1) \<Rightarrow> (Inr r, w1)
      | (Inl es, w1) \<Rightarrow>
          if list_ex (\<lambda>e. is_permanent (snd e)) es then (Inl (JAddPermanent es), w1)
          else if r_now w1 + 1000 < pl_done pl then add_loop jh pl (w1\<lparr>r_now := r_now w1 + 1000\<rparr>)
          else (Inl (JAddTimeout es), w1\<lparr>r_now := max (r_now w1) (pl_done pl)\<rparr>))"
  by pat_completeness auto
termination
  by (relation "measure (\<lambda>(jh, pl, w). nat (pl_done pl - r_now w))") (auto dest!: join_add_to_any_now [OF sym])

declare add_loop.simps [simp del]

section \<open>The seed\<close>

definition name_self :: "u64 \<Rightarrow> string \<Rightarrow> member_info list \<Rightarrow> member_info list" where
  "name_self mid nm ms = map (\<lambda>m. if mi_id m = mid then m\<lparr>mi_name := nm\<rparr> else m) ms"

definition seed_dir :: "embed_api \<Rightarrow> 'e jhost \<Rightarrow> node \<Rightarrow> 'e run \<Rightarrow> (string + string option) \<times> node \<times> 'e run" where
  "seed_dir em jh b w =
     (let dir = c_dir (n_cfg b) in
      if dir = [] then
        (case mktemp_run (jh_host jh) ''libetcd-'' w of
           (Inl e, w1) \<Rightarrow> (Inl (''data dir: '' @ e), b, w1)
         | (Inr d, w1) \<Rightarrow> (Inr (Some d), mutate em (\<lambda>b. Inr (b\<lparr>n_cfg := (n_cfg b)\<lparr>c_dir := d\<rparr>\<rparr>)) b, w1))
      else if fs_exists dir (r_fs w) \<and> \<not> fs_dir_empty dir (r_fs w) then (Inr None, b, w)
      else (Inr (Some dir), b, w))"

definition seed_from_snapshot ::
  "embed_api \<Rightarrow> 'e jhost \<Rightarrow> add_result \<Rightarrow> string \<Rightarrow> node \<Rightarrow> 'e run \<Rightarrow> string option \<times> node \<times> 'e run" where
  "seed_from_snapshot em jh a nm b w =
     (case seed_dir em jh b w of
        (Inl e, b1, w1) \<Rightarrow> (Some e, b1, w1)
      | (Inr None, b1, w1) \<Rightarrow> (None, b1, w1)
      | (Inr (Some dir), b1, w1) \<Rightarrow>
          (case jh_scratch jh (r_env w1) of
             (Some e, e1) \<Rightarrow> (Some e, b1, w1\<lparr>r_env := e1\<rparr>)
           | (None, e1) \<Rightarrow>
               if snd (ar_snapshot a) then (Some ''writing snapshot'', b1, w1\<lparr>r_env := e1\<rparr>)
               else
                 (case restore (jh_storage jh) (jh_faults jh)
                         \<lparr>rc_snapshot = fst (ar_snapshot a), rc_name = nm, rc_self_id = ar_self_id a,
                          rc_cluster_id = ar_cluster_id a, rc_members = name_self (ar_self_id a) nm (ar_members a),
                          rc_data_dir = dir, rc_wal_dir = [], rc_skip_hash = False\<rparr> (r_fs w1) of
                    (Inl e, f) \<Rightarrow> (Some e, b1, (emit EvSeed w1)\<lparr>r_env := e1, r_fs := f\<rparr>)
                  | (Inr _, f) \<Rightarrow> (None, b1, (emit EvSeed w1)\<lparr>r_env := e1, r_fs := f\<rparr>))))"

section \<open>Retrying\<close>

datatype retry_result = Succeeded | GaveUp string | Expired string

text \<open>\<open>retryUntil\<close> with the interval (1 s) and the bound per attempt (5 s) of all its callers.
  The clock does not run backwards.\<close>

function retry_until :: "int \<Rightarrow> (int \<Rightarrow> 'e run \<Rightarrow> join_err option \<times> 'e run) \<Rightarrow> 'e run \<Rightarrow> retry_result \<times> 'e run" where
  "retry_until deadline fn w =
     (case fn (min deadline (r_now w + 5000)) w of
        (None, w1) \<Rightarrow> (Succeeded, w1)
      | (Some (Permanent e), w1) \<Rightarrow> (GaveUp e, w1)
      | (Some (Retryable e), w1) \<Rightarrow>
          (let t = max (r_now w) (r_now w1) in
           if t + 1000 < deadline then retry_until deadline fn (w1\<lparr>r_now := t + 1000\<rparr>)
           else (Expired e, w1\<lparr>r_now := max t deadline\<rparr>)))"
  by pat_completeness auto
termination
  by (relation "measure (\<lambda>(deadline, fn, w). nat (deadline - r_now w))") auto

declare retry_until.simps [simp del]

section \<open>The join\<close>

record progress =
  pg_member :: u64
  pg_peer :: string
  pg_started :: bool

definition progress0 :: progress where
  "progress0 = \<lparr>pg_member = 0, pg_peer = [], pg_started = False\<rparr>"

definition promote_attempt :: "'e jhost \<Rightarrow> string \<Rightarrow> string \<Rightarrow> u64 \<Rightarrow> int \<Rightarrow> 'e run \<Rightarrow> join_err option \<times> 'e run" where
  "promote_attempt jh token peer mid d w = client_promote (timed jh d) token peer mid (emit (EvPromote peer mid) w)"

text \<open>\<open>selfStatus\<close> (its panics are errors) and the check of \<open>confirming voter\<close>.\<close>

definition confirm_attempt :: "'e jhost \<Rightarrow> int \<Rightarrow> 'e run \<Rightarrow> join_err option \<times> 'e run" where
  "confirm_attempt jh d w =
     (case ho_status (jh_host jh) (d - r_now w) (r_env w) of
        ((r, t), e) \<Rightarrow>
          ((case r of
              Inl err \<Rightarrow> Some (Retryable err)
            | Inr (learner, leader) \<Rightarrow>
                if learner then Some (Retryable ''still a learner'')
                else if leader = 0 then Some (Retryable ''no leader in contact yet'')
                else None),
           elapse t ((emit EvStatus w)\<lparr>r_env := e\<rparr>)))"

definition remove_attempt :: "'e jhost \<Rightarrow> string \<Rightarrow> string \<Rightarrow> u64 \<Rightarrow> int \<Rightarrow> 'e run \<Rightarrow> join_err option \<times> 'e run" where
  "remove_attempt jh token peer mid d w =
     (case client_remove (timed jh d) token peer mid (emit (EvRemove peer mid) w) of
        (Some (Permanent _), w1) \<Rightarrow> (None, w1)
      | (r, w1) \<Rightarrow> (r, w1))"

definition retry_failure :: "retry_result \<Rightarrow> failure option" where
  "retry_failure r = (case r of Succeeded \<Rightarrow> None | GaveUp e \<Rightarrow> Some (JPermanent e) | Expired e \<Rightarrow> Some (JExpired e))"

definition pin_existing :: "embed_api \<Rightarrow> node \<Rightarrow> node" where
  "pin_existing em = mutate em (\<lambda>b. Inr (b\<lparr>n_cfg := (n_cfg b)\<lparr>c_existing := True\<rparr>, n_cluster_set := True\<rparr>))"

text \<open>From the member add to the confirmed voter; the progress is what the rollback needs.\<close>

definition join_run ::
  "embed_api \<Rightarrow> 'e jhost \<Rightarrow> plan \<Rightarrow> node \<Rightarrow> 'e run \<Rightarrow> failure option \<times> progress \<times> node \<times> 'e run" where
  "join_run em jh pl b w =
     (case add_loop jh pl w of
        (Inl e, w1) \<Rightarrow> (Some e, progress0, b, w1)
      | (Inr (a, peer), w1) \<Rightarrow>
          (let pg = \<lparr>pg_member = ar_self_id a, pg_peer = peer, pg_started = False\<rparr> in
           case seed_from_snapshot em jh a (pl_name pl) (pin_existing em b) w1 of
             (Some e, b2, w2) \<Rightarrow> (Some (JSeed e), pg, b2, w2)
           | (None, b2, w2) \<Rightarrow>
               (let pg2 = pg\<lparr>pg_started := True\<rparr> in
                case start em (jh_host jh) (b2\<lparr>n_start_wait := Some (pl_done pl)\<rparr>) w2 of
                  (Blocked, b3, w3) \<Rightarrow> (Some JBlocked, pg2, b3, w3)
                | (Started (Some e), b3, w3) \<Rightarrow> (Some (JStart e), pg2, b3, w3)
                | (Started None, b3, w3) \<Rightarrow>
                    (case retry_until (pl_done pl) (promote_attempt jh (pl_token pl) peer (ar_self_id a)) w3 of
                       (r, w4) \<Rightarrow>
                         if r \<noteq> Succeeded then (retry_failure r, pg2, b3, w4)
                         else
                           (case retry_until (pl_done pl) (confirm_attempt jh) w4 of
                              (r, w5) \<Rightarrow> (retry_failure r, pg2, b3, w5))))))"

section \<open>The rollback\<close>

fun sweep :: "'e jhost \<Rightarrow> int \<Rightarrow> string \<Rightarrow> string list \<Rightarrow> string list \<Rightarrow> 'e run \<Rightarrow> 'e run" where
  "sweep jh deadline token urls [] w = w"
| "sweep jh deadline token urls (p # ps) w =
     (case client_remove_by_urls (timed jh deadline) token p urls (emit (EvSweep p) w) of
        (None, w1) \<Rightarrow> w1
      | (Some _, w1) \<Rightarrow> sweep jh deadline token urls ps w1)"

definition handle_stop :: "embed_api \<Rightarrow> 'e jhost \<Rightarrow> handle \<Rightarrow> 'e run \<Rightarrow> string list \<times> handle \<times> 'e run" where
  "handle_stop em jh h w =
     (case stop em (jh_host jh) (h_node h) w of
        (es, b1, w1) \<Rightarrow> (es, h\<lparr>h_keepalive := False, h_node := b1\<rparr>, w1))"

definition abort_join :: "embed_api \<Rightarrow> 'e jhost \<Rightarrow> plan \<Rightarrow> progress \<Rightarrow> handle \<Rightarrow> 'e run \<Rightarrow> handle \<times> 'e run" where
  "abort_join em jh pl pg h w =
     (let deadline = r_now w + 30000;
          h1 = h\<lparr>h_exhausted := h_exhausted h \<or> pg_started pg\<rparr>
      in if pg_member pg = 0 then (h1, sweep jh deadline (pl_token pl) (pl_self pl) (pl_peers pl) w)
         else
           (case retry_until deadline (remove_attempt jh (pl_token pl) (pg_peer pg) (pg_member pg)) w of
              (r, w1) \<Rightarrow>
                if r \<noteq> Succeeded then (h1, w1)
                else if pg_started pg then (case handle_stop em jh h1 w1 of (_, h2, w2) \<Rightarrow> (h2, w2))
                else (h1, w1)))"

definition join_resolved ::
  "embed_api \<Rightarrow> 'e jhost \<Rightarrow> string list \<Rightarrow> bool \<Rightarrow> handle \<Rightarrow> 'e run \<Rightarrow> failure option \<times> handle \<times> 'e run" where
  "join_resolved em jh self_urls race h w =
     (if h_exhausted h then (Some JExhausted, h, w)
      else if h_joining h then (Some JInProgress, h, w)
      else
        (case join_prepare em jh self_urls race (h\<lparr>h_joining := True\<rparr>) w of
           (Inl e, h1, w1) \<Rightarrow> (Some e, h1\<lparr>h_joining := False\<rparr>, w1)
         | (Inr pl, h1, w1) \<Rightarrow>
             (case join_run em jh pl (h_node h1) w1 of
                (None, pg, b2, w2) \<Rightarrow> (None, h1\<lparr>h_node := b2\<rparr>, w2)
              | (Some e, pg, b2, w2) \<Rightarrow>
                  (case abort_join em jh pl pg (h1\<lparr>h_node := b2\<rparr>) w2 of
                     (h3, w3) \<Rightarrow> (Some e, if h_exhausted h3 then h3 else h3\<lparr>h_joining := False\<rparr>, w3)))))"

section \<open>Discovery and Join\<close>

definition seed_from_peers :: "'e jhost \<Rightarrow> handle \<Rightarrow> 'e run \<Rightarrow> seed option \<times> 'e run" where
  "seed_from_peers jh h w =
     (if length (h_peers h) \<noteq> 1 then (None, w)
      else
        (case probe_seed (jh_seed jh) (probe_done (n_user_ctx (h_node h)) (r_now w)) (hd (h_peers h)) w of
           (None, w1) \<Rightarrow> (None, w1)
         | (Some s, w1) \<Rightarrow> (Some (s\<lparr>sd_timeout := 10000\<rparr>), w1)))"

text \<open>\<open>registerWithSeed\<close>; the keepalives are started, their later calls are not part of the run.\<close>

definition register_with_seed :: "'e jhost \<Rightarrow> seed \<Rightarrow> handle \<Rightarrow> 'e run \<Rightarrow> failure option \<times> handle \<times> 'e run" where
  "register_with_seed jh s h w =
     (case self_peer_urls (h_node h) of
        [] \<Rightarrow> (Some (JRegister ''no advertised peer URL to register''), h, w)
      | u # _ \<Rightarrow>
          (case seed_register (jh_seed jh) s (op_done (n_user_ctx (h_node h)) (r_now w)) u u w of
             (Some e, w1) \<Rightarrow> (Some (JRegister e), h, w1)
           | (None, w1) \<Rightarrow> (None, h\<lparr>h_keepalive := True\<rparr>, w1)))"

definition run_start :: "embed_api \<Rightarrow> 'e jhost \<Rightarrow> handle \<Rightarrow> 'e run \<Rightarrow> failure option \<times> handle \<times> 'e run" where
  "run_start em jh h w =
     (case start em (jh_host jh) (h_node h) w of
        (Blocked, b1, w1) \<Rightarrow> (Some JBlocked, h\<lparr>h_node := b1\<rparr>, w1)
      | (Started e, b1, w1) \<Rightarrow> (map_option JStart e, h\<lparr>h_node := b1\<rparr>, w1))"

definition join_via_discovery :: "embed_api \<Rightarrow> 'e jhost \<Rightarrow> seed \<Rightarrow> handle \<Rightarrow> 'e run \<Rightarrow> failure option \<times> handle \<times> 'e run" where
  "join_via_discovery em jh s0 h w =
     (let deadline = join_done (n_user_ctx (h_node h)) (r_now w); jwt = c_cluster_token (n_cfg (h_node h)) in
      if jwt = [] then (Some (JDiscovery ''discovery requires a cluster token (JWT)''), h, w)
      else
        (let s = s0\<lparr>sd_token := jwt\<rparr> in
         case seed_userinfo (jh_seed jh) s deadline w of
           (Inl e, w1) \<Rightarrow> (Some (JDiscovery (''userinfo: '' @ e)), h, w1)
         | (Inr sub, w1) \<Rightarrow>
             (let h1 = h\<lparr>h_node := with_cluster_token em sub
                         ((h_node h)\<lparr>n_join_credential := jwt, n_join_userinfo := userinfo_url s, n_leave_on_stop := True\<rparr>)\<rparr>
              in case seed_claim (jh_seed jh) s deadline w1 of
                   (Inl e, w2) \<Rightarrow> (Some (JDiscovery (''claim: '' @ e)), h1, w2)
                 | (Inr True, w2) \<Rightarrow>
                     (case run_start em jh h1 w2 of
                        (Some e, h2, w3) \<Rightarrow> (Some e, h2, w3)
                      | (None, h2, w3) \<Rightarrow> register_with_seed jh s h2 w3)
                 | (Inr False, w2) \<Rightarrow>
                     (case roster_wait (jh_seed jh) s deadline w2 of
                        (Inl e, w3) \<Rightarrow> (Some (JDiscovery (''roster: '' @ e)), h1, w3)
                      | (Inr peers, w3) \<Rightarrow>
                          (let h2 = h1\<lparr>h_peers := peers\<rparr> in
                           case join_resolved em jh (self_peer_urls (h_node h2)) False h2 w3 of
                             (Some e, h3, w4) \<Rightarrow> (Some e, h3, w4)
                           | (None, h3, w4) \<Rightarrow> register_with_seed jh s h3 w4)))))"

definition join :: "embed_api \<Rightarrow> 'e jhost \<Rightarrow> handle \<Rightarrow> 'e run \<Rightarrow> failure option \<times> handle \<times> 'e run" where
  "join em jh h w =
     (if \<not> n_minted (h_node h) \<and> has_member_data (h_node h) (r_fs w) then run_start em jh h w
      else
        (case seed_from_peers jh h w of
           (Some s, w1) \<Rightarrow> join_via_discovery em jh s h w1
         | (None, w1) \<Rightarrow>
             if h_peers h = [] then run_start em jh h w1
             else
               (let self = self_peer_urls (h_node h); role = bootstrap_role (h_peers h) self in
                if snd role \<and> fst role then run_start em jh h w1
                else join_resolved em jh self (snd role) h w1)))"

text \<open>\<open>From\<close>: a fresh handle over the arguments and the environment.\<close>

definition join_from :: "embed_api \<Rightarrow> config \<Rightarrow> string \<Rightarrow> string \<Rightarrow> string \<Rightarrow> string list \<Rightarrow> string \<Rightarrow> handle" where
  "join_from em base name env_token env_dir peers env =
     \<lparr>h_node = new_impl em base name env_token env_dir, h_peers = peers @ env_peers env,
      h_joining = False, h_exhausted = False, h_keepalive = False\<rparr>"

section \<open>Growth of the log\<close>

definition grows :: "event set \<Rightarrow> 'e run \<Rightarrow> 'e run \<Rightarrow> bool" where
  "grows S w w1 \<longleftrightarrow> (\<exists>l. r_log w1 = r_log w @ l \<and> set l \<subseteq> S)"

named_theorems grow_intros

lemma grows_refl [simp]: "grows S w w"
  by (simp add: grows_def)

lemma grows_same: "r_log w1 = r_log w \<Longrightarrow> grows S w w1"
  by (simp add: grows_def)

lemma grows_trans: "grows S w w1 \<Longrightarrow> grows S w1 w2 \<Longrightarrow> grows S w w2"
  by (auto simp: grows_def)

lemma grows_mono: "grows S w w1 \<Longrightarrow> S \<subseteq> T \<Longrightarrow> grows T w w1"
  unfolding grows_def by blast

lemma grows_emit: "grows S (emit e w) w1 \<Longrightarrow> e \<in> S \<Longrightarrow> grows S w w1"
  by (auto simp: grows_def)

lemma timed_log: "timed jh d u r w = (x, w1) \<Longrightarrow> r_log w1 = r_log w \<and> r_fs w1 = r_fs w"
  by (auto simp: timed_def elapse_def split: prod.splits)

lemma client_do_log: "client_do (timed jh d) tok m p q b w = (x, w1) \<Longrightarrow> r_log w1 = r_log w \<and> r_fs w1 = r_fs w"
  by (auto simp: client_do_def Let_def dest: timed_log split: option.splits)

lemma client_add_log: "client_add (timed jh d) tok p us w = (x, w1) \<Longrightarrow> r_log w1 = r_log w \<and> r_fs w1 = r_fs w"
  by (auto simp: client_add_def Let_def dest!: client_do_log split: prod.splits sum.splits if_splits option.splits)

lemma client_reconfig_log:
  "client_reconfig (timed jh d) tok m p q w = (x, w1) \<Longrightarrow> r_log w1 = r_log w \<and> r_fs w1 = r_fs w"
  by (auto simp: client_reconfig_def dest!: client_do_log split: prod.splits sum.splits)

lemma client_reconfig_now: "client_reconfig (timed jh d) tok m p q w = (x, w1) \<Longrightarrow> r_now w \<le> r_now w1"
  by (auto simp: client_reconfig_def dest!: client_do_now split: prod.splits sum.splits)

lemma add_any_grows:
  "join_add_to_any jh d tok us ps w = (x, w1) \<Longrightarrow> grows (EvAdd ` set ps) w w1"
proof (induction ps arbitrary: w x w1)
  case (Cons p ps)
  obtain r w2 where a: "client_add (timed jh d) tok p us (emit (EvAdd p) w) = (r, w2)" by force
  have g: "grows (EvAdd ` set (p # ps)) w w2"
    using client_add_log [OF a] by (simp add: grows_def)
  show ?case
  proof (cases r)
    case (Inr y)
    then show ?thesis using Cons.prems a g by simp
  next
    case (Inl e)
    obtain y w3 where y: "join_add_to_any jh d tok us ps w2 = (y, w3)" by force
    have "w1 = w3" using Cons.prems a Inl y by (auto split: sum.splits)
    moreover have "grows (EvAdd ` set (p # ps)) w2 w3" using Cons.IH [OF y] by (rule grows_mono) auto
    ultimately show ?thesis using g grows_trans by blast
  qed
qed simp

lemma add_loop_grows: "add_loop jh pl w = (x, w1) \<Longrightarrow> grows (EvAdd ` set (pl_peers pl)) w w1"
proof (induction jh pl w arbitrary: x w1 rule: add_loop.induct)
  case (1 jh pl w)
  obtain r w2 where a: "join_add_to_any jh (pl_done pl) (pl_token pl) (pl_self pl) (pl_peers pl) w = (r, w2)" by force
  note g = add_any_grows [OF a]
  show ?case
  proof (cases "\<exists>es. r = Inl es \<and> \<not> list_ex (\<lambda>e. is_permanent (snd e)) es \<and> r_now w2 + 1000 < pl_done pl")
    case True
    then obtain es where es: "r = Inl es" "\<not> list_ex (\<lambda>e. is_permanent (snd e)) es" "r_now w2 + 1000 < pl_done pl" by blast
    have "add_loop jh pl w = add_loop jh pl (w2\<lparr>r_now := r_now w2 + 1000\<rparr>)"
      using a es by (simp add: add_loop.simps [of jh pl w])
    with "1.prems" "1.IH" [OF a [symmetric] es(1) _ es(3), of x w1] es(2) have "grows (EvAdd ` set (pl_peers pl)) (w2\<lparr>r_now := r_now w2 + 1000\<rparr>) w1" by simp
    then show ?thesis using g by (auto simp: grows_def)
  next
    case False
    then have "r_log w1 = r_log w2"
      using "1.prems" a by (auto simp: add_loop.simps [of jh pl w] split: sum.splits if_splits)
    then show ?thesis using g by (simp add: grows_def)
  qed
qed

section \<open>The retry loop\<close>

text \<open>Every attempt logs one event and keeps to its budget: what a run of attempts looks like.\<close>

definition attempts :: "event \<Rightarrow> (int \<Rightarrow> 'e run \<Rightarrow> join_err option \<times> 'e run) \<Rightarrow> bool" where
  "attempts ev fn \<longleftrightarrow>
     (\<forall>d w. r_log (snd (fn d w)) = r_log w @ [ev] \<and> r_now w \<le> r_now (snd (fn d w)) \<and> r_fs (snd (fn d w)) = r_fs w)"

definition on_time :: "(int \<Rightarrow> 'e run \<Rightarrow> join_err option \<times> 'e run) \<Rightarrow> bool" where
  "on_time fn \<longleftrightarrow> (\<forall>d w. r_now (snd (fn d w)) \<le> max (r_now w) d)"

lemma attemptsD:
  "attempts ev fn \<Longrightarrow> fn d w = (r, w1) \<Longrightarrow> r_log w1 = r_log w @ [ev] \<and> r_now w \<le> r_now w1 \<and> r_fs w1 = r_fs w"
  unfolding attempts_def by (metis snd_conv)

lemma on_timeD: "on_time fn \<Longrightarrow> fn d w = (r, w1) \<Longrightarrow> r_now w1 \<le> max (r_now w) d"
  unfolding on_time_def by (metis snd_conv)

lemma retry_until_step:
  assumes "fn (min deadline (r_now w + 5000)) w = (r, w1)"
  shows "retry_until deadline fn w =
    (case r of
       None \<Rightarrow> (Succeeded, w1)
     | Some (Permanent e) \<Rightarrow> (GaveUp e, w1)
     | Some (Retryable e) \<Rightarrow>
         (let t = max (r_now w) (r_now w1) in
          if t + 1000 < deadline then retry_until deadline fn (w1\<lparr>r_now := t + 1000\<rparr>)
          else (Expired e, w1\<lparr>r_now := max t deadline\<rparr>)))"
  using assms by (simp add: retry_until.simps [of deadline fn w])

lemma retry_until_run:
  assumes "attempts ev fn" "retry_until deadline fn w = (x, w1)"
  shows "(\<exists>n\<ge>1. r_log w1 = r_log w @ replicate n ev \<and> (n = 1 \<or> 1000 * (int n - 1) < deadline - r_now w))
    \<and> r_now w \<le> r_now w1 \<and> r_fs w1 = r_fs w
    \<and> (on_time fn \<longrightarrow> r_now w1 \<le> max (r_now w) deadline)
    \<and> (x = Succeeded \<longrightarrow> (\<exists>d v. fn d v = (None, w1)))"
  using assms
proof (induction deadline fn w arbitrary: x w1 rule: retry_until.induct)
  case (1 deadline fn w)
  obtain r w2 where a: "fn (min deadline (r_now w + 5000)) w = (r, w2)" by force
  note l = attemptsD [OF "1.prems"(1) a] and st = retry_until_step [of fn deadline w, OF a]
  have t: "on_time fn \<Longrightarrow> r_now w2 \<le> max (r_now w) (min deadline (r_now w + 5000))" using on_timeD a by blast
  have one: "r_log w2 = r_log w @ replicate 1 ev" using l by simp
  show ?case
  proof (cases "\<exists>e. r = Some (Retryable e) \<and> max (r_now w) (r_now w2) + 1000 < deadline")
    case True
    then obtain e where e: "r = Some (Retryable e)" "max (r_now w) (r_now w2) + 1000 < deadline" by blast
    let ?w3 = "w2\<lparr>r_now := max (r_now w) (r_now w2) + 1000\<rparr>"
    have run: "retry_until deadline fn ?w3 = (x, w1)" using "1.prems"(2) st e by (simp add: Let_def)
    note ih = "1.IH" [OF a [symmetric] e(1) refl refl e(2) "1.prems"(1) run]
    obtain n where n: "n \<ge> 1" "r_log w1 = r_log w2 @ replicate n ev"
      "n = 1 \<or> 1000 * (int n - 1) < deadline - (max (r_now w) (r_now w2) + 1000)" using ih by auto
    have "r_log w1 = r_log w @ replicate (Suc n) ev" using n(2) one by simp
    moreover have "1000 * (int (Suc n) - 1) < deadline - r_now w" using n(3) e(2) by auto
    ultimately show ?thesis using ih l e(2) by (auto simp: max_def split: if_splits intro!: exI [of _ "Suc n"])
  next
    case False
    consider "r = None" "x = Succeeded" "w1 = w2" | e where "x = GaveUp e" "w1 = w2"
      | e where "x = Expired e" "w1 = w2\<lparr>r_now := max (max (r_now w) (r_now w2)) deadline\<rparr>"
      using "1.prems"(2) st False
      by (auto simp: Let_def split: option.splits join_err.splits if_splits)
    moreover have "r = None \<Longrightarrow> \<exists>d v. fn d v = (None, w2)" using a by blast
    ultimately show ?thesis
      using one l t by cases (auto intro!: exI [of _ "1 :: nat"] simp: min_def max_def split: if_splits)
  qed
qed

lemma attempts_promote: "attempts (EvPromote peer mid) (promote_attempt jh tok peer mid)"
  unfolding attempts_def promote_attempt_def client_promote_def
  by (metis (no_types, lifting) client_reconfig_log client_reconfig_now emit_other(2,3,4) prod.collapse)

lemma attempts_confirm: "attempts EvStatus (confirm_attempt jh)"
  by (auto simp: attempts_def confirm_attempt_def elapse_def split: prod.split)

lemma remove_attempt_world: "snd (remove_attempt jh tok peer mid d w) = snd (client_remove (timed jh d) tok peer mid (emit (EvRemove peer mid) w))"
  by (simp add: remove_attempt_def split: prod.split option.split join_err.split)

lemma attempts_remove: "attempts (EvRemove peer mid) (remove_attempt jh tok peer mid)"
  unfolding attempts_def remove_attempt_world client_remove_def
  by (metis (no_types, lifting) client_reconfig_log client_reconfig_now emit_other(2,3,4) prod.collapse)

text \<open>Transports that honour the budget they are given.\<close>

definition punctual :: "'e jhost \<Rightarrow> bool" where
  "punctual jh \<longleftrightarrow>
     (\<forall>t u r e. snd (fst (jh_send jh t u r e)) \<le> max 0 t)
     \<and> (\<forall>t e. snd (fst (ho_status (jh_host jh) t e)) \<le> max 0 t)
     \<and> (\<forall>i t e. snd (fst (ho_leave (jh_host jh) i t e)) \<le> max 0 t)"

lemma timed_on_time: "punctual jh \<Longrightarrow> timed jh d u r w = (x, w1) \<Longrightarrow> r_now w1 \<le> max (r_now w) d"
proof -
  assume "punctual jh" "timed jh d u r w = (x, w1)"
  moreover obtain res t e where "jh_send jh (d - r_now w) u r (r_env w) = ((res, t), e)" by (metis prod_cases3 surj_pair)
  moreover have "snd (fst (jh_send jh (d - r_now w) u r (r_env w))) \<le> max 0 (d - r_now w)"
    using \<open>punctual jh\<close> unfolding punctual_def by blast
  ultimately show ?thesis by (auto simp: timed_def elapse_def)
qed

lemma client_do_on_time: "punctual jh \<Longrightarrow> client_do (timed jh d) tok m p q b w = (x, w1) \<Longrightarrow> r_now w1 \<le> max (r_now w) d"
  by (auto simp: client_do_def Let_def dest: timed_on_time split: option.splits)

lemma client_add_on_time: "punctual jh \<Longrightarrow> client_add (timed jh d) tok p us w = (x, w1) \<Longrightarrow> r_now w1 \<le> max (r_now w) d"
  by (auto simp: client_add_def Let_def dest!: client_do_on_time split: prod.splits sum.splits if_splits option.splits)

lemma client_reconfig_on_time:
  "punctual jh \<Longrightarrow> client_reconfig (timed jh d) tok m p q w = (x, w1) \<Longrightarrow> r_now w1 \<le> max (r_now w) d"
  by (auto simp: client_reconfig_def dest!: client_do_on_time split: prod.splits sum.splits)

lemma on_time_promote: "punctual jh \<Longrightarrow> on_time (promote_attempt jh tok peer mid)"
  unfolding on_time_def promote_attempt_def client_promote_def
  by (metis client_reconfig_on_time emit_other(2) prod.collapse)

lemma on_time_remove: "punctual jh \<Longrightarrow> on_time (remove_attempt jh tok peer mid)"
  unfolding on_time_def remove_attempt_world client_remove_def
  by (metis client_reconfig_on_time emit_other(2) prod.collapse)

lemma on_time_confirm:
  fixes jh :: "'e jhost"
  assumes "punctual jh"
  shows "on_time (confirm_attempt jh)"
  unfolding on_time_def
proof (intro allI)
  fix d and w :: "'e run"
  have "snd (fst (ho_status (jh_host jh) (d - r_now w) (r_env w))) \<le> max 0 (d - r_now w)"
    using assms unfolding punctual_def by blast
  then show "r_now (snd (confirm_attempt jh d w)) \<le> max (r_now w) d"
    by (auto simp: confirm_attempt_def elapse_def split: prod.splits)
qed

lemma add_any_on_time:
  "punctual jh \<Longrightarrow> join_add_to_any jh d tok us ps w = (x, w1) \<Longrightarrow> r_now w1 \<le> max (r_now w) d"
proof (induction ps arbitrary: w x w1)
  case (Cons p ps)
  obtain r w2 where a: "client_add (timed jh d) tok p us (emit (EvAdd p) w) = (r, w2)" by force
  obtain y w3 where y: "join_add_to_any jh d tok us ps w2 = (y, w3)" by force
  have "w1 = w2 \<or> w1 = w3" using Cons.prems a y by (auto split: sum.splits)
  then show ?case using client_add_on_time [OF Cons.prems(1) a] Cons.IH [OF Cons.prems(1) y] by auto
qed simp

lemma add_loop_time:
  assumes "add_loop jh pl w = (x, w1)"
  shows "r_now w \<le> r_now w1 \<and> (punctual jh \<longrightarrow> r_now w1 \<le> max (r_now w) (pl_done pl))"
  using assms
proof (induction jh pl w arbitrary: x w1 rule: add_loop.induct)
  case (1 jh pl w)
  obtain r w2 where a: "join_add_to_any jh (pl_done pl) (pl_token pl) (pl_self pl) (pl_peers pl) w = (r, w2)" by force
  note n = join_add_to_any_now [OF a]
  have t: "punctual jh \<Longrightarrow> r_now w2 \<le> max (r_now w) (pl_done pl)" using add_any_on_time a by blast
  show ?case
  proof (cases "\<exists>es. r = Inl es \<and> \<not> list_ex (\<lambda>e. is_permanent (snd e)) es \<and> r_now w2 + 1000 < pl_done pl")
    case True
    then obtain es where es: "r = Inl es" "\<not> list_ex (\<lambda>e. is_permanent (snd e)) es" "r_now w2 + 1000 < pl_done pl" by blast
    have "add_loop jh pl w = add_loop jh pl (w2\<lparr>r_now := r_now w2 + 1000\<rparr>)"
      using a es by (simp add: add_loop.simps [of jh pl w])
    with "1.prems" "1.IH" [OF a [symmetric] es(1) _ es(3), of x w1] es(2)
    show ?thesis using n es(3) by (auto simp: max_def split: if_splits)
  next
    case False
    then have "r_now w1 = r_now w2 \<or> r_now w1 = max (r_now w2) (pl_done pl)"
      using "1.prems" a by (auto simp: add_loop.simps [of jh pl w] split: sum.splits if_splits)
    then show ?thesis using n t by auto
  qed
qed

lemma bind_run_frame: "bind_run ho sd w = (r, w1) \<Longrightarrow> r_now w1 = r_now w \<and> r_fs w1 = r_fs w"
  by (auto simp: bind_run_def split: prod.splits)

lemma factory_frame: "run_factory (bind_run ho sd) f w = (r, w1) \<Longrightarrow> r_now w1 = r_now w \<and> r_fs w1 = r_fs w"
  by (auto simp: run_factory_def dest: bind_run_frame split: factory.splits prod.splits)

lemma listener_frame:
  "client_listener em (bind_run ho Client) b w = (b1, w1) \<Longrightarrow> r_now w1 = r_now w \<and> r_fs w1 = r_fs w"
  "peer_listener em (bind_run ho Peer) b w = (b1, w1) \<Longrightarrow> r_now w1 = r_now w \<and> r_fs w1 = r_fs w"
  by (auto simp: client_listener_def peer_listener_def Let_def dest!: factory_frame
      split: if_splits option.splits sum.splits prod.splits)

lemma server_now: "server em ho b w = (b1, w1) \<Longrightarrow> r_now w1 = r_now w"
  by (auto simp: server_def ensure_dir_def mktemp_run_def mint_run_def dest!: listener_frame
      split: if_splits prod.splits option.splits sum.splits)

text \<open>A first call of \<open>Server\<close> mints or latches its error; serving keeps the mint.\<close>

lemma server_minted_or_latched:
  assumes "\<not> n_server_once b" "server em ho b w = (b1, w1)"
  shows "n_minted b1 \<or> n_cause b1 \<noteq> None"
proof -
  have "n_minted (fst (server em ho b w)) \<or> n_cause (fst (server em ho b w)) \<noteq> None"
    using assms(1) unfolding server_def ensure_dir_def Let_def if_not_P [OF assms(1)]
    by (auto split: prod.split option.split sum.split simp: latch_cause [unfolded not_None_eq])
  then show ?thesis by (simp add: assms(2))
qed

text \<open>\<open>Start\<close> under the join bound.\<close>

definition node_events :: "event set" where
  "node_events = {EvBind Client, EvBind Peer, EvMkTemp, EvMint True, EvMint False, EvStart, EvServe Client, EvServe Peer, EvReady}"

lemma await_ready_bounded:
  "\<exists>ready w1. await_ready ho (Some d) w = Some (ready, w1) \<and> r_now w \<le> r_now w1 \<and> r_now w1 \<le> max (r_now w) d
     \<and> r_log w1 = r_log w"
  by (cases "ho_ready ho (r_env w)") (auto simp: await_ready_def)

lemma start_join:
  assumes "n_start_wait b = Some d" "start em ho b w = (r, b1, w1)"
  shows "r \<noteq> Blocked \<and> r_now w \<le> r_now w1 \<and> r_now w1 \<le> max (r_now w) d \<and> grows node_events w w1
    \<and> n_stop_once b1 = n_stop_once b \<and> n_server_once b1"
proof -
  obtain b2 w2 where s: "server em ho b w = (b2, w2)" by force
  note n = server_now [OF s]
  have g: "grows node_events w w2" using server_log [OF s] by (auto simp: grows_def node_events_def)
  have wt: "n_start_wait b2 = Some d" "n_stop_once b2 = n_stop_once b"
    using server_obs [of n_start_wait, OF _ _ _ _ _ _ _ _ _ s] server_obs [of n_stop_once, OF _ _ _ _ _ _ _ _ _ s]
      assms(1) by simp_all
  from s assms(2) show ?thesis
  proof (cases rule: start_phases)
    case Idle
    then show ?thesis using n g wt server_once_after [OF s] by (auto split: if_splits)
  next
    case (Served b4 w4 l)
    have wd: "wait_done b4 = Some d" using Served(3) wt by (simp add: wait_done_def waits_def)
    obtain ready w5 where aw: "await_ready ho (Some d) w4 = Some (ready, w5)" "r_now w4 \<le> r_now w5" "r_now w5 \<le> max (r_now w4) d"
      "r_log w5 = r_log w4"
      using await_ready_bounded by blast
    have e: "r \<noteq> Blocked" "b1 = b4\<lparr>n_after_func := (n_user_ctx b4 \<noteq> None)\<rparr>" "w1 = (if ready then emit EvReady w5 else w5)"
      using Served(12) by (auto simp: wd aw(1))
    have "grows node_events w2 w1" using Served(9,10) aw(4) unfolding e(3) by (auto simp: grows_def node_events_def)
    then show ?thesis using e aw n Served wt grows_trans [OF g] by auto
  qed
qed

lemma mktemp_frame: "mktemp_run ho p w = (r, w1) \<Longrightarrow> r_now w1 = r_now w \<and> r_log w1 = r_log w @ [EvMkTemp]"
  by (auto simp: mktemp_run_def split: prod.splits)

lemma seed_frame:
  assumes "seed_from_snapshot em jh a nm b w = (e, b1, w1)"
  shows "r_now w1 = r_now w \<and> grows {EvMkTemp, EvSeed} w w1 \<and> n_stop_once b1 = n_stop_once b \<and> n_user_ctx b1 = n_user_ctx b
    \<and> n_server_once b1 = n_server_once b"
proof -
  obtain r b2 w2 where s: "seed_dir em jh b w = (r, b2, w2)" by (metis prod_cases3)
  have m: "n_stop_once (mutate em (\<lambda>b. Inr (b\<lparr>n_cfg := (n_cfg b)\<lparr>c_dir := d\<rparr>\<rparr>)) b) = n_stop_once b"
    "n_user_ctx (mutate em (\<lambda>b. Inr (b\<lparr>n_cfg := (n_cfg b)\<lparr>c_dir := d\<rparr>\<rparr>)) b) = n_user_ctx b"
    "n_server_once (mutate em (\<lambda>b. Inr (b\<lparr>n_cfg := (n_cfg b)\<lparr>c_dir := d\<rparr>\<rparr>)) b) = n_server_once b" for d
    by (rule mutate_obs; auto)+
  have "r_now w2 = r_now w \<and> grows {EvMkTemp, EvSeed} w w2 \<and> n_stop_once b2 = n_stop_once b \<and> n_user_ctx b2 = n_user_ctx b
      \<and> n_server_once b2 = n_server_once b"
    using s m by (auto simp: seed_dir_def Let_def grows_def dest!: mktemp_frame split: if_splits prod.splits sum.splits)
  moreover have "b1 = b2 \<and> r_now w1 = r_now w2 \<and> grows {EvMkTemp, EvSeed} w2 w1"
    using assms s by (auto simp: seed_from_snapshot_def grows_def split: sum.splits option.splits prod.splits if_splits)
  ultimately show ?thesis using grows_trans by auto
qed

lemma pin_frame: "n_stop_once (pin_existing em b) = n_stop_once b \<and> n_user_ctx (pin_existing em b) = n_user_ctx b
    \<and> core (pin_existing em b) = core b"
  unfolding pin_existing_def by (intro conjI mutate_obs) (auto simp: core_def)

text \<open>A run after its guards: its events, its time, and its progress.\<close>

definition join_events :: "plan \<Rightarrow> event set" where
  "join_events pl = EvAdd ` set (pl_peers pl) \<union> {EvMkTemp, EvSeed} \<union> node_events"

lemma join_run_cases:
  assumes "join_run em jh pl b w = (r, pg, b1, w1)"
  obtains (Add) e where "add_loop jh pl w = (Inl e, w1)" "r = Some e" "pg = progress0" "b1 = b"
  | (Seed) a peer w2 e where "add_loop jh pl w = (Inr (a, peer), w2)"
      "seed_from_snapshot em jh a (pl_name pl) (pin_existing em b) w2 = (Some e, b1, w1)" "r = Some (JSeed e)"
      "pg = \<lparr>pg_member = ar_self_id a, pg_peer = peer, pg_started = False\<rparr>"
  | (Start) a peer w2 b2 w3 e where "add_loop jh pl w = (Inr (a, peer), w2)"
      "seed_from_snapshot em jh a (pl_name pl) (pin_existing em b) w2 = (None, b2, w3)"
      "start em (jh_host jh) (b2\<lparr>n_start_wait := Some (pl_done pl)\<rparr>) w3 = (Started (Some e), b1, w1)"
      "r = Some (JStart e)" "pg = \<lparr>pg_member = ar_self_id a, pg_peer = peer, pg_started = True\<rparr>"
  | (Promote) a peer w2 b2 w3 w4 x where "add_loop jh pl w = (Inr (a, peer), w2)"
      "seed_from_snapshot em jh a (pl_name pl) (pin_existing em b) w2 = (None, b2, w3)"
      "start em (jh_host jh) (b2\<lparr>n_start_wait := Some (pl_done pl)\<rparr>) w3 = (Started None, b1, w4)"
      "retry_until (pl_done pl) (promote_attempt jh (pl_token pl) peer (ar_self_id a)) w4 = (x, w1)"
      "x \<noteq> Succeeded" "r = retry_failure x" "pg = \<lparr>pg_member = ar_self_id a, pg_peer = peer, pg_started = True\<rparr>"
  | (Confirm) a peer w2 b2 w3 w4 w5 x where "add_loop jh pl w = (Inr (a, peer), w2)"
      "seed_from_snapshot em jh a (pl_name pl) (pin_existing em b) w2 = (None, b2, w3)"
      "start em (jh_host jh) (b2\<lparr>n_start_wait := Some (pl_done pl)\<rparr>) w3 = (Started None, b1, w4)"
      "retry_until (pl_done pl) (promote_attempt jh (pl_token pl) peer (ar_self_id a)) w4 = (Succeeded, w5)"
      "retry_until (pl_done pl) (confirm_attempt jh) w5 = (x, w1)"
      "r = retry_failure x" "pg = \<lparr>pg_member = ar_self_id a, pg_peer = peer, pg_started = True\<rparr>"
proof (cases "add_loop jh pl w")
  case (Pair y w2)
  show ?thesis
  proof (cases y)
    case (Inl e)
    then show ?thesis using assms Pair Add by (simp add: join_run_def)
  next
    case (Inr ap)
    obtain a peer where ap: "ap = (a, peer)" by force
    note add = Pair [unfolded Inr ap]
    obtain e b2 w3 where sd: "seed_from_snapshot em jh a (pl_name pl) (pin_existing em b) w2 = (e, b2, w3)"
      by (metis prod_cases3)
    show ?thesis
    proof (cases e)
      case (Some m)
      then show ?thesis using assms add sd Seed by (simp add: join_run_def)
    next
      case None
      note sd = sd [unfolded None]
      obtain q b3 w4 where st: "start em (jh_host jh) (b2\<lparr>n_start_wait := Some (pl_done pl)\<rparr>) w3 = (q, b3, w4)"
        by (metis prod_cases3)
      have "q \<noteq> Blocked" using start_join [OF _ st, of "pl_done pl"] by simp
      then obtain f where q: "q = Started f" by (cases q) auto
      note st = st [unfolded q]
      show ?thesis
      proof (cases f)
        case (Some m)
        then show ?thesis using assms add sd st Start by (simp add: join_run_def)
      next
        case None
        note st = st [unfolded None]
        obtain x w5 where pr: "retry_until (pl_done pl) (promote_attempt jh (pl_token pl) peer (ar_self_id a)) w4 = (x, w5)"
          by force
        obtain z w6 where cf: "retry_until (pl_done pl) (confirm_attempt jh) w5 = (z, w6)" by force
        show ?thesis
        proof (cases "x = Succeeded")
          case True
          then show ?thesis using assms add sd st pr cf by (intro Confirm) (auto simp: join_run_def)
        next
          case False
          then show ?thesis using assms add sd st pr by (intro Promote) (auto simp: join_run_def)
        qed
      qed
    qed
  qed
qed

end
