(* ===== verification/Join_Safety.thy ===== *)
theory Join_Safety
  imports Join_Flow
begin

text \<open>
  What \<open>Join\<close> guarantees to the cluster and to its caller: the guards before the first
  request, the single-flight and exhausted latches, the order of the rollback, the time
  bound, and what a successful join has confirmed.
\<close>

section \<open>The guards\<close>

lemma join_prepare_run:
  assumes "join_prepare em jh su race h w = (r, h1, w1)"
  shows "grows {EvBind Client, EvBind Peer} w w1 \<and> r_now w1 = r_now w
    \<and> h_exhausted h1 = h_exhausted h \<and> h_joining h1 = h_joining h \<and> h_peers h1 = h_peers h \<and> h_keepalive h1 = h_keepalive h
    \<and> core (h_node h1) = core (h_node h) \<and> n_user_ctx (h_node h1) = n_user_ctx (h_node h)
    \<and> (\<forall>pl. r = Inr pl \<longrightarrow>
         n_cause (h_node h) = None \<and> \<not> n_minted (h_node h) \<and> n_cause (h_node h1) = None
         \<and> pl_peers pl = fst (sanitize_peers (dial_set (h_peers h) su race)) \<and> pl_peers pl \<noteq> []
         \<and> pl_self pl = self_peer_urls (h_node h1) \<and> pl_self pl \<noteq> []
         \<and> (loopback_only (c_advertise_peer (n_cfg (h_node h1))) \<longrightarrow> all_loopback_peers (pl_peers pl))
         \<and> pl_done pl = join_done (n_user_ctx (h_node h)) (r_now w) \<and> pl_token pl = join_token (h_node h1))"
proof (cases "n_cause (h_node h) \<noteq> None \<or> n_minted (h_node h)")
  case True
  then show ?thesis using assms by (auto simp: join_prepare_def split: option.splits if_splits)
next
  case False
  obtain b2 w2 where p: "peer_listener em (bind_run (jh_host jh) Peer) (h_node h) w = (b2, w2)" by force
  obtain b3 w3 where c: "client_listener em (bind_run (jh_host jh) Client) b2 w2 = (b3, w3)" by force
  have "grows {EvBind Client, EvBind Peer} w w2" "grows {EvBind Client, EvBind Peer} w2 w3"
    using peer_listener_log [OF p] client_listener_log [OF c] by (auto simp: grows_def)
  then have g: "grows {EvBind Client, EvBind Peer} w w3" by (rule grows_trans)
  have n: "r_now w3 = r_now w" using listener_frame(2) [OF p] listener_frame(1) [OF c] by simp
  have k: "core b3 = core (h_node h)" using peer_listener_flags [OF p] client_listener_flags [OF c] by simp
  have u: "n_user_ctx b3 = n_user_ctx (h_node h)"
    using listener_obs(2) [of n_user_ctx, OF _ _ _ _ _ _ _ p] listener_obs(1) [of n_user_ctx, OF _ _ _ _ _ _ _ c] by simp
  let ?adv = "c_advertise_peer (n_cfg b3)"
  let ?ps = "fst (sanitize_peers (dial_set (h_peers h) su race))"
  have run: "join_prepare em jh su race h w =
    (case n_cause b3 of
       Some e \<Rightarrow> (Inl (JListeners e), h\<lparr>h_node := b3\<rparr>, w3)
     | None \<Rightarrow>
         if ?adv = [] then (Inl JNoAdvertise, h\<lparr>h_node := b3\<rparr>, w3)
         else if ?ps = [] then (Inl (JNoPeers (dial_set (h_peers h) su race)), h\<lparr>h_node := b3\<rparr>, w3)
         else if loopback_only ?adv \<and> \<not> all_loopback_peers ?ps then (Inl JLoopback, h\<lparr>h_node := b3\<rparr>, w3)
         else (Inr \<lparr>pl_done = join_done (n_user_ctx b3) (r_now w3), pl_peers = ?ps, pl_self = self_peer_urls b3,
                    pl_token = join_token b3, pl_name = c_name (n_cfg b3)\<rparr>, h\<lparr>h_node := b3\<rparr>, w3))"
    using False by (cases "n_cause b3") (simp_all add: join_prepare_def p c Let_def)
  have hw: "h1 = h\<lparr>h_node := b3\<rparr> \<and> w1 = w3" using assms unfolding run by (auto split: option.splits if_splits)
  have pl: "n_cause b3 = None \<and> ?adv \<noteq> [] \<and> ?ps \<noteq> [] \<and> (loopback_only ?adv \<longrightarrow> all_loopback_peers ?ps)
      \<and> pl = \<lparr>pl_done = join_done (n_user_ctx b3) (r_now w3), pl_peers = ?ps, pl_self = self_peer_urls b3,
              pl_token = join_token b3, pl_name = c_name (n_cfg b3)\<rparr>" if "r = Inr pl" for pl
    using assms that unfolding run by (auto split: option.splits if_splits)
  have b3: "h_node h1 = b3" "w1 = w3" "h1 = h\<lparr>h_node := b3\<rparr>" using hw by simp_all
  show ?thesis
  proof (intro conjI allI impI)
    fix pl assume r: "r = Inr pl"
    note pl = pl [OF r]
    show "n_cause (h_node h) = None" "\<not> n_minted (h_node h)" using False by simp_all
    show "n_cause (h_node h1) = None" "pl_peers pl = ?ps" "pl_peers pl \<noteq> []" "pl_self pl = self_peer_urls (h_node h1)"
      "pl_self pl \<noteq> []" "pl_token pl = join_token (h_node h1)" "pl_done pl = join_done (n_user_ctx (h_node h)) (r_now w)"
      using pl b3 u n by (simp_all add: self_peer_urls_def)
    show "all_loopback_peers (pl_peers pl)" if "loopback_only (c_advertise_peer (n_cfg (h_node h1)))"
      using pl b3 that by simp
  qed (use g n k u b3 in simp_all)
qed

text \<open>The events of each phase.\<close>

definition remote :: "event \<Rightarrow> bool" where
  "remote ev \<longleftrightarrow> (case ev of EvAdd _ \<Rightarrow> True | EvPromote _ _ \<Rightarrow> True | EvRemove _ _ \<Rightarrow> True | EvSweep _ \<Rightarrow> True | _ \<Rightarrow> False)"

definition stopping :: "event \<Rightarrow> bool" where
  "stopping ev \<longleftrightarrow> (case ev of EvLeave _ \<Rightarrow> True | EvHardStop \<Rightarrow> True | EvCleanup \<Rightarrow> True | EvShutdown _ \<Rightarrow> True | _ \<Rightarrow> False)"

definition disco_call :: "event \<Rightarrow> bool" where
  "disco_call ev \<longleftrightarrow> (case ev of EvUserinfo \<Rightarrow> True | EvClaim \<Rightarrow> True | EvRoster \<Rightarrow> True | EvRegister _ \<Rightarrow> True | _ \<Rightarrow> False)"

definition run_events :: "plan \<Rightarrow> event set" where
  "run_events pl = {ev. \<not> stopping ev \<and> \<not> disco_call ev \<and> (\<forall>p. ev = EvAdd p \<longrightarrow> p \<in> set (pl_peers pl))}"

lemma retry_grows:
  "attempts ev fn \<Longrightarrow> retry_until d fn w = (x, w1) \<Longrightarrow> grows {ev} w w1"
  using retry_until_run [of ev fn d w x w1] by (auto simp: grows_def)

lemma join_run_frame:
  assumes "join_run em jh pl b w = (r, pg, b1, w1)"
  shows "grows (run_events pl) w w1 \<and> n_stop_once b1 = n_stop_once b \<and> r_now w \<le> r_now w1
    \<and> (punctual jh \<longrightarrow> r_now w1 \<le> max (r_now w) (pl_done pl))"
proof -
  let ?S = "run_events pl"
  have A: "add_loop jh pl u = (x, v) \<Longrightarrow> grows ?S u v" for u x v
    by (rule grows_mono [OF add_loop_grows]) (auto simp: run_events_def stopping_def disco_call_def)
  have D: "seed_from_snapshot em jh a nm c u = (e, b2, v) \<Longrightarrow> grows ?S u v" for a nm c u e b2 v
    using seed_frame [of em jh a nm c u e b2 v] by (auto intro: grows_mono simp: run_events_def stopping_def disco_call_def)
  have N: "grows node_events u v \<Longrightarrow> grows ?S u v" for u v :: "'a run"
    by (erule grows_mono) (auto simp: run_events_def node_events_def stopping_def disco_call_def)
  have P: "retry_until d (promote_attempt jh tok peer mid) u = (x, v) \<Longrightarrow> grows ?S u v" for d tok peer mid u x v
    by (rule grows_mono [OF retry_grows [OF attempts_promote]]) (auto simp: run_events_def stopping_def disco_call_def)
  have C: "retry_until d (confirm_attempt jh) u = (x, v) \<Longrightarrow> grows ?S u v" for d u x v
    by (rule grows_mono [OF retry_grows [OF attempts_confirm]]) (auto simp: run_events_def stopping_def disco_call_def)
  note rp = retry_until_run [OF attempts_promote] and rc = retry_until_run [OF attempts_confirm]
  show ?thesis
    using assms
  proof (cases rule: join_run_cases)
    case (Add e)
    then show ?thesis using A add_loop_time [OF Add(1)] by auto
  next
    case (Seed a peer w2 e)
    note s = seed_frame [OF Seed(2)]
    show ?thesis using grows_trans [OF A [OF Seed(1)] D [OF Seed(2)]] add_loop_time [OF Seed(1)] s pin_frame [of em b] by auto
  next
    case (Start a peer w2 b2 w3 e)
    note s = seed_frame [OF Start(2)]
    have st: "r_now w3 \<le> r_now w1 \<and> r_now w1 \<le> max (r_now w3) (pl_done pl) \<and> grows ?S w3 w1 \<and> n_stop_once b1 = n_stop_once b2"
      using start_join [OF _ Start(3), of "pl_done pl"] N by auto
    show ?thesis
      using grows_trans [OF grows_trans [OF A [OF Start(1)] D [OF Start(2)]]] st add_loop_time [OF Start(1)] s pin_frame [of em b] by auto
  next
    case (Promote a peer w2 b2 w3 w4 x)
    note s = seed_frame [OF Promote(2)]
    have st: "r_now w3 \<le> r_now w4 \<and> r_now w4 \<le> max (r_now w3) (pl_done pl) \<and> grows ?S w3 w4 \<and> n_stop_once b1 = n_stop_once b2"
      using start_join [OF _ Promote(3), of "pl_done pl"] N by auto
    have "grows ?S w w4" using grows_trans [OF grows_trans [OF A [OF Promote(1)] D [OF Promote(2)]]] st by blast
    then have "grows ?S w w1" using P [OF Promote(4)] by (rule grows_trans)
    then show ?thesis
      using st add_loop_time [OF Promote(1)] s pin_frame [of em b] rp [OF Promote(4)] on_time_promote [of jh]
      by (auto simp: max_def split: if_splits)
  next
    case (Confirm a peer w2 b2 w3 w4 w5 x)
    note s = seed_frame [OF Confirm(2)]
    have st: "r_now w3 \<le> r_now w4 \<and> r_now w4 \<le> max (r_now w3) (pl_done pl) \<and> grows ?S w3 w4 \<and> n_stop_once b1 = n_stop_once b2"
      using start_join [OF _ Confirm(3), of "pl_done pl"] N by auto
    have g: "grows ?S w w4" using grows_trans [OF grows_trans [OF A [OF Confirm(1)] D [OF Confirm(2)]]] st by blast
    have "grows ?S w w1" using grows_trans [OF grows_trans [OF g P [OF Confirm(4)]] C [OF Confirm(5)]] .
    then show ?thesis
      using st add_loop_time [OF Confirm(1)] s pin_frame [of em b] rp [OF Confirm(4)] rc [OF Confirm(5)]
        on_time_promote [of jh] on_time_confirm [of jh] by (auto simp: max_def split: if_splits)
  qed
qed

lemma join_run_server:
  assumes "join_run em jh pl b w = (r, pg, b1, w1)"
  shows "(if pg_started pg then n_server_once b1 else n_server_once b1 = n_server_once b) \<and> (r = None \<longrightarrow> pg_started pg)"
  using assms
proof (cases rule: join_run_cases)
  case (Seed a peer w2 e)
  then show ?thesis using seed_frame [OF Seed(2)] pin_frame [of em b] by (simp add: core_def)
next
  case (Start a peer w2 b2 w3 e)
  then show ?thesis using start_join [OF _ Start(3), of "pl_done pl"] by simp
next
  case (Promote a peer w2 b2 w3 w4 x)
  then show ?thesis using start_join [OF _ Promote(3), of "pl_done pl"] by simp
next
  case (Confirm a peer w2 b2 w3 w4 w5 x)
  then show ?thesis using start_join [OF _ Confirm(3), of "pl_done pl"] by simp
qed (simp add: progress0_def)

section \<open>The rollback\<close>

lemma sweep_frame:
  fixes w :: "'e run"
  shows "grows {ev. \<exists>p. ev = EvSweep p} w (sweep jh d tok us ps w) \<and> r_now w \<le> r_now (sweep jh d tok us ps w)
    \<and> (punctual jh \<longrightarrow> r_now (sweep jh d tok us ps w) \<le> max (r_now w) d)"
proof (induction ps arbitrary: w)
  case (Cons p ps)
  obtain r w1 where a: "client_remove_by_urls (timed jh d) tok p us (emit (EvSweep p) w) = (r, w1)" by force
  have l: "r_log w1 = r_log w @ [EvSweep p]" "r_now w \<le> r_now w1" "punctual jh \<Longrightarrow> r_now w1 \<le> max (r_now w) d"
    using client_reconfig_log [OF a [unfolded client_remove_by_urls_def]] client_reconfig_now [OF a [unfolded client_remove_by_urls_def]]
      client_reconfig_on_time [OF _ a [unfolded client_remove_by_urls_def]] by auto
  have "grows {ev. \<exists>p. ev = EvSweep p} w w1" using l(1) by (auto simp: grows_def)
  then show ?case using Cons.IH [of w1] grows_trans l a by (cases r) (auto simp: max_def split: if_splits)
qed simp

lemma stop_frame:
  assumes "stop em ho b w = (es, b1, w1)"
  shows "grows {ev. stopping ev} w w1"
proof (cases "n_stop_once b")
  case True
  then show ?thesis using assms by (simp add: stop_def)
next
  case False
  obtain n where "r_log w1 = r_log w
      @ (if n_minted b \<and> n_started b \<and> n_leave_on_stop b then replicate n (EvLeave (ho_member_id ho)) else [])
      @ (if \<not> n_minted b then [] else if n_started b then [EvHardStop] else [EvCleanup])
      @ (if n_client_srv b then [EvShutdown Client] else []) @ (if n_peer_srv b then [EvShutdown Peer] else [])"
    using stop_log [OF False assms] by blast
  then show ?thesis unfolding grows_def by (auto simp: stopping_def)
qed

lemma stop_time:
  assumes "stop em ho b w = (es, b1, w1)" "\<And>i t e. snd (fst (ho_leave ho i t e)) \<le> max 0 t"
  shows "r_now w1 \<le> r_now w + max 0 (2 * ho_health_interval ho)"
proof (cases "n_stop_once b")
  case True
  then show ?thesis using assms by (simp add: stop_def)
next
  case False
  have "r_now w1 = r_now (leave ho b w)"
    using assms(1) False
    by (auto simp: stop_def Let_def shutdown_side_def shutdown_run_def teardown_def split: if_splits prod.splits)
  then show ?thesis
    using leave_loop_time [OF assms(2), of "r_now w + 2 * ho_health_interval ho" w] by (auto simp: leave_def)
qed

text \<open>The three ends of a rollback: swept (no member ID), kept running (no removal was
  confirmed, or nothing was started), or stopped after a confirmed removal.\<close>

lemma abort_join_cases:
  assumes "abort_join em jh pl pg h w = (h1, w1)"
  obtains (Swept) "pg_member pg = 0" "h1 = h\<lparr>h_exhausted := h_exhausted h \<or> pg_started pg\<rparr>"
      "w1 = sweep jh (r_now w + 30000) (pl_token pl) (pl_self pl) (pl_peers pl) w"
  | (Kept) r where "pg_member pg \<noteq> 0" "h1 = h\<lparr>h_exhausted := h_exhausted h \<or> pg_started pg\<rparr>"
      "retry_until (r_now w + 30000) (remove_attempt jh (pl_token pl) (pg_peer pg) (pg_member pg)) w = (r, w1)"
      "r \<noteq> Succeeded \<or> \<not> pg_started pg"
  | (Stopped) v es b where "pg_member pg \<noteq> 0" "pg_started pg"
      "retry_until (r_now w + 30000) (remove_attempt jh (pl_token pl) (pg_peer pg) (pg_member pg)) w = (Succeeded, v)"
      "stop em (jh_host jh) (h_node h) v = (es, b, w1)"
      "h1 = h\<lparr>h_exhausted := True, h_keepalive := False, h_node := b\<rparr>"
proof (cases "pg_member pg = 0")
  case True
  then show ?thesis using assms Swept by (simp add: abort_join_def Let_def)
next
  case False
  obtain r v where rv: "retry_until (r_now w + 30000) (remove_attempt jh (pl_token pl) (pg_peer pg) (pg_member pg)) w = (r, v)"
    by force
  show ?thesis
  proof (cases "r = Succeeded \<and> pg_started pg")
    case True
    obtain es b u where st: "stop em (jh_host jh) (h_node h) v = (es, b, u)" by (metis prod_cases3)
    then show ?thesis
      using assms False True rv by (intro Stopped [of v es b]) (auto simp: abort_join_def Let_def handle_stop_def)
  next
    case False2: False
    then show ?thesis
      using assms False rv by (intro Kept [of r]) (auto simp: abort_join_def Let_def split: if_splits)
  qed
qed

text \<open>What a rollback has done to the server: nothing, or it was stopped after a confirmed removal.\<close>

lemma abort_join_ends:
  assumes "abort_join em jh pl pg h w = (h1, w1)"
  obtains (Quiet) "grows {ev. \<not> stopping ev} w w1" "n_stop_once (h_node h1) = n_stop_once (h_node h)"
  | (Confirmed) n l2 d v u where "h_exhausted h1" "1 \<le> n" "n \<le> 30"
      "r_log u = r_log w @ replicate n (EvRemove (pg_peer pg) (pg_member pg))" "r_log w1 = r_log u @ l2"
      "\<forall>ev\<in>set l2. stopping ev" "remove_attempt jh (pl_token pl) (pg_peer pg) (pg_member pg) d v = (None, u)"
  using assms
proof (cases rule: abort_join_cases)
  case Swept
  then show ?thesis
    using sweep_frame [of w jh "r_now w + 30000" "pl_token pl" "pl_self pl" "pl_peers pl"]
    by (intro Quiet) (auto elim!: grows_mono simp: stopping_def)
next
  case (Kept x)
  then show ?thesis
    using retry_grows [OF attempts_remove Kept(3)] by (intro Quiet) (auto elim!: grows_mono simp: stopping_def)
next
  case (Stopped v es b)
  note rr = retry_until_run [OF attempts_remove Stopped(3)]
  obtain n where n: "1 \<le> n" "r_log v = r_log w @ replicate n (EvRemove (pg_peer pg) (pg_member pg))"
    "n = 1 \<or> 1000 * (int n - 1) < 30000" using rr by auto
  obtain d v0 where c: "remove_attempt jh (pl_token pl) (pg_peer pg) (pg_member pg) d v0 = (None, v)" using rr by blast
  obtain l2 where l2: "r_log w1 = r_log v @ l2" "\<forall>ev\<in>set l2. stopping ev"
    using stop_frame [OF Stopped(4)] by (auto simp: grows_def)
  show ?thesis using Stopped(5) n by (intro Confirmed [OF _ n(1) _ n(2) l2 c]) auto
qed

lemma join_resolved_cases:
  assumes "join_resolved em jh su race h w = (r, h1, w1)"
  obtains (Refused) "h_exhausted h \<or> h_joining h" "r = Some (if h_exhausted h then JExhausted else JInProgress)" "h1 = h" "w1 = w"
  | (Guarded) e h2 where "\<not> h_exhausted h" "\<not> h_joining h"
      "join_prepare em jh su race (h\<lparr>h_joining := True\<rparr>) w = (Inl e, h2, w1)" "r = Some e" "h1 = h2\<lparr>h_joining := False\<rparr>"
  | (Joined) pl h2 w2 pg b where "\<not> h_exhausted h" "\<not> h_joining h"
      "join_prepare em jh su race (h\<lparr>h_joining := True\<rparr>) w = (Inr pl, h2, w2)"
      "join_run em jh pl (h_node h2) w2 = (None, pg, b, w1)" "r = None" "h1 = h2\<lparr>h_node := b\<rparr>"
  | (Failed) pl h2 w2 pg b w3 e h3 where "\<not> h_exhausted h" "\<not> h_joining h"
      "join_prepare em jh su race (h\<lparr>h_joining := True\<rparr>) w = (Inr pl, h2, w2)"
      "join_run em jh pl (h_node h2) w2 = (Some e, pg, b, w3)" "r = Some e"
      "abort_join em jh pl pg (h2\<lparr>h_node := b\<rparr>) w3 = (h3, w1)"
      "h1 = (if h_exhausted h3 then h3 else h3\<lparr>h_joining := False\<rparr>)"
proof (cases "h_exhausted h \<or> h_joining h")
  case True
  then show ?thesis using assms Refused by (auto simp: join_resolved_def split: if_splits)
next
  case False
  obtain q h2 w2 where p: "join_prepare em jh su race (h\<lparr>h_joining := True\<rparr>) w = (q, h2, w2)" by (metis prod_cases3)
  show ?thesis
  proof (cases q)
    case (Inl e)
    then show ?thesis using assms False p by (intro Guarded [of e h2]) (auto simp: join_resolved_def)
  next
    case (Inr pl)
    obtain o1 pg b w3 where j: "join_run em jh pl (h_node h2) w2 = (o1, pg, b, w3)" by (metis prod_cases4)
    show ?thesis
    proof (cases o1)
      case None
      then show ?thesis using assms False p Inr j by (intro Joined [of pl h2 w2 pg b]) (auto simp: join_resolved_def)
    next
      case (Some e)
      obtain h3 w4 where a: "abort_join em jh pl pg (h2\<lparr>h_node := b\<rparr>) w3 = (h3, w4)" by force
      then show ?thesis using assms False p Inr j Some
        by (intro Failed [of pl h2 w2 e pg b w3 h3]) (auto simp: join_resolved_def)
    qed
  qed
qed

lemma growsD: "grows S w w1 \<Longrightarrow> r_log w1 = r_log w @ l \<Longrightarrow> set l \<subseteq> S"
  by (auto simp: grows_def)

lemma abort_no_adds:
  assumes "abort_join em jh pl pg h w = (h1, w1)"
  shows "grows {ev. \<not> disco_call ev \<and> (\<forall>p. ev = EvAdd p \<longrightarrow> p \<in> S)} w w1"
  using assms
proof (cases rule: abort_join_cases)
  case Swept
  then show ?thesis
    using sweep_frame [of w jh "r_now w + 30000" "pl_token pl" "pl_self pl" "pl_peers pl"] by (auto elim!: grows_mono simp: disco_call_def)
next
  case (Kept r)
  then show ?thesis using retry_grows [OF attempts_remove Kept(3)] by (auto elim!: grows_mono simp: disco_call_def)
next
  case (Stopped v es b)
  have "grows {ev. \<not> disco_call ev \<and> (\<forall>p. ev = EvAdd p \<longrightarrow> p \<in> S)} w v" "grows {ev. \<not> disco_call ev \<and> (\<forall>p. ev = EvAdd p \<longrightarrow> p \<in> S)} v w1"
    using retry_grows [OF attempts_remove Stopped(3)] stop_frame [OF Stopped(4)]
    by (auto elim!: grows_mono simp: stopping_def disco_call_def split: event.splits)
  then show ?thesis by (rule grows_trans)
qed

text \<open>The guards, as facts about the plan of a run.\<close>

lemma join_guards_hold:
  assumes prep: "join_prepare em jh su race (h\<lparr>h_joining := True\<rparr>) w = (Inr pl, h2, w2)"
    and adds: "grows {ev. \<forall>p. ev = EvAdd p \<longrightarrow> p \<in> set (pl_peers pl)} w2 w1" and l: "r_log w1 = r_log w @ l"
  shows "n_cause (h_node h) = None \<and> \<not> n_minted (h_node h)
    \<and> (\<exists>pl h2 w2. join_prepare em jh su race (h\<lparr>h_joining := True\<rparr>) w = (Inr pl, h2, w2)
        \<and> pl_peers pl = fst (sanitize_peers (dial_set (h_peers h) su race)) \<and> pl_peers pl \<noteq> []
        \<and> c_advertise_peer (n_cfg (h_node h2)) \<noteq> [] \<and> n_cause (h_node h2) = None
        \<and> (loopback_only (c_advertise_peer (n_cfg (h_node h2))) \<longrightarrow> all_loopback_peers (pl_peers pl))
        \<and> {p. EvAdd p \<in> set l} \<subseteq> set (pl_peers pl))"
proof -
  note p = join_prepare_run [OF prep]
  have g: "grows {EvBind Client, EvBind Peer} w w2" using p by blast
  then have "grows {ev. \<forall>p. ev = EvAdd p \<longrightarrow> p \<in> set (pl_peers pl)} w w2" by (rule grows_mono) auto
  then have "{q. EvAdd q \<in> set l} \<subseteq> set (pl_peers pl)" using growsD [OF grows_trans [OF _ adds] l] by auto
  then show ?thesis using p
    by (intro conjI exI [of _ pl] exI [of _ h2] exI [of _ w2] prep) (auto simp: self_peer_urls_def)
qed

text \<open>The answer that ended the add loop.\<close>

lemma add_any_answer:
  "join_add_to_any jh d tok us ps w = (Inr (a, p), w1) \<Longrightarrow>
     p \<in> set ps \<and> (\<exists>v. client_add (timed jh d) tok p us v = (Inr a, w1) \<and> (\<exists>m. r_log w1 = r_log w @ m \<and> EvAdd p \<in> set m))"
proof (induction ps arbitrary: w)
  case (Cons q ps)
  obtain r w2 where c: "client_add (timed jh d) tok q us (emit (EvAdd q) w) = (r, w2)" by force
  note l = client_add_log [OF c]
  show ?case
  proof (cases r)
    case (Inr b)
    then have "b = a" "q = p" "w2 = w1" using Cons.prems c by auto
    then show ?thesis using c Inr l by auto
  next
    case (Inl e)
    then have "join_add_to_any jh d tok us ps w2 = (Inr (a, p), w1)" using Cons.prems c by (auto split: prod.splits sum.splits)
    from Cons.IH [OF this] show ?thesis using l by fastforce
  qed
qed simp

lemma add_loop_answer:
  "add_loop jh pl w = (Inr (a, p), w1) \<Longrightarrow>
     p \<in> set (pl_peers pl) \<and> (\<exists>v. client_add (timed jh (pl_done pl)) (pl_token pl) p (pl_self pl) v = (Inr a, w1)
       \<and> (\<exists>m. r_log w1 = r_log w @ m \<and> EvAdd p \<in> set m))"
proof (induction jh pl w arbitrary: rule: add_loop.induct)
  case (1 jh pl w)
  obtain r w2 where j: "join_add_to_any jh (pl_done pl) (pl_token pl) (pl_self pl) (pl_peers pl) w = (r, w2)" by force
  obtain m2 where m2: "r_log w2 = r_log w @ m2" using add_any_grows [OF j] by (auto simp: grows_def)
  show ?case
  proof (cases r)
    case (Inr b)
    then have "b = (a, p)" "w2 = w1" using "1.prems" j by (auto simp: add_loop.simps [of jh pl w])
    then show ?thesis using add_any_answer j Inr by fastforce
  next
    case (Inl es)
    have np: "\<not> list_ex (\<lambda>e. is_permanent (snd e)) es" "r_now w2 + 1000 < pl_done pl"
      and run: "add_loop jh pl (w2\<lparr>r_now := r_now w2 + 1000\<rparr>) = (Inr (a, p), w1)"
      using "1.prems" j Inl by (auto simp: add_loop.simps [of jh pl w] split: if_splits)
    from "1.IH" [OF j [symmetric] Inl np run] show ?thesis using m2 by fastforce
  qed
qed

lemma seed_start_once:
  assumes "seed_from_snapshot em jh a nm b w = (e, b1, w1)"
  shows "n_start_once b1 = n_start_once b"
proof -
  obtain r b2 w2 where s: "seed_dir em jh b w = (r, b2, w2)" by (metis prod_cases3)
  have "n_start_once (mutate em (\<lambda>b. Inr (b\<lparr>n_cfg := (n_cfg b)\<lparr>c_dir := d\<rparr>\<rparr>)) b) = n_start_once b" for d
    by (rule mutate_obs; auto)
  then have "n_start_once b2 = n_start_once b"
    using s by (auto simp: seed_dir_def Let_def split: if_splits prod.splits sum.splits)
  moreover have "b1 = b2"
    using assms s by (auto simp: seed_from_snapshot_def split: sum.splits option.splits prod.splits if_splits)
  ultimately show ?thesis by simp
qed

text \<open>A start without error of a node that was never minted has seen the server ready.\<close>

lemma start_join_ready:
  assumes "n_start_wait b = Some d" "start em ho b w = (Started None, b1, w1)"
    and fresh: "\<not> n_server_once b" "\<not> n_start_once b"
  shows "n_minted b1 \<and> n_started b1 \<and> (\<exists>m. r_log w1 = r_log w @ m \<and> EvStart \<in> set m \<and> EvReady \<in> set m)"
proof -
  obtain b2 w2 where s: "server em ho b w = (b2, w2)" by force
  obtain m2 where m2: "r_log w2 = r_log w @ m2" using server_log [OF s] by auto
  have so: "\<not> n_start_once b2" "n_start_wait b2 = Some d"
    using server_obs [of n_start_once, OF _ _ _ _ _ _ _ _ _ s] server_obs [of n_start_wait, OF _ _ _ _ _ _ _ _ _ s]
      fresh assms(1) by simp_all
  from s assms(2) show ?thesis
  proof (cases rule: start_phases)
    case Idle
    then show ?thesis using so server_minted_or_latched [OF fresh(1) s] by (auto split: if_splits)
  next
    case (Served b4 w4 l)
    then have wd: "wait_done b4 = Some d" "n_start_wait b4 = Some d" using so by (simp_all add: wait_done_def waits_def)
    obtain ready w5 where aw: "await_ready ho (Some d) w4 = Some (ready, w5)" "r_log w5 = r_log w4"
      using await_ready_bounded by blast
    have "ready" "b1 = b4\<lparr>n_after_func := (n_user_ctx b4 \<noteq> None)\<rparr>" "w1 = emit EvReady w5"
      using Served(12) by (auto simp: wd aw(1) split: if_splits)
    then show ?thesis using Served(4,5,9) aw(2) m2 by simp
  qed
qed

text \<open>What a join that succeeds has done.\<close>

lemma joined_facts:
  assumes run: "join_resolved em jh su race h w = (None, h1, w1)" "r_log w1 = r_log w @ l"
    and fresh: "\<not> n_server_once (h_node h)" "\<not> n_start_once (h_node h)"
  shows "n_minted (h_node h1) \<and> n_started (h_node h1) \<and> h_joining h1
    \<and> (\<exists>p a us tok d v u d2 v2 u2 d3 v3.
         p \<in> set (fst (sanitize_peers (dial_set (h_peers h) su race)))
         \<and> client_add (timed jh d) tok p us v = (Inr a, u)
         \<and> promote_attempt jh tok p (ar_self_id a) d2 v2 = (None, u2)
         \<and> confirm_attempt jh d3 v3 = (None, w1)
         \<and> {EvAdd p, EvStart, EvReady, EvPromote p (ar_self_id a)} \<subseteq> set l \<and> last l = EvStatus)"
  using run(1)
proof (cases rule: join_resolved_cases)
  case (Joined pl h2 w2 pg b)
  note pr = join_prepare_run [OF Joined(3)]
  obtain m1 where m1: "r_log w2 = r_log w @ m1" using pr by (auto simp: grows_def)
  have nb: "\<not> n_server_once (h_node h2)" "\<not> n_start_once (h_node h2)" using pr fresh by (simp_all add: core_def)
  show ?thesis
    using Joined(4)
  proof (cases rule: join_run_cases)
    case (Confirm a peer w3 b2 w4 w5 w6 x)
    have x: "x = Succeeded" using Confirm(6) by (cases x) (simp_all add: retry_failure_def)
    obtain v m2 where add: "peer \<in> set (pl_peers pl)" "client_add (timed jh (pl_done pl)) (pl_token pl) peer (pl_self pl) v = (Inr a, w3)"
      "r_log w3 = r_log w2 @ m2" "EvAdd peer \<in> set m2" using add_loop_answer [OF Confirm(1)] by blast
    have f: "\<not> n_server_once b2" "\<not> n_start_once b2"
      using seed_frame [OF Confirm(2)] pin_frame [of em "h_node h2"] nb seed_start_once [OF Confirm(2)] by (simp_all add: core_def)
    obtain m3 where m3: "r_log w4 = r_log w3 @ m3" using seed_frame [OF Confirm(2)] by (auto simp: grows_def)
    obtain m4 where st: "n_minted b" "n_started b" "r_log w5 = r_log w4 @ m4" "EvStart \<in> set m4" "EvReady \<in> set m4"
      using start_join_ready [OF _ Confirm(3)] f by auto
    note p = retry_until_run [OF attempts_promote Confirm(4)] and c = retry_until_run [OF attempts_confirm Confirm(5)]
    obtain n where n: "1 \<le> n" "r_log w6 = r_log w5 @ replicate n (EvPromote peer (ar_self_id a))" using p by blast
    obtain k where k: "1 \<le> k" "r_log w1 = r_log w6 @ replicate k EvStatus" using c by blast
    obtain d2 v2 where pa: "promote_attempt jh (pl_token pl) peer (ar_self_id a) d2 v2 = (None, w6)" using p by blast
    obtain d3 v3 where ca: "confirm_attempt jh d3 v3 = (None, w1)" using c x by blast
    have l: "l = m1 @ m2 @ m3 @ m4 @ replicate n (EvPromote peer (ar_self_id a)) @ replicate k EvStatus"
      using run(2) m1 add(3) m3 st(3) n(2) k(2) by simp
    have ev: "{EvAdd peer, EvStart, EvReady, EvPromote peer (ar_self_id a)} \<subseteq> set l" "last l = EvStatus"
      using add(4) st n(1) k(1) unfolding l by (auto simp: last_append)
    have pin: "peer \<in> set (fst (sanitize_peers (dial_set (h_peers h) su race)))" using add(1) pr by simp
    have hd: "n_minted (h_node h1)" "n_started (h_node h1)" "h_joining h1" using Joined(6) st pr by simp_all
    show ?thesis using hd ev pin add(2) pa ca by blast
  qed (auto simp: retry_failure_def split: retry_result.splits)
qed simp_all

section \<open>A concrete join\<close>

text \<open>A peer that answers an add with member 2 of cluster 7, a promotion with the given status
  and a removal with 200; a node with a data directory in use and half a second to join.\<close>

definition demo_prelude :: string where
  "demo_prelude = json_print (prelude_json (2, 7, []))"

definition demo_answer :: "nat \<Rightarrow> request \<Rightarrow> string + response" where
  "demo_answer st r =
     (if req_method r = ''POST'' then
        Inr \<lparr>resp_status = 200, resp_body = bytes32 (of_nat (length demo_prelude)) @ demo_prelude @ ''SNAP'', resp_broken = False\<rparr>
      else if req_method r = ''PUT'' then Inr (reply st [])
      else Inr (reply 200 []))"

definition demo_jhost :: "nat \<Rightarrow> unit jhost" where
  "demo_jhost st = \<lparr>jh_host = demo_host,
     jh_send = (\<lambda>t u r e. ((demo_answer st r, min 1 (max 0 t)), e)),
     jh_seed = (\<lambda>t q e. ((Inl ''refused'', 0), e)), jh_storage = demo_storage, jh_faults = (\<lambda>s. None),
     jh_scratch = (\<lambda>e. (None, e))\<rparr>"

definition demo_joiner :: handle where
  "demo_joiner = \<lparr>h_node = with_context demo_embed (Some \<lparr>uc_deadline = Some 500, uc_cancelled = None\<rparr>)
        (with_dir demo_embed ''/data'' demo_node),
     h_peers = [''127.0.0.1:7000''], h_joining = False, h_exhausted = False, h_keepalive = False\<rparr>"

definition demo_disk :: "unit run" where
  "demo_disk = demo_run0\<lparr>r_fs := [(''/data/lost+found'', Dir)]\<rparr>"

definition demo_join :: "nat \<Rightarrow> failure option \<times> handle \<times> unit run" where
  "demo_join st = join_resolved demo_embed (demo_jhost st) [] False demo_joiner demo_disk"

definition join_view :: "failure option \<times> handle \<times> 'e run \<Rightarrow> failure option \<times> bool \<times> bool \<times> int \<times> event list" where
  "join_view x = (fst x, h_joining (fst (snd x)), h_exhausted (fst (snd x)), r_now (snd (snd x)), r_log (snd (snd x)))"

definition demo_log :: "event list" where
  "demo_log = [EvBind Peer, EvBind Client, EvAdd ''http://127.0.0.1:7000'', EvMint True, EvStart, EvServe Peer,
     EvServe Client, EvReady, EvPromote ''http://127.0.0.1:7000'' 2]"

lemma demo_join_ok: "join_view (demo_join 200) = (None, True, False, 7, demo_log @ [EvStatus])"
  by code_simp

lemma demo_join_failed:
  "join_view (demo_join 409) = (Some (JExpired ''409: ''), True, True, 501,
     demo_log @ [EvRemove ''http://127.0.0.1:7000'' 2, EvHardStop, EvShutdown Client, EvShutdown Peer])"
  by code_simp

lemma demo_joiner_flags:
  "\<not> n_server_once (h_node demo_joiner)" "\<not> n_start_once (h_node demo_joiner)" "\<not> h_exhausted demo_joiner" "\<not> h_joining demo_joiner"
  "n_user_ctx (h_node demo_joiner) = Some \<lparr>uc_deadline = Some 500, uc_cancelled = None\<rparr>"
  "r_log demo_disk = []" "r_now demo_disk = 0"
  by code_simp+

lemma demo_punctual: "punctual (demo_jhost st)"
  by (simp add: punctual_def demo_jhost_def demo_host_def)

section \<open>Properties\<close>

text \<open>C21. Nothing reaches the cluster before the guards have passed: a call that sent any
  request (an add, a promotion, a removal or a sweep) had a fresh handle with a valid,
  unminted configuration, non-empty advertise URLs and at least one valid peer to dial, and
  its advertise URLs were not all loopback against remote peers; and every add went to one of
  the sanitized peers.\<close>

theorem join_guarded:
  assumes run: "join_resolved em jh su race h w = (r, h1, w1)" "r_log w1 = r_log w @ l"
    and sent: "ev \<in> set l" "remote ev"
  shows "\<not> h_exhausted h \<and> \<not> h_joining h \<and> n_cause (h_node h) = None \<and> \<not> n_minted (h_node h)
    \<and> (\<exists>pl h2 w2. join_prepare em jh su race (h\<lparr>h_joining := True\<rparr>) w = (Inr pl, h2, w2)
        \<and> pl_peers pl = fst (sanitize_peers (dial_set (h_peers h) su race)) \<and> pl_peers pl \<noteq> []
        \<and> c_advertise_peer (n_cfg (h_node h2)) \<noteq> [] \<and> n_cause (h_node h2) = None
        \<and> (loopback_only (c_advertise_peer (n_cfg (h_node h2))) \<longrightarrow> all_loopback_peers (pl_peers pl))
        \<and> {p. EvAdd p \<in> set l} \<subseteq> set (pl_peers pl))"
  using run(1)
proof (cases rule: join_resolved_cases)
  case Refused
  then show ?thesis using run sent by simp
next
  case (Guarded e h2)
  have "grows {EvBind Client, EvBind Peer} w w1" using join_prepare_run [OF Guarded(3)] by blast
  from growsD [OF this run(2)] have "ev \<in> {EvBind Client, EvBind Peer}" using sent(1) by blast
  then show ?thesis using sent(2) by (auto simp: remote_def)
next
  case (Joined pl h2 w2 pg b)
  have "grows (run_events pl) w2 w1" using join_run_frame [OF Joined(4)] by blast
  then have "grows {ev. \<forall>p. ev = EvAdd p \<longrightarrow> p \<in> set (pl_peers pl)} w2 w1"
    by (rule grows_mono) (auto simp: run_events_def)
  then show ?thesis using join_guards_hold [OF Joined(3) _ run(2)] Joined(1,2) by blast
next
  case (Failed pl h2 w2 pg b w3 e h3)
  have "grows (run_events pl) w2 w3" using join_run_frame [OF Failed(4)] by blast
  then have "grows {ev. \<forall>p. ev = EvAdd p \<longrightarrow> p \<in> set (pl_peers pl)} w2 w3"
    by (rule grows_mono) (auto simp: run_events_def)
  then have "grows {ev. \<forall>p. ev = EvAdd p \<longrightarrow> p \<in> set (pl_peers pl)} w2 w1"
    using grows_mono [OF abort_no_adds [OF Failed(6)]] by (rule grows_trans) blast
  then show ?thesis using join_guards_hold [OF Failed(3) _ run(2)] Failed(1,2) by blast
qed

theorem join_guarded_witness:
  "\<exists>pl h2 w2. join_prepare demo_embed (demo_jhost 200) [] False (demo_joiner\<lparr>h_joining := True\<rparr>) demo_disk = (Inr pl, h2, w2)
     \<and> ''http://127.0.0.1:7000'' \<in> set (pl_peers pl) \<and> all_loopback_peers (pl_peers pl)"
proof -
  obtain r h1 w1 where d: "demo_join 200 = (r, h1, w1)" by (metis prod_cases3)
  have l: "r_log w1 = r_log demo_disk @ demo_log @ [EvStatus]"
    using demo_join_ok [unfolded d join_view_def] demo_joiner_flags(6) by simp
  have ev: "EvPromote ''http://127.0.0.1:7000'' 2 \<in> set (demo_log @ [EvStatus])" "EvAdd ''http://127.0.0.1:7000'' \<in> set (demo_log @ [EvStatus])"
    by (simp_all add: demo_log_def)
  from join_guarded [OF d [unfolded demo_join_def] l ev(1)] ev(2)
  obtain pl h2 w2 where p: "join_prepare demo_embed (demo_jhost 200) [] False (demo_joiner\<lparr>h_joining := True\<rparr>) demo_disk = (Inr pl, h2, w2)"
    "''http://127.0.0.1:7000'' \<in> set (pl_peers pl)" "loopback_only (c_advertise_peer (n_cfg (h_node h2))) \<longrightarrow> all_loopback_peers (pl_peers pl)"
    by (auto simp: remote_def)
  moreover have "loopback_only (c_advertise_peer (n_cfg (h_node (fst (snd (join_prepare demo_embed (demo_jhost 200) [] False
      (demo_joiner\<lparr>h_joining := True\<rparr>) demo_disk))))))" by code_simp
  ultimately show ?thesis by auto
qed

text \<open>C0. The latches of a handle.  An exhausted or busy handle is refused without any effect;
  otherwise a successful join keeps the handle busy, and a failed one either frees it, having
  minted no server, or exhausts it for good (every later call is refused), having called
  \<open>Start\<close>.\<close>

theorem join_latches:
  assumes run: "join_resolved em jh su race h w = (r, h1, w1)"
  shows "(h_exhausted h \<or> h_joining h \<longrightarrow> r = Some (if h_exhausted h then JExhausted else JInProgress) \<and> h1 = h \<and> w1 = w)
    \<and> (\<not> h_exhausted h \<and> \<not> h_joining h \<longrightarrow>
         (r = None \<longrightarrow> h_joining h1 \<and> \<not> h_exhausted h1 \<and> n_server_once (h_node h1))
       \<and> (r \<noteq> None \<longrightarrow> h_joining h1 = h_exhausted h1
            \<and> (if h_exhausted h1 then n_server_once (h_node h1) else n_server_once (h_node h1) = n_server_once (h_node h))))
    \<and> (h_exhausted h1 \<longrightarrow> join_resolved em jh su2 race2 h1 w2 = (Some JExhausted, h1, w2))"
proof -
  have ex: "h_exhausted h1 \<longrightarrow> join_resolved em jh su2 race2 h1 w2 = (Some JExhausted, h1, w2)"
    by (simp add: join_resolved_def)
  show ?thesis
    using run
  proof (cases rule: join_resolved_cases)
    case Refused
    then show ?thesis using ex by simp
  next
    case (Guarded e h2)
    then show ?thesis using ex join_prepare_run [OF Guarded(3)] by (simp add: core_def)
  next
    case (Joined pl h2 w3 pg b)
    then show ?thesis using ex join_prepare_run [OF Joined(3)] join_run_server [OF Joined(4)] by (simp add: core_def)
  next
    case (Failed pl h2 w3 pg b w4 e h3)
    have p: "h_exhausted h2 = False" "h_joining h2" "n_server_once (h_node h2) = n_server_once (h_node h)"
      using join_prepare_run [OF Failed(3)] Failed(1) by (simp_all add: core_def)
    note s = join_run_server [OF Failed(4)]
    have "h_exhausted h3 = pg_started pg \<and> h_joining h3 \<and> n_server_once (h_node h3) = n_server_once b"
      using Failed(6)
    proof (cases rule: abort_join_cases)
      case (Stopped v es b2)
      then show ?thesis using p stop_flags [OF Stopped(4)] by (simp add: core_def)
    qed (use p in auto)
    then show ?thesis using ex Failed p s by (auto split: if_splits)
  qed
qed

theorem join_latches_witness:
  "\<exists>h1 w1. demo_join 409 = (Some (JExpired ''409: ''), h1, w1) \<and> h_exhausted h1
     \<and> join_resolved demo_embed (demo_jhost 409) [] False h1 w1 = (Some JExhausted, h1, w1)"
proof -
  obtain r h1 w1 where d: "demo_join 409 = (r, h1, w1)" by (metis prod_cases3)
  have "r = Some (JExpired ''409: '')" "h_exhausted h1" using demo_join_failed [unfolded d join_view_def] by simp_all
  with join_latches [OF d [unfolded demo_join_def], of "[]" False w1] d show ?thesis by simp
qed





text \<open>C25. What a successful join has confirmed: one of the sanitized peers added this node,
  its server was minted, started and ready, the same peer promoted exactly the member that it
  had added, and last of all the node saw itself as a voter with a leader in contact.\<close>

theorem join_success:
  assumes run: "join_resolved em jh su race h w = (None, h1, w1)" "r_log w1 = r_log w @ l"
    and fresh: "\<not> n_server_once (h_node h)" "\<not> n_start_once (h_node h)"
  shows "n_minted (h_node h1) \<and> n_started (h_node h1) \<and> h_joining h1
    \<and> (\<exists>p a us tok d v u d2 v2 u2 d3 v3.
         p \<in> set (fst (sanitize_peers (dial_set (h_peers h) su race)))
         \<and> client_add (timed jh d) tok p us v = (Inr a, u)
         \<and> promote_attempt jh tok p (ar_self_id a) d2 v2 = (None, u2)
         \<and> confirm_attempt jh d3 v3 = (None, w1)
         \<and> {EvAdd p, EvStart, EvReady, EvPromote p (ar_self_id a)} \<subseteq> set l \<and> last l = EvStatus)"
  by (rule joined_facts [OF run fresh])

theorem join_success_witness:
  "\<exists>h1 w1 d v. demo_join 200 = (None, h1, w1) \<and> n_started (h_node h1) \<and> h_joining h1
     \<and> confirm_attempt (demo_jhost 200) d v = (None, w1) \<and> last (r_log w1) = EvStatus"
proof -
  obtain r h1 w1 where d: "demo_join 200 = (r, h1, w1)" by (metis prod_cases3)
  note v = demo_join_ok [unfolded d join_view_def]
  have r: "r = None" using v by simp
  have l: "r_log w1 = r_log demo_disk @ r_log w1" by (simp add: demo_joiner_flags(6))
  note j = join_success [OF d [unfolded demo_join_def r] l demo_joiner_flags(1,2)]
  then obtain d3 v3 where "confirm_attempt (demo_jhost 200) d3 v3 = (None, w1)" "last (r_log w1) = EvStatus"
    by (elim conjE exE) (rule that)
  then show ?thesis using d r j by (intro exI conjI) (assumption | simp)+
qed

end
