(* ===== verification/Join_Recovery.thy ===== *)
theory Join_Recovery
  imports Join_Safety
begin

text \<open>
  The role decision of \<open>Join\<close>, and what a retry of a failed join meets: the seed that a
  corrupt snapshot left behind, and the cluster token that discovery has replaced.
\<close>

section \<open>Starting without joining\<close>

lemma start_grows:
  assumes "start em ho b w = (r, b1, w1)"
  shows "grows node_events w w1"
proof -
  obtain b2 w2 where s: "server em ho b w = (b2, w2)" by force
  have g: "grows node_events w w2" using server_log [OF s] by (auto simp: grows_def node_events_def)
  from s assms show ?thesis
  proof (cases rule: start_phases)
    case (Served b4 w4 l)
    have "r_log w1 = r_log w4 \<or> r_log w1 = r_log w4 @ [EvReady]"
      using Served(12) by (auto dest: await_ready_log split: option.splits if_splits)
    then have "grows node_events w2 w1" using Served(9,10) by (auto simp: grows_def node_events_def)
    then show ?thesis by (rule grows_trans [OF g])
  qed (use g in simp)
qed

lemma run_start_frame:
  assumes "run_start em jh h w = (r, h1, w1)"
  shows "grows node_events w w1 \<and> h_joining h1 = h_joining h \<and> h_exhausted h1 = h_exhausted h"
proof -
  obtain x b v where s: "start em (jh_host jh) (h_node h) w = (x, b, v)" by (metis prod_cases3)
  then show ?thesis using assms start_grows [OF s] by (cases x) (auto simp: run_start_def)
qed

lemma grows_id: "grows S w w1 \<Longrightarrow> r_log w1 = r_log w @ l \<Longrightarrow> ev \<in> set l \<Longrightarrow> ev \<in> S"
  using growsD by blast

section \<open>Properties\<close>



text \<open>C0. A corrupt snapshot poisons the handle: without \<open>WithDir\<close>, a seed whose digest is wrong
  fails before the local server starts, so the handle may be joined again; but the temporary
  directory it created is now the node's data directory and holds the copied database (and no
  WAL), so that every later seeding on the handle reports success without restoring
  anything.\<close>

theorem corrupt_seed_retry:
  assumes dir: "c_dir (n_cfg b) = []"
    and tmp: "ho_mktemp (jh_host jh) ''libetcd-'' (r_fs w) (r_env w) = (Inr d, e)" "d \<noteq> []" "fs_dir_empty d (r_fs w)"
    and scr: "jh_scratch jh e = (None, e2)" and st: "snd (ar_snapshot a) = False"
    and ids: "ar_self_id a \<noteq> 0" "ar_cluster_id a \<noteq> 0" and faults: "\<And>s. jh_faults jh s = None"
    and size: "32 \<le> length (fst (ar_snapshot a))"
    and bad: "\<not> has_checksum (length (fst (ar_snapshot a))) \<or>
      drop (length (fst (ar_snapshot a)) - 32) (fst (ar_snapshot a))
        \<noteq> sha256 (take (length (fst (ar_snapshot a)) - 32) (fst (ar_snapshot a)))"
    and run: "seed_from_snapshot em jh a nm b w = (r, b1, w1)" and ok: "n_cause b1 = None"
  shows "r \<noteq> None \<and> c_dir (n_cfg b1) = d \<and> \<not> fs_exists (d @ ''/member/wal'') (r_fs w1)
    \<and> (r_fs w2 = r_fs w1 \<longrightarrow> seed_from_snapshot em jh a2 nm2 b1 w2 = (None, b1, w2))"
proof -
  let ?f = "\<lambda>b. Inr (b\<lparr>n_cfg := (n_cfg b)\<lparr>c_dir := d\<rparr>\<rparr>)"
  let ?v = "(emit EvMkTemp w)\<lparr>r_env := e, r_fs := fs_put d Dir (r_fs w)\<rparr>"
  have sd: "seed_dir em jh b w = (Inr (Some d), mutate em ?f b, ?v)"
    by (simp add: seed_dir_def dir mktemp_run_def tmp)
  let ?c = "\<lparr>rc_snapshot = fst (ar_snapshot a), rc_name = nm, rc_self_id = ar_self_id a, rc_cluster_id = ar_cluster_id a,
     rc_members = name_self (ar_self_id a) nm (ar_members a), rc_data_dir = d, rc_wal_dir = [], rc_skip_hash = False\<rparr>"
  have em: "fs_dir_empty d (fs_put d Dir (r_fs w))" using tmp(3) by (simp add: fs_dir_empty_def)
  obtain x g where g: "restore (jh_storage jh) (jh_faults jh) ?c (fs_put d Dir (r_fs w)) = (Inl x, g)"
    "\<not> fs_exists (d @ ''/member/wal'') g" "\<not> fs_dir_empty d g"
    using corrupt_restore [of d "fs_put d Dir (r_fs w)" ?c "jh_faults jh" "jh_storage jh"] em tmp(2) ids size faults bad
    by auto
  have res: "r = Some x" "b1 = mutate em ?f b" "r_fs w1 = g"
    using run sd scr st g(1) by (auto simp: seed_from_snapshot_def)
  have cd: "c_dir (n_cfg b1) = d"
    using ok unfolding res(2) by (auto elim!: mutate_accepted)
  have ex: "fs_exists d g" using g(3) by (simp add: fs_exists_def fs_dir_empty_def)
  have "seed_from_snapshot em jh a2 nm2 b1 w2 = (None, b1, w2)" if "r_fs w2 = r_fs w1"
    using that cd tmp(2) ex g(3) res(3) by (simp add: seed_from_snapshot_def seed_dir_def)
  then show ?thesis using res cd g(2) by simp
qed

definition demo_bad_add :: add_result where
  "demo_bad_add = \<lparr>ar_self_id = 2, ar_cluster_id = 7, ar_members = [], ar_snapshot = (replicate 40 CHR ''A'', False)\<rparr>"

theorem corrupt_seed_retry_witness:
  "\<exists>r b1 w1. seed_from_snapshot demo_embed (demo_jhost 200) demo_bad_add ''n1'' demo_node demo_run0 = (r, b1, w1)
     \<and> r \<noteq> None \<and> \<not> fs_exists ''/tmp/n1/member/wal'' (r_fs w1)
     \<and> seed_from_snapshot demo_embed (demo_jhost 200) demo_bad_add ''n1'' b1 w1 = (None, b1, w1)"
proof -
  obtain r b1 w1 where s: "seed_from_snapshot demo_embed (demo_jhost 200) demo_bad_add ''n1'' demo_node demo_run0 = (r, b1, w1)"
    by (metis prod_cases3)
  have ok: "n_cause b1 = None"
  proof -
    have "n_cause (fst (snd (seed_from_snapshot demo_embed (demo_jhost 200) demo_bad_add ''n1'' demo_node demo_run0))) = None"
      by code_simp
    then show ?thesis using s by simp
  qed
  have h: "c_dir (n_cfg demo_node) = []" "fs_dir_empty ''/tmp/n1'' (r_fs demo_run0)" by code_simp+
  have t: "ho_mktemp (jh_host (demo_jhost 200)) ''libetcd-'' (r_fs demo_run0) (r_env demo_run0) = (Inr ''/tmp/n1'', ())"
    "jh_scratch (demo_jhost 200) () = (None, ())" "\<And>s. jh_faults (demo_jhost 200) s = None"
    by (simp_all add: demo_jhost_def demo_host_def)
  have a: "snd (ar_snapshot demo_bad_add) = False" "ar_self_id demo_bad_add \<noteq> 0" "ar_cluster_id demo_bad_add \<noteq> 0"
    "32 \<le> length (fst (ar_snapshot demo_bad_add))" "\<not> has_checksum (length (fst (ar_snapshot demo_bad_add)))"
    by (simp_all add: demo_bad_add_def has_checksum_def)
  from corrupt_seed_retry [OF h(1) t(1) _ h(2) t(2) a(1-3) t(3) a(4) disjI1 [OF a(5)] s ok, of w1 demo_bad_add "''n1''"] s
  show ?thesis by auto
qed

text \<open>C28. A failed discovery join spoils the credential: the verified sub replaces the cluster
  token, from which the next attempt takes the JWT; so a retry on the same handle presents
  the sub as its bearer, and fails when the seed does not accept it.\<close>

theorem discovery_retry_token:
  assumes jwt: "c_cluster_token (n_cfg (h_node h)) = jwt" "jwt \<noteq> []" "sub \<noteq> []"
    and ui: "seed_userinfo (jh_seed jh) (s0\<lparr>sd_token := jwt\<rparr>) (join_done (n_user_ctx (h_node h)) (r_now w)) w = (Inr sub, w1)"
    and cl: "seed_claim (jh_seed jh) (s0\<lparr>sd_token := jwt\<rparr>) (join_done (n_user_ctx (h_node h)) (r_now w)) w1 = (Inl e, w2)"
    and run: "join_via_discovery em jh s0 h w = (r, h1, w2)" and ok: "n_cause (h_node h1) = None"
    and rej: "seed_userinfo (jh_seed jh) (s0\<lparr>sd_token := sub\<rparr>) (join_done (n_user_ctx (h_node h1)) (r_now w3)) w3 = (Inl e3, w4)"
  shows "r = Some (JDiscovery (''claim: '' @ e)) \<and> c_cluster_token (n_cfg (h_node h1)) = sub
    \<and> join_via_discovery em jh s0 h1 w3 = (Some (JDiscovery (''userinfo: '' @ e3)), h1, w4)"
proof -
  let ?b = "(h_node h)\<lparr>n_join_credential := jwt, n_join_userinfo := userinfo_url (s0\<lparr>sd_token := jwt\<rparr>), n_leave_on_stop := True\<rparr>"
  have h1: "h1 = h\<lparr>h_node := with_cluster_token em sub ?b\<rparr>" and r: "r = Some (JDiscovery (''claim: '' @ e))"
    using run jwt ui cl by (auto simp: join_via_discovery_def Let_def)
  have "n_cause (with_cluster_token em sub ?b) = None" using ok by (simp add: h1)
  then have t: "c_cluster_token (n_cfg (h_node h1)) = sub"
    unfolding h1 with_cluster_token_def by (auto elim!: mutate_accepted)
  then show ?thesis using r rej jwt(3) by (simp add: join_via_discovery_def Let_def)
qed

definition demo_seed :: seed where
  "demo_seed = \<lparr>sd_base = ''http://seed:80'', sd_desc = \<lparr>de_discovery = ''/d'', de_token = ''/t'', de_userinfo = ''/u'',
     de_claim = ''/c'', de_register = ''/r'', de_roster = ''/o''\<rparr>, sd_token = [], sd_timeout = 10000\<rparr>"

text \<open>A seed that knows the bearer \<open>jwt\<close> only, and whose claim endpoint is unavailable.\<close>

definition demo_seed_host :: "unit jhost" where
  "demo_seed_host = (demo_jhost 200)\<lparr>jh_seed := (\<lambda>t q e.
     ((Inr (if sq_bearer q \<noteq> Some ''jwt'' then reply 401 ''unknown token''
            else if sq_method q = ''GET'' then reply 200 (json_print (JObj [(''sub'', JStr ''me'')]))
            else reply 503 []), 1), e))\<rparr>"

definition demo_token_handle :: handle where
  "demo_token_handle = demo_joiner\<lparr>h_node := with_cluster_token demo_embed ''jwt'' (h_node demo_joiner)\<rparr>"

lemma demo_seed_texts:
  "url_parse ''http://seed:80/u'' \<noteq> None" "url_parse ''http://seed:80/c'' \<noteq> None"
  "length (json_print (JObj [(''sub'', JStr ''me'')])) = 12"
  "Option.bind (Option.bind (json_decode (json_print (JObj [(''sub'', JStr ''me'')]))) json_to_obj) (json_get json_to_string ''sub'') = Some ''me''"
  "seed_status_error ''userinfo'' (reply 401 ''unknown token'') = ''userinfo: 401: unknown token''"
  "seed_status_error ''claim'' (reply 503 []) = ''claim: 503: ''"
  by code_simp+

lemma demo_seed_answers:
  "fst (seed_userinfo (jh_seed demo_seed_host) (demo_seed\<lparr>sd_token := tok\<rparr>) d w)
     = (if tok = ''jwt'' then Inr ''me'' else Inl ''userinfo: 401: unknown token'')"
  "fst (seed_claim (jh_seed demo_seed_host) (demo_seed\<lparr>sd_token := ''jwt''\<rparr>) d w) = Inl ''claim: 503: ''"
  using demo_seed_texts
  by (auto simp: seed_userinfo_def seed_claim_def seed_do_def seed_call_def demo_seed_host_def demo_seed_def reply_def)

theorem discovery_retry_token_witness:
  "\<exists>h1 w1. join_via_discovery demo_embed demo_seed_host demo_seed demo_token_handle demo_run0
       = (Some (JDiscovery ''claim: claim: 503: ''), h1, w1)
     \<and> fst (join_via_discovery demo_embed demo_seed_host demo_seed h1 w1)
       = Some (JDiscovery ''userinfo: userinfo: 401: unknown token'')"
proof -
  let ?h = demo_token_handle and ?w = "demo_run0" and ?hc = "jh_seed demo_seed_host"
  let ?now = "\<lambda>h w. join_done (n_user_ctx (h_node h)) (r_now (w :: unit run))"
  obtain r h1 w1 where j: "join_via_discovery demo_embed demo_seed_host demo_seed ?h ?w = (r, h1, w1)" by (metis prod_cases3)
  obtain x v where u: "seed_userinfo ?hc (demo_seed\<lparr>sd_token := ''jwt''\<rparr>) (?now ?h ?w) ?w = (x, v)" by force
  obtain y v2 where c: "seed_claim ?hc (demo_seed\<lparr>sd_token := ''jwt''\<rparr>) (?now ?h ?w) v = (y, v2)" by force
  obtain z v3 where q: "seed_userinfo ?hc (demo_seed\<lparr>sd_token := ''me''\<rparr>) (?now h1 w1) w1 = (z, v3)" by force
  have xyz: "x = Inr ''me''" "y = Inl ''claim: 503: ''" "z = Inl ''userinfo: 401: unknown token''"
    using demo_seed_answers(1) [of "''jwt''" "?now ?h ?w" ?w] demo_seed_answers(2) [of "?now ?h ?w" v]
      demo_seed_answers(1) [of "''me''" "?now h1 w1" w1] u c q by simp_all
  have t: "c_cluster_token (n_cfg (h_node ?h)) = ''jwt''"
    "n_cause (with_cluster_token demo_embed ''me'' ((h_node ?h)\<lparr>n_join_credential := ''jwt'',
      n_join_userinfo := userinfo_url (demo_seed\<lparr>sd_token := ''jwt''\<rparr>), n_leave_on_stop := True\<rparr>)) = None"
    by code_simp+
  have jr: "h1 = ?h\<lparr>h_node := with_cluster_token demo_embed ''me'' ((h_node ?h)\<lparr>n_join_credential := ''jwt'',
      n_join_userinfo := userinfo_url (demo_seed\<lparr>sd_token := ''jwt''\<rparr>), n_leave_on_stop := True\<rparr>)\<rparr>" "w1 = v2"
    using j u c t(1) xyz by (simp_all add: join_via_discovery_def Let_def)
  then have ok: "n_cause (h_node h1) = None" using t(2) by simp
  show ?thesis
    using discovery_retry_token [OF t(1) _ _ u [unfolded xyz] c [unfolded xyz] j [unfolded jr(2)] ok q [unfolded xyz]] j by simp
qed

end
