(* ===== verification/Join_Discovery.thy ===== *)
theory Join_Discovery
  imports Join_Recovery
begin

text \<open>
  The role of a node that joins through a discovery seed: what it has asked the seed and the
  cluster when it advertises itself.
\<close>

section \<open>The discovery path\<close>

lemma seed_do_log: "seed_do hc s d m p c w = (r, w1) \<Longrightarrow> r_log w1 = r_log w"
  by (auto simp: seed_do_def seed_call_def elapse_def split: option.splits prod.splits)

lemma seed_ops_log:
  "seed_userinfo hc s d w = (x, w1) \<Longrightarrow> r_log w1 = r_log w @ [EvUserinfo]"
  "seed_claim hc s d w = (y, w1) \<Longrightarrow> r_log w1 = r_log w @ [EvClaim]"
  "seed_register hc s d i u w = (z, w1) \<Longrightarrow> r_log w1 = r_log w @ [EvRegister u]"
  "seed_roster hc s d w = (q, w1) \<Longrightarrow> r_log w1 = r_log w @ [EvRoster]"
  by (auto simp: seed_userinfo_def seed_claim_def seed_register_def seed_roster_def dest!: seed_do_log
      split: sum.splits prod.splits if_splits option.splits)

lemma roster_wait_run:
  "roster_wait hc s d w = (x, w1) \<Longrightarrow>
     (\<exists>k. r_log w1 = r_log w @ replicate (Suc k) EvRoster)
     \<and> (\<forall>ps. x = Inr ps \<longrightarrow> ps \<noteq> [] \<and> (\<exists>v. seed_roster hc s d v = (Inr ps, w1)))"
proof (induction hc s d w rule: roster_wait.induct)
  case (1 hc s d w)
  obtain y v where q: "seed_roster hc s d w = (y, v)" by force
  note l = seed_ops_log(4) [OF q]
  have one: ?case if "r_log w1 = r_log v" "\<forall>ps. x = Inr ps \<longrightarrow> y = Inr ps \<and> ps \<noteq> [] \<and> w1 = v"
    using that l q by (auto intro: exI [of _ 0])
  show ?case
  proof (cases "y = Inr [] \<and> r_now v + 1000 < d")
    case True
    then have "roster_wait hc s d (v\<lparr>r_now := r_now v + 1000\<rparr>) = (x, w1)"
      using "1.prems" by (simp add: roster_wait.simps [of hc s d w] q)
    from "1.IH" [OF q [symmetric] conjunct1 [OF True] _ conjunct2 [OF True] this] show ?thesis
      using l by (auto simp: replicate_app_Cons_same [symmetric] intro: exI [of _ "Suc _"])
  next
    case False
    then show ?thesis using "1.prems" one
      by (auto simp: roster_wait.simps [of hc s d w] q split: sum.splits if_splits)
  qed
qed

lemma register_run:
  assumes "register_with_seed jh s h w = (r, h1, w1)"
  shows "(r_log w1 = r_log w \<and> r \<noteq> None \<and> self_peer_urls (h_node h) = [] \<or>
      self_peer_urls (h_node h1) \<noteq> [] \<and> r_log w1 = r_log w @ [EvRegister (hd (self_peer_urls (h_node h1)))]
      \<and> (r = None \<longrightarrow> h_keepalive h1)) \<and> h_node h1 = h_node h"
  using assms by (cases "self_peer_urls (h_node h)")
    (auto simp: register_with_seed_def dest!: seed_ops_log(3) split: prod.splits option.splits)

lemma join_resolved_quiet:
  assumes "join_resolved em jh su race h w = (r, h1, w1)"
  shows "grows {ev. \<not> disco_call ev} w w1"
  using assms
proof (cases rule: join_resolved_cases)
  case (Guarded e h2)
  then show ?thesis using join_prepare_run [OF Guarded(3)] by (auto elim!: grows_mono simp: disco_call_def)
next
  case (Joined pl h2 w2 pg b)
  have "grows {ev. \<not> disco_call ev} w w2" "grows {ev. \<not> disco_call ev} w2 w1"
    using join_prepare_run [OF Joined(3)] join_run_frame [OF Joined(4)]
    by (auto elim!: grows_mono simp: disco_call_def run_events_def)
  then show ?thesis by (rule grows_trans)
next
  case (Failed pl h2 w2 pg b w3 e h3)
  have "grows {ev. \<not> disco_call ev} w w2" "grows {ev. \<not> disco_call ev} w2 w3"
    using join_prepare_run [OF Failed(3)] join_run_frame [OF Failed(4)]
    by (auto elim!: grows_mono simp: disco_call_def run_events_def)
  then have "grows {ev. \<not> disco_call ev} w w3" by (rule grows_trans)
  then show ?thesis using grows_mono [OF abort_no_adds [OF Failed(6), of UNIV]] by (rule grows_trans) blast
qed simp

lemma token_flags:
  "n_server_once (with_cluster_token em x b) = n_server_once b \<and> n_start_once (with_cluster_token em x b) = n_start_once b"
  unfolding with_cluster_token_def by (intro conjI mutate_obs) auto

text \<open>The runs of \<open>joinViaDiscovery\<close> that got an answer to their claim.\<close>

lemma join_via_discovery_cases:
  assumes "join_via_discovery em jh s0 h w = (r, h1, w1)" "s = s0\<lparr>sd_token := c_cluster_token (n_cfg (h_node h))\<rparr>"
    and d: "d = join_done (n_user_ctx (h_node h)) (r_now w)"
    and fresh: "\<not> n_server_once (h_node h)" "\<not> n_start_once (h_node h)"
  obtains (Early) k where "r_log w1 = r_log w @ take k [EvUserinfo, EvClaim]" "r \<noteq> None"
  | (Won) h2 v1 v2 v3 q where "r_log v1 = r_log w @ [EvUserinfo]" "seed_claim (jh_seed jh) s d v1 = (Inr True, v2)"
      "grows node_events v2 v3" "q = None \<longrightarrow> register_with_seed jh s h2 v3 = (r, h1, w1)"
      "q \<noteq> None \<longrightarrow> r = q \<and> w1 = v3"
  | (Lost) h2 h3 v1 v2 v3 v4 ps q where "r_log v1 = r_log w @ [EvUserinfo]" "seed_claim (jh_seed jh) s d v1 = (Inr False, v2)"
      "roster_wait (jh_seed jh) s d v2 = (Inr ps, v3)"
      "join_resolved em jh (self_peer_urls (h_node h2)) False h2 v3 = (q, h3, v4)" "h_peers h2 = ps"
      "\<not> n_server_once (h_node h2)" "\<not> n_start_once (h_node h2)"
      "q = None \<longrightarrow> register_with_seed jh s h3 v4 = (r, h1, w1)" "q \<noteq> None \<longrightarrow> r = q \<and> w1 = v4"
  | (Empty) v1 v2 k where "r_log v1 = r_log w @ [EvUserinfo]" "seed_claim (jh_seed jh) s d v1 = (Inr False, v2)"
      "r_log w1 = r_log v2 @ replicate (Suc k) EvRoster" "r \<noteq> None"
proof (cases "c_cluster_token (n_cfg (h_node h)) = []")
  case True
  then show ?thesis using assms Early [of 0] by (auto simp: join_via_discovery_def Let_def)
next
  case False
  let ?hc = "jh_seed jh"
  obtain x v1 where u: "seed_userinfo ?hc s d w = (x, v1)" by force
  obtain y v2 where c: "seed_claim ?hc s d v1 = (y, v2)" by force
  note lu = seed_ops_log(1) [OF u] and lc = seed_ops_log(2) [OF c]
  show ?thesis
  proof (cases x)
    case (Inl e)
    then show ?thesis using assms False u lu Early [of 1] by (auto simp: join_via_discovery_def Let_def)
  next
    case (Inr sub)
    let ?h = "h\<lparr>h_node := with_cluster_token em sub ((h_node h)\<lparr>n_join_credential := c_cluster_token (n_cfg (h_node h)),
                n_join_userinfo := userinfo_url s, n_leave_on_stop := True\<rparr>)\<rparr>"
    have run: "(case y of Inl e \<Rightarrow> (Some (JDiscovery (''claim: '' @ e)), ?h, v2)
        | Inr True \<Rightarrow>
            (case run_start em jh ?h v2 of (Some e, h2, w3) \<Rightarrow> (Some e, h2, w3)
             | (None, h2, w3) \<Rightarrow> register_with_seed jh s h2 w3)
        | Inr False \<Rightarrow>
            (case roster_wait ?hc s d v2 of (Inl e, w3) \<Rightarrow> (Some (JDiscovery (''roster: '' @ e)), ?h, w3)
             | (Inr peers, w3) \<Rightarrow>
                 (case join_resolved em jh (self_peer_urls (h_node (?h\<lparr>h_peers := peers\<rparr>))) False (?h\<lparr>h_peers := peers\<rparr>) w3 of
                    (Some e, h3, w4) \<Rightarrow> (Some e, h3, w4)
                  | (None, h3, w4) \<Rightarrow> register_with_seed jh s h3 w4))) = (r, h1, w1)"
      using assms(1) False u c Inr unfolding join_via_discovery_def Let_def assms(2) [symmetric] d [symmetric] by simp
    show ?thesis
    proof (cases y)
      case (Inl e)
      then show ?thesis using run lu lc by (intro Early [of 2]) auto
    next
      case (Inr won)
      show ?thesis
      proof (cases won)
        case True
        obtain q h2 v3 where st: "run_start em jh ?h v2 = (q, h2, v3)" by (metis prod_cases3)
        show ?thesis
          by (rule Won [OF lu c [unfolded Inr eqTrueI [OF True]] conjunct1 [OF run_start_frame [OF st]], where q = q and ?h2.0 = h2])
            (use run Inr True st in auto)
      next
        case False
        obtain z v3 where ro: "roster_wait ?hc s d v2 = (z, v3)" by force
        show ?thesis
        proof (cases z)
          case (Inl e)
          then show ?thesis using Empty [OF lu] c run \<open>y = Inr won\<close> False ro roster_wait_run [OF ro] by auto
        next
          case (Inr ps)
          obtain q h3 v4 where j: "join_resolved em jh (self_peer_urls (h_node (?h\<lparr>h_peers := ps\<rparr>))) False (?h\<lparr>h_peers := ps\<rparr>) v3 = (q, h3, v4)"
            by (metis prod_cases3)
          show ?thesis
            by (rule Lost [OF lu _ ro [unfolded Inr] j])
              (use run c \<open>y = Inr won\<close> False ro Inr j token_flags fresh in auto)
        qed
      qed
    qed
  qed
qed


text \<open>A seed that grants every claim.\<close>

definition demo_open_seed :: "unit jhost" where
  "demo_open_seed = (demo_jhost 200)\<lparr>jh_seed := (\<lambda>t q e.
     ((Inr (if sq_method q = ''GET'' then reply 200 (json_print (JObj [(''sub'', JStr ''me'')])) else reply 200 []), 1), e))\<rparr>"

lemma demo_open_answers:
  "seed_userinfo (jh_seed demo_open_seed) (demo_seed\<lparr>sd_token := t\<rparr>) d w = (Inr ''me'', elapse 1 (emit EvUserinfo w))"
  "seed_claim (jh_seed demo_open_seed) (demo_seed\<lparr>sd_token := t\<rparr>) d w = (Inr True, elapse 1 (emit EvClaim w))"
  "seed_register (jh_seed demo_open_seed) (demo_seed\<lparr>sd_token := t\<rparr>) d i u w = (None, elapse 1 (emit (EvRegister u) w))"
proof -
  obtain a b c where "url_parse ''http://seed:80/u'' = Some a" "url_parse ''http://seed:80/c'' = Some b" "url_parse ''http://seed:80/r'' = Some c"
    using demo_seed_texts(1,2) by (cases "url_parse ''http://seed:80/r''") (auto, code_simp)
  then show
    "seed_userinfo (jh_seed demo_open_seed) (demo_seed\<lparr>sd_token := t\<rparr>) d w = (Inr ''me'', elapse 1 (emit EvUserinfo w))"
    "seed_claim (jh_seed demo_open_seed) (demo_seed\<lparr>sd_token := t\<rparr>) d w = (Inr True, elapse 1 (emit EvClaim w))"
    "seed_register (jh_seed demo_open_seed) (demo_seed\<lparr>sd_token := t\<rparr>) d i u w = (None, elapse 1 (emit (EvRegister u) w))"
    using demo_seed_texts(3,4)
    by (simp_all add: seed_userinfo_def seed_claim_def seed_register_def seed_do_def seed_call_def demo_open_seed_def demo_seed_def
        reply_def elapse_def emit_def)
qed

definition demo_booted :: "failure option \<times> handle \<times> unit run" where
  "demo_booted = run_start demo_embed demo_open_seed
     (demo_token_handle\<lparr>h_node := with_cluster_token demo_embed ''me'' ((h_node demo_token_handle)\<lparr>n_join_credential := ''jwt'',
        n_join_userinfo := userinfo_url (demo_seed\<lparr>sd_token := ''jwt''\<rparr>), n_leave_on_stop := True\<rparr>)\<rparr>)
     (elapse 1 (emit EvClaim (elapse 1 (emit EvUserinfo demo_run0))))"

lemma demo_booted:
  "fst demo_booted = None" "self_peer_urls (h_node (fst (snd demo_booted))) \<noteq> []"
  "EvRoster \<notin> set (r_log (snd (snd demo_booted)))"
  by code_simp+

lemma demo_open_join:
  "fst (join_via_discovery demo_embed demo_open_seed demo_seed demo_token_handle demo_run0) = None"
  "EvRoster \<notin> set (r_log (snd (snd (join_via_discovery demo_embed demo_open_seed demo_seed demo_token_handle demo_run0))))"
proof -
  have t: "c_cluster_token (n_cfg (h_node demo_token_handle)) = ''jwt''" by code_simp
  obtain h v where b: "demo_booted = (None, h, v)" using demo_booted(1) by (metis prod_cases3 fst_conv)
  obtain u us where "self_peer_urls (h_node h) = u # us" using demo_booted(2) unfolding b by (cases "self_peer_urls (h_node h)") auto
  then have "join_via_discovery demo_embed demo_open_seed demo_seed demo_token_handle demo_run0
      = (None, h\<lparr>h_keepalive := True\<rparr>, elapse 1 (emit (EvRegister u) v))"
    using b unfolding demo_booted_def by (simp add: join_via_discovery_def Let_def t demo_open_answers register_with_seed_def)
  then show "fst (join_via_discovery demo_embed demo_open_seed demo_seed demo_token_handle demo_run0) = None"
    "EvRoster \<notin> set (r_log (snd (snd (join_via_discovery demo_embed demo_open_seed demo_seed demo_token_handle demo_run0))))"
    using demo_booted(3) unfolding b by (simp_all add: elapse_def)
qed


end
