(* ===== verification/Disco_Store.thy ===== *)
theory Disco_Store
  imports Go_Http Go_Json_Print Go_Sha256
begin

text \<open>
  The backing state of the discovery service: the interface \<open>store.Store\<close>
  (\<open>cmd/disco/internal/store/store.go\<close>) and its implementation on kvdb.io
  (\<open>cmd/disco/internal/store/kvdb/kvdb.go\<close>).  The HTTP service kvdb.io is a parameter.  The
  contract of the interface is a locale; the kvdb client is interpreted in it.
\<close>

section \<open>The interface\<close>

datatype store_err = NotImplemented | Backend string

record 'e store =
  st_claim :: "string \<Rightarrow> 'e \<Rightarrow> (store_err + bool) \<times> 'e"
  st_register :: "string \<Rightarrow> string \<Rightarrow> string \<Rightarrow> 'e \<Rightarrow> store_err option \<times> 'e"
  st_roster :: "string \<Rightarrow> 'e \<Rightarrow> (store_err + string list) \<times> 'e"

text \<open>
  What every store owes the service: an operation for a sub touches that sub's namespace
  only.  \<open>own sub e e1\<close> says that the step from \<open>e\<close> to \<open>e1\<close> does.
\<close>

locale namespaced_store =
  fixes st :: "'e store" and own :: "string \<Rightarrow> 'e \<Rightarrow> 'e \<Rightarrow> bool"
  assumes claim_own: "own sub e (snd (st_claim st sub e))"
    and register_own: "own sub e (snd (st_register st sub i u e))"
    and roster_own: "own sub e (snd (st_roster st sub e))"

section \<open>The kvdb client\<close>

record kv_client =
  kc_base :: string
  kc_secret :: string
  kc_claim_ttl :: nat
  kc_roster_ttl :: nat

record kv_request =
  kq_method :: string
  kq_url :: url
  kq_user :: string
  kq_no_cache :: bool
  kq_body :: "string option"

type_synonym 'e kv_http = "kv_request \<Rightarrow> 'e \<Rightarrow> (string + response) \<times> 'e"

definition hex_encode :: "string \<Rightarrow> string" where
  "hex_encode s = concat (map (\<lambda>c. [lower_hex (byte c div 16), lower_hex (byte c mod 16)]) s)"

definition seg :: "string \<Rightarrow> string" where
  "seg s = hex_encode (take 12 (sha256 s))"

definition snippet :: "response \<Rightarrow> string" where
  "snippet r = trim_space (take 256 (resp_body r))"

text \<open>Durations are seconds.\<close>

definition ttl_query :: "nat \<Rightarrow> string" where
  "ttl_query d = ''ttl='' @ format_nat d"

definition kvdb_new :: "string \<Rightarrow> string \<Rightarrow> string + kv_client" where
  "kvdb_new bucket secret =
     (if bucket = [] \<or> secret = [] then Inl ''kvdb: DISCO_KVDB_BUCKET and DISCO_KVDB_SECRET are required''
      else Inr \<lparr>kc_base = ''https://kvdb.io/'' @ bucket, kc_secret = secret, kc_claim_ttl = 6, kc_roster_ttl = 10\<rparr>)"

definition kvdb_do ::
  "kv_client \<Rightarrow> 'e kv_http \<Rightarrow> string \<Rightarrow> string \<Rightarrow> string \<Rightarrow> string option \<Rightarrow> 'e \<Rightarrow> (string + response) \<times> 'e" where
  "kvdb_do c hc meth p rawq body e =
     (case url_parse (kc_base c @ p @ with_query rawq) of
        None \<Rightarrow> (Inl ''parse'', e)
      | Some u \<Rightarrow> hc \<lparr>kq_method = meth, kq_url = u, kq_user = kc_secret c, kq_no_cache = True, kq_body = body\<rparr> e)"

definition kvdb_claim :: "kv_client \<Rightarrow> 'e kv_http \<Rightarrow> string \<Rightarrow> 'e \<Rightarrow> (store_err + bool) \<times> 'e" where
  "kvdb_claim c hc sub e =
     (case kvdb_do c hc ''PATCH'' (''/c/'' @ seg sub) (ttl_query (kc_claim_ttl c)) (Some ''+1'') e of
        (Inl err, e1) \<Rightarrow> (Inl (Backend err), e1)
      | (Inr r, e1) \<Rightarrow>
          (if resp_status r \<noteq> 200 then Inl (Backend (''kvdb claim: '' @ format_nat (resp_status r) @ '': '' @ snippet r))
           else
             (case atoi (trim_space (snippet r)) of
                None \<Rightarrow> Inl (Backend (''kvdb claim: bad counter '' @ snippet r))
              | Some n \<Rightarrow> Inr (n = 1)), e1))"

definition kvdb_register :: "kv_client \<Rightarrow> 'e kv_http \<Rightarrow> string \<Rightarrow> string \<Rightarrow> string \<Rightarrow> 'e \<Rightarrow> store_err option \<times> 'e" where
  "kvdb_register c hc sub i u e =
     (case kvdb_do c hc ''PUT'' (''/r/'' @ seg sub @ ''/'' @ seg i) (ttl_query (kc_roster_ttl c)) (Some u) e of
        (Inl err, e1) \<Rightarrow> (Some (Backend err), e1)
      | (Inr r, e1) \<Rightarrow>
          (if resp_status r \<noteq> 200 then Some (Backend (''kvdb register: '' @ format_nat (resp_status r) @ '': '' @ snippet r))
           else None, e1))"

text \<open>A pair without a string value is skipped; \<open>null\<close> unmarshals into the empty string.\<close>

definition roster_values :: "json list list \<Rightarrow> string list" where
  "roster_values ps = List.map_filter (\<lambda>p. if length p < 2 then None else json_to_string (p ! 1)) ps"

definition kvdb_roster :: "kv_client \<Rightarrow> 'e kv_http \<Rightarrow> string \<Rightarrow> 'e \<Rightarrow> (store_err + string list) \<times> 'e" where
  "kvdb_roster c hc sub e =
     (case kvdb_do c hc ''GET'' ''/'' (''prefix=r/'' @ seg sub @ ''/&values=true&format=json'') None e of
        (Inl err, e1) \<Rightarrow> (Inl (Backend err), e1)
      | (Inr r, e1) \<Rightarrow>
          (if resp_status r \<noteq> 200 then Inl (Backend (''kvdb roster: '' @ format_nat (resp_status r) @ '': '' @ snippet r))
           else
             (case Option.bind (json_decode (resp_body r)) (json_to_list (json_to_list Some)) of
                None \<Rightarrow> Inl (Backend ''kvdb roster: decode'')
              | Some ps \<Rightarrow> Inr (roster_values ps)), e1))"

definition kvdb_store :: "kv_client \<Rightarrow> 'e kv_http \<Rightarrow> 'e store" where
  "kvdb_store c hc = \<lparr>st_claim = kvdb_claim c hc, st_register = kvdb_register c hc, st_roster = kvdb_roster c hc\<rparr>"

section \<open>Namespaces\<close>

text \<open>The requests addressed inside the namespace of a sub, and the steps made of at most one
  such request.\<close>

definition kv_addressed :: "kv_client \<Rightarrow> string \<Rightarrow> kv_request \<Rightarrow> bool" where
  "kv_addressed c sub q \<longleftrightarrow>
     (\<exists>rest. url_parse (kc_base c @ ''/c/'' @ seg sub @ rest) = Some (kq_url q)
           \<or> url_parse (kc_base c @ ''/r/'' @ seg sub @ ''/'' @ rest) = Some (kq_url q)
           \<or> kq_method q = ''GET'' \<and> url_parse (kc_base c @ ''/?prefix=r/'' @ seg sub @ ''/'' @ rest) = Some (kq_url q))"

definition kv_own :: "kv_client \<Rightarrow> 'e kv_http \<Rightarrow> string \<Rightarrow> 'e \<Rightarrow> 'e \<Rightarrow> bool" where
  "kv_own c hc sub e e1 \<longleftrightarrow> e1 = e \<or> (\<exists>q. kv_addressed c sub q \<and> kq_user q = kc_secret c \<and> kq_no_cache q \<and> e1 = snd (hc q e))"

lemma kvdb_do_own:
  assumes "kv_addressed c sub \<lparr>kq_method = m, kq_url = the (url_parse (kc_base c @ p @ with_query rq)),
      kq_user = kc_secret c, kq_no_cache = True, kq_body = b\<rparr>
    \<or> url_parse (kc_base c @ p @ with_query rq) = None"
  shows "kv_own c hc sub e (snd (kvdb_do c hc m p rq b e))"
proof (cases "url_parse (kc_base c @ p @ with_query rq)")
  case (Some u)
  then show ?thesis using assms by (auto simp: kvdb_do_def kv_own_def intro!: exI)
qed (simp add: kvdb_do_def kv_own_def)

interpretation kvdb: namespaced_store "kvdb_store c hc" "kv_own c hc" for c hc
proof
  fix sub i u :: string and e
  have snd1: "snd (kvdb_claim c hc sub e) = snd (kvdb_do c hc ''PATCH'' (''/c/'' @ seg sub) (ttl_query (kc_claim_ttl c)) (Some ''+1'') e)"
    by (simp add: kvdb_claim_def split: prod.split sum.split)
  show "kv_own c hc sub e (snd (st_claim (kvdb_store c hc) sub e))"
    unfolding kvdb_store_def store.simps snd1
    by (rule kvdb_do_own) (auto simp: kv_addressed_def)
  have snd2: "snd (kvdb_register c hc sub i u e) =
      snd (kvdb_do c hc ''PUT'' (''/r/'' @ seg sub @ ''/'' @ seg i) (ttl_query (kc_roster_ttl c)) (Some u) e)"
    by (simp add: kvdb_register_def split: prod.split sum.split)
  show "kv_own c hc sub e (snd (st_register (kvdb_store c hc) sub i u e))"
    unfolding kvdb_store_def store.simps snd2
    by (rule kvdb_do_own) (auto simp: kv_addressed_def)
  have snd3: "snd (kvdb_roster c hc sub e) =
      snd (kvdb_do c hc ''GET'' ''/'' (''prefix=r/'' @ seg sub @ ''/&values=true&format=json'') None e)"
    by (simp add: kvdb_roster_def split: prod.split sum.split)
  show "kv_own c hc sub e (snd (st_roster (kvdb_store c hc) sub e))"
    unfolding kvdb_store_def store.simps snd3
    by (rule kvdb_do_own) (auto simp: kv_addressed_def with_query_def)
qed

end
