(* ===== verification/Kvdb_Spec.thy ===== *)
theory Kvdb_Spec
  imports Disco_Store
begin

text \<open>
  What \<open>store.Store\<close> promises (\<open>cmd/disco/internal/store/store.go\<close>) as an abstract
  specification, and the refinement: over a kvdb.io that behaves as the header of
  \<open>kvdb.go\<close> documents, any interleaving of store operations and key expiries answers as
  the specification does.
\<close>

section \<open>The documented service\<close>

definition claim_key :: "string \<Rightarrow> string" where
  "claim_key sub = ''c/'' @ seg sub"

definition entry_key :: "string \<Rightarrow> string \<Rightarrow> string" where
  "entry_key sub i = ''r/'' @ seg sub @ ''/'' @ seg i"

text \<open>
  \<open>live e k\<close> is the unexpired value of a key.  Documented behaviour: \<open>PATCH +1\<close> increments
  atomically, creating as zero; \<open>PUT\<close> stores; a listing returns the live pairs below a prefix.
\<close>

definition kv_documented :: "string \<Rightarrow> string \<Rightarrow> 'e kv_http \<Rightarrow> ('e \<Rightarrow> string \<Rightarrow> string option) \<Rightarrow> bool" where
  "kv_documented bucket secret hc live \<longleftrightarrow>
     (\<forall>e q k. kq_user q = secret \<and> kq_no_cache q \<and> path (kq_url q) = ''/'' @ bucket @ ''/'' @ k \<longrightarrow>
        (kq_method q = ''PATCH'' \<and> kq_body q = Some ''+1'' \<and> pred_option all_digits (live e k) \<longrightarrow>
           (\<exists>n e1. n = Suc (case live e k of None \<Rightarrow> 0 | Some v \<Rightarrow> digits_val 0 v)
              \<and> hc q e = (Inr (reply 200 (format_nat n)), e1) \<and> live e1 = (live e)(k \<mapsto> format_nat n)))
      \<and> (\<forall>v. kq_method q = ''PUT'' \<and> kq_body q = Some v \<longrightarrow>
           (\<exists>r e1. hc q e = (Inr r, e1) \<and> resp_status r = 200 \<and> live e1 = (live e)(k \<mapsto> v)))
      \<and> (\<forall>p. kq_method q = ''GET'' \<and> k = [] \<and> raw_query (kq_url q) = ''prefix='' @ p @ ''&values=true&format=json'' \<longrightarrow>
           (\<exists>r ks e1. hc q e = (Inr r, e1) \<and> resp_status r = 200 \<and> live e1 = live e
              \<and> set ks = {k. has_prefix k p \<and> live e k \<noteq> None}
              \<and> json_decode (resp_body r) =
                  Some (JArr (map (\<lambda>k. JArr [JStr (to_valid k), JStr (to_valid (the (live e k)))]) ks)))))"

section \<open>The specification\<close>

text \<open>Claims and entries by the hashed names; \<open>OLapse\<close> and \<open>OPrune\<close> are expiries.\<close>

record spec =
  sp_claimed :: "string set"
  sp_entries :: "string \<times> string \<Rightarrow> string option"

datatype store_op = OClaim string | ORegister string string string | ORoster string | OLapse string | OPrune string string

datatype answer = AWon bool | ADone | AUrls "string set"

fun spec_step :: "store_op \<Rightarrow> spec \<Rightarrow> answer \<times> spec" where
  "spec_step (OClaim sub) sp = (AWon (seg sub \<notin> sp_claimed sp), sp\<lparr>sp_claimed := insert (seg sub) (sp_claimed sp)\<rparr>)"
| "spec_step (ORegister sub i u) sp = (ADone, sp\<lparr>sp_entries := (sp_entries sp)((seg sub, seg i) \<mapsto> u)\<rparr>)"
| "spec_step (ORoster sub) sp = (AUrls {u. \<exists>i. sp_entries sp (seg sub, i) = Some u}, sp)"
| "spec_step (OLapse sub) sp = (ADone, sp\<lparr>sp_claimed := sp_claimed sp - {seg sub}\<rparr>)"
| "spec_step (OPrune sub i) sp = (ADone, sp\<lparr>sp_entries := (sp_entries sp)((seg sub, seg i) := None)\<rparr>)"

fun spec_run :: "store_op list \<Rightarrow> spec \<Rightarrow> answer list" where
  "spec_run [] sp = []"
| "spec_run (p # ps) sp = (case spec_step p sp of (a, sp1) \<Rightarrow> a # spec_run ps sp1)"

definition spec0 :: spec where
  "spec0 = \<lparr>sp_claimed = {}, sp_entries = Map.empty\<rparr>"

text \<open>A store run over the interface; \<open>expire k\<close> is the passing of the TTL of a key.\<close>

datatype outcome = Won "store_err + bool" | Registered "store_err option" | Urls "store_err + string list" | Expiry

fun store_step :: "'e store \<Rightarrow> (string \<Rightarrow> 'e \<Rightarrow> 'e) \<Rightarrow> store_op \<Rightarrow> 'e \<Rightarrow> outcome \<times> 'e" where
  "store_step st expire (OClaim sub) e = map_prod Won id (st_claim st sub e)"
| "store_step st expire (ORegister sub i u) e = map_prod Registered id (st_register st sub i u e)"
| "store_step st expire (ORoster sub) e = map_prod Urls id (st_roster st sub e)"
| "store_step st expire (OLapse sub) e = (Expiry, expire (claim_key sub) e)"
| "store_step st expire (OPrune sub i) e = (Expiry, expire (entry_key sub i) e)"

fun store_run :: "'e store \<Rightarrow> (string \<Rightarrow> 'e \<Rightarrow> 'e) \<Rightarrow> store_op list \<Rightarrow> 'e \<Rightarrow> outcome list" where
  "store_run st expire [] e = []"
| "store_run st expire (p # ps) e = (case store_step st expire p e of (x, e1) \<Rightarrow> x # store_run st expire ps e1)"

text \<open>An URL comes back as the wire makes it: with its invalid UTF-8 replaced.\<close>

fun meets :: "outcome \<Rightarrow> answer \<Rightarrow> bool" where
  "meets (Won (Inr b)) (AWon c) \<longleftrightarrow> b = c"
| "meets (Registered None) ADone \<longleftrightarrow> True"
| "meets (Urls (Inr us)) (AUrls U) \<longleftrightarrow> set us = to_valid ` U"
| "meets Expiry ADone \<longleftrightarrow> True"
| "meets _ _ \<longleftrightarrow> False"

section \<open>Names\<close>

lemma length_concat_pairs: "length (concat (map (\<lambda>c. [f c, g c]) s)) = 2 * length s"
  by (induction s) auto

lemma length_seg [simp]: "length (seg s) = 24"
  by (simp add: seg_def hex_encode_def length_concat_pairs)

lemma lower_hex_plain: "n < 16 \<Longrightarrow> plain_host_char (lower_hex n)"
  by (auto simp: lower_hex_def plain_host_char_def byte_class_defs)

lemma seg_plain: "list_all plain_host_char (seg s)"
proof -
  have "list_all plain_host_char (hex_encode x)" for x
    using byte_less by (induction x) (auto simp: hex_encode_def intro!: lower_hex_plain less_mult_imp_div_less)
  then show ?thesis by (simp add: seg_def)
qed

lemma keys_inj:
  "claim_key s = claim_key s' \<longleftrightarrow> seg s = seg s'"
  "entry_key s i = entry_key s' i' \<longleftrightarrow> seg s = seg s' \<and> seg i = seg i'"
  "claim_key s \<noteq> entry_key s' i'" "entry_key s' i' \<noteq> claim_key s"
  by (auto simp: claim_key_def entry_key_def append_eq_append_conv)

lemma entry_key_prefix: "has_prefix (entry_key s' i) (''r/'' @ seg s @ ''/'') \<longleftrightarrow> seg s' = seg s"
  by (simp add: has_prefix_def entry_key_def)

lemma claim_key_prefix: "\<not> has_prefix (claim_key s') (''r/'' @ p)"
  by (simp add: has_prefix_def claim_key_def)

lemma plain_path_escape:
  "list_all (\<lambda>c. plain_host_char c \<or> c = CHR ''/'') p \<Longrightarrow> escape EncPath p = p \<and> unescape EncPath p = Some p"
proof (induction p)
  case (Cons c p)
  then have "c \<noteq> CHR ''%''" "\<not> should_escape EncPath c"
    by (auto dest: plain_host_char_not simp: should_escape_def plain_host_char_def Let_def byte_class_defs)
  then show ?case using Cons by simp
qed simp

lemma kvdb_url:
  assumes "kc_base c = ''https://kvdb.io/'' @ bucket" "list_all plain_host_char bucket"
    "list_all (\<lambda>c. plain_host_char c \<or> c = CHR ''/'') k" "list_all query_char q"
  shows "url_parse (kc_base c @ ''/'' @ k @ with_query q)
    = Some (url0\<lparr>scheme := ''https'', host := ''kvdb.io'', path := ''/'' @ bucket @ ''/'' @ k, raw_query := q\<rparr>)"
proof -
  let ?p = "bucket @ ''/'' @ k"
  have a: "list_all (\<lambda>c. plain_host_char c \<or> c = CHR ''/'') (CHR ''/'' # ?p)"
    using assms(2,3) by (auto simp: list_all_iff)
  have "list_all url_char ?p" using a by (auto simp: list_all_iff url_char_def)
  moreover have "plain_host ''kvdb.io''" "plain_tail []" by (simp_all add: plain_host_def plain_host_char_def plain_tail_def byte_class_defs)
  ultimately show ?thesis
    using url_parse_path_query [of "''https''" "''kvdb.io''" "[]" ?p q] plain_path_escape [OF a] assms(1,4) by simp
qed

section \<open>Counters\<close>

lemma length_format_nat: "n < 10 ^ Suc k \<Longrightarrow> length (format_nat n) \<le> Suc k"
proof (induction k arbitrary: n)
  case (Suc k)
  then have "n div 10 < 10 ^ Suc k" by (simp add: less_mult_imp_div_less)
  then show ?case using Suc.IH [of "n div 10"] by (simp add: format_nat.simps [of n])
qed (simp add: format_nat.simps)

lemma digit_solid: "is_digit c \<Longrightarrow> solid c"
  by (simp add: is_digit_def solid_def)

lemma format_nat_digits: "format_nat n \<noteq> [] \<and> list_all is_digit (format_nat n)"
  using format_nat_parse [of n] by (simp add: all_digits_def)

lemma trim_format_nat: "trim_space (format_nat n) = format_nat n"
  using format_nat_digits [of n] by (intro trim_space_solid digit_solid) (auto simp: list_all_iff)

lemma digit_not_sign: "\<not> is_digit (CHR ''+'')" "\<not> is_digit (CHR ''-'')"
  by (simp_all add: byte_class_defs)

lemma atoi_format_nat: "int n < 2 ^ 63 \<Longrightarrow> atoi (format_nat n) = Some (int n)"
proof -
  assume n: "int n < 2 ^ 63"
  obtain c s where f: "format_nat n = c # s" "is_digit c" using format_nat_digits [of n] by (cases "format_nat n") auto
  then have "\<not> has_prefix (format_nat n) ''-''" "\<not> has_prefix (format_nat n) ''+''"
    using digit_not_sign by (auto simp: has_prefix_def)
  then show ?thesis using format_nat_parse [of n] n by (simp add: atoi_def Let_def)
qed

lemma snippet_counter: "int n < 2 ^ 63 \<Longrightarrow> snippet (reply 200 (format_nat n)) = format_nat n"
proof -
  assume "int n < 2 ^ 63"
  then have "length (format_nat n) \<le> 19" using length_format_nat [of n 18] by simp
  then show ?thesis by (simp add: snippet_def reply_def trim_format_nat)
qed

lemma format_nat_query: "list_all query_char (format_nat n)"
  using format_nat_digits [of n] by (auto simp: list_all_iff query_char_def query_plain_def is_alnum_def)

section \<open>One operation\<close>

definition kvdb_client :: "string \<Rightarrow> string \<Rightarrow> kv_client" where
  "kvdb_client bucket secret =
     \<lparr>kc_base = ''https://kvdb.io/'' @ bucket, kc_secret = secret, kc_claim_ttl = 6, kc_roster_ttl = 10\<rparr>"

lemma kvdb_do_documented:
  assumes "list_all plain_host_char bucket" "list_all (\<lambda>c. plain_host_char c \<or> c = CHR ''/'') k" "list_all query_char q"
  shows "kvdb_do (kvdb_client bucket secret) hc m (''/'' @ k) q b e =
    hc \<lparr>kq_method = m, kq_url = url0\<lparr>scheme := ''https'', host := ''kvdb.io'', path := ''/'' @ bucket @ ''/'' @ k, raw_query := q\<rparr>,
       kq_user = secret, kq_no_cache = True, kq_body = b\<rparr> e"
  using kvdb_url [of "kvdb_client bucket secret" bucket k q] assms by (simp add: kvdb_do_def kvdb_client_def)

lemma key_chars:
  "list_all (\<lambda>c. plain_host_char c \<or> c = CHR ''/'') (claim_key s)"
  "list_all (\<lambda>c. plain_host_char c \<or> c = CHR ''/'') (entry_key s i)"
proof -
  have "plain_host_char (CHR ''c'')" "plain_host_char (CHR ''r'')" by code_simp+
  then show "list_all (\<lambda>c. plain_host_char c \<or> c = CHR ''/'') (claim_key s)"
    "list_all (\<lambda>c. plain_host_char c \<or> c = CHR ''/'') (entry_key s i)"
    using seg_plain by (auto simp: claim_key_def entry_key_def list_all_iff)
qed

lemma query_chars:
  "list_all query_char (ttl_query d)"
  "list_all query_char (''prefix=r/'' @ seg s @ ''/&values=true&format=json'')"
proof -
  have "list_all query_char ''ttl=''" "list_all query_char ''prefix=r/''" "list_all query_char ''/&values=true&format=json''"
    by code_simp+
  moreover have "list_all query_char (seg s)"
    using seg_plain [of s] by (auto simp: list_all_iff plain_host_char_def query_char_def query_plain_def)
  ultimately show "list_all query_char (ttl_query d)"
    "list_all query_char (''prefix=r/'' @ seg s @ ''/&values=true&format=json'')"
    using format_nat_query by (simp_all add: ttl_query_def)
qed

lemma kvdb_claim_documented:
  assumes "kv_documented bucket secret hc live" "list_all plain_host_char bucket"
    and v: "live e (claim_key s) = (if j = 0 then None else Some (format_nat j))" "int (Suc j) < 2 ^ 63"
  shows "\<exists>e1. kvdb_claim (kvdb_client bucket secret) hc s e = (Inr (j = 0), e1)
    \<and> live e1 = (live e)(claim_key s \<mapsto> format_nat (Suc j))"
proof -
  let ?q = "\<lparr>kq_method = ''PATCH'', kq_url = url0\<lparr>scheme := ''https'', host := ''kvdb.io'', path := ''/'' @ bucket @ ''/'' @ claim_key s,
     raw_query := ttl_query 6\<rparr>, kq_user = secret, kq_no_cache = True, kq_body = Some ''+1''\<rparr>"
  have "kvdb_do (kvdb_client bucket secret) hc ''PATCH'' (''/'' @ claim_key s) (ttl_query 6) (Some ''+1'') e = hc ?q e"
    by (rule kvdb_do_documented [OF assms(2) key_chars(1) query_chars(1)])
  then have d: "kvdb_do (kvdb_client bucket secret) hc ''PATCH'' (''/c/'' @ seg s) (ttl_query (kc_claim_ttl (kvdb_client bucket secret))) (Some ''+1'') e = hc ?q e"
    by (simp add: claim_key_def kvdb_client_def)
  have "pred_option all_digits (live e (claim_key s))" using v(1) format_nat_parse by simp
  moreover have "(case live e (claim_key s) of None \<Rightarrow> 0 | Some v \<Rightarrow> digits_val 0 v) = j"
    using v(1) format_nat_parse by simp
  ultimately obtain e1 where "hc ?q e = (Inr (reply 200 (format_nat (Suc j))), e1)" "live e1 = (live e)(claim_key s \<mapsto> format_nat (Suc j))"
    using assms(1) [unfolded kv_documented_def, rule_format, of ?q "claim_key s" e] by auto
  moreover have "resp_status (reply 200 (format_nat (Suc j))) = 200" by (simp add: reply_def)
  moreover have "int (Suc j) = 1 \<longleftrightarrow> j = 0" by simp
  ultimately show ?thesis
    using d snippet_counter [OF v(2)] trim_format_nat atoi_format_nat [OF v(2)] unfolding kvdb_claim_def by simp
qed

lemma kvdb_register_documented:
  assumes "kv_documented bucket secret hc live" "list_all plain_host_char bucket"
  shows "\<exists>e1. kvdb_register (kvdb_client bucket secret) hc s i u e = (None, e1) \<and> live e1 = (live e)(entry_key s i \<mapsto> u)"
proof -
  let ?q = "\<lparr>kq_method = ''PUT'', kq_url = url0\<lparr>scheme := ''https'', host := ''kvdb.io'', path := ''/'' @ bucket @ ''/'' @ entry_key s i,
     raw_query := ttl_query 10\<rparr>, kq_user = secret, kq_no_cache = True, kq_body = Some u\<rparr>"
  have "kvdb_do (kvdb_client bucket secret) hc ''PUT'' (''/'' @ entry_key s i) (ttl_query 10) (Some u) e = hc ?q e"
    by (rule kvdb_do_documented [OF assms(2) key_chars(2) query_chars(1)])
  then have d: "kvdb_do (kvdb_client bucket secret) hc ''PUT'' (''/r/'' @ seg s @ ''/'' @ seg i)
      (ttl_query (kc_roster_ttl (kvdb_client bucket secret))) (Some u) e = hc ?q e"
    by (simp add: entry_key_def kvdb_client_def)
  obtain r e1 where "hc ?q e = (Inr r, e1)" "resp_status r = 200" "live e1 = (live e)(entry_key s i \<mapsto> u)"
    using assms(1) [unfolded kv_documented_def, rule_format, of ?q "entry_key s i" e] by auto
  then show ?thesis using d unfolding kvdb_register_def by simp
qed

lemma seq_opt_map_same: "(\<And>x. x \<in> set xs \<Longrightarrow> f x = Some (g x)) \<Longrightarrow> seq_opt (map f xs) = Some (map g xs)"
  by (auto simp: seq_opt_def)

lemma seq_opt_two [simp]: "seq_opt [Some a, Some b] = Some [a, b]"
  by (simp add: seq_opt_def)

lemma kvdb_roster_documented:
  assumes "kv_documented bucket secret hc live" "list_all plain_host_char bucket"
  shows "\<exists>us e1. kvdb_roster (kvdb_client bucket secret) hc s e = (Inr us, e1) \<and> live e1 = live e
    \<and> set us = {to_valid v |k v. has_prefix k (''r/'' @ seg s @ ''/'') \<and> live e k = Some v}"
proof -
  let ?rq = "''prefix=r/'' @ seg s @ ''/&values=true&format=json''"
  let ?q = "\<lparr>kq_method = ''GET'', kq_url = url0\<lparr>scheme := ''https'', host := ''kvdb.io'', path := ''/'' @ bucket @ ''/'' @ [],
     raw_query := ?rq\<rparr>, kq_user = secret, kq_no_cache = True, kq_body = None\<rparr>"
  have d: "kvdb_do (kvdb_client bucket secret) hc ''GET'' (''/'' @ []) ?rq None e = hc ?q e"
    by (rule kvdb_do_documented [OF assms(2) _ query_chars(2)]) simp
  obtain r ks e1 where r: "hc ?q e = (Inr r, e1)" "resp_status r = 200" "live e1 = live e"
    "set ks = {k. has_prefix k (''r/'' @ seg s @ ''/'') \<and> live e k \<noteq> None}"
    "json_decode (resp_body r) = Some (JArr (map (\<lambda>k. JArr [JStr (to_valid k), JStr (to_valid (the (live e k)))]) ks))"
    using assms(1) [unfolded kv_documented_def, rule_format, of ?q "[]" e] by fastforce
  have "roster_values (map (\<lambda>k. [JStr (to_valid k), JStr (to_valid (the (live e k)))]) ks) = map (\<lambda>k. to_valid (the (live e k))) ks"
    by (induction ks) (simp_all add: roster_values_def)
  then have "kvdb_roster (kvdb_client bucket secret) hc s e = (Inr (map (\<lambda>k. to_valid (the (live e k))) ks), e1)"
    using d r unfolding kvdb_roster_def by (simp add: comp_def)
  moreover have "set (map (\<lambda>k. to_valid (the (live e k))) ks) = {to_valid v |k v. has_prefix k (''r/'' @ seg s @ ''/'') \<and> live e k = Some v}"
    using r(4) by force
  ultimately show ?thesis using r(3) by blast
qed

section \<open>The simulation\<close>

definition claims_ok :: "nat \<Rightarrow> string set \<Rightarrow> (string \<Rightarrow> string option) \<Rightarrow> bool" where
  "claims_ok n cs m \<longleftrightarrow>
     (\<forall>s. \<exists>j\<le>n. m (claim_key s) = (if j = 0 then None else Some (format_nat j)) \<and> (seg s \<in> cs \<longleftrightarrow> j \<noteq> 0))"

definition entries_ok :: "(string \<times> string \<Rightarrow> string option) \<Rightarrow> (string \<Rightarrow> string option) \<Rightarrow> bool" where
  "entries_ok es m \<longleftrightarrow>
     (\<forall>s i. m (entry_key s i) = es (seg s, seg i)) \<and> (\<forall>a b. es (a, b) \<noteq> None \<longrightarrow> (\<exists>s i. a = seg s \<and> b = seg i))"

definition keys_ok :: "(string \<Rightarrow> string option) \<Rightarrow> bool" where
  "keys_ok m \<longleftrightarrow> (\<forall>k. m k \<noteq> None \<longrightarrow> (\<exists>s. k = claim_key s) \<or> (\<exists>s i. k = entry_key s i))"

definition abstracts :: "nat \<Rightarrow> spec \<Rightarrow> (string \<Rightarrow> string option) \<Rightarrow> bool" where
  "abstracts n sp m \<longleftrightarrow> claims_ok n (sp_claimed sp) m \<and> entries_ok (sp_entries sp) m \<and> keys_ok m"

lemma abstracts0: "abstracts 0 spec0 Map.empty"
  by (simp add: abstracts_def claims_ok_def entries_ok_def keys_ok_def spec0_def)

lemma claims_ok_mono: "claims_ok n cs m \<Longrightarrow> claims_ok (Suc n) cs m"
  unfolding claims_ok_def using le_SucI by blast

lemma claims_ok_other: "claims_ok n cs (m(entry_key s i := v)) = claims_ok n cs m"
  by (simp add: claims_ok_def keys_inj)

lemma entries_ok_other: "entries_ok es (m(claim_key s := v)) = entries_ok es m"
  by (simp add: entries_ok_def keys_inj)

lemma claims_ok_insert:
  assumes "claims_ok n cs m" "j \<le> n"
  shows "claims_ok (Suc n) (insert (seg s) cs) (m(claim_key s \<mapsto> format_nat (Suc j)))"
  unfolding claims_ok_def
proof
  fix s'
  show "\<exists>i\<le>Suc n. (m(claim_key s \<mapsto> format_nat (Suc j))) (claim_key s') = (if i = 0 then None else Some (format_nat i))
      \<and> (seg s' \<in> insert (seg s) cs) = (i \<noteq> 0)"
  proof (cases "seg s' = seg s")
    case True
    then show ?thesis using assms(2) by (intro exI [of _ "Suc j"]) (simp add: keys_inj del: format_nat.simps)
  next
    case False
    obtain i where "i \<le> n" "m (claim_key s') = (if i = 0 then None else Some (format_nat i))" "seg s' \<in> cs \<longleftrightarrow> i \<noteq> 0"
      using assms(1) unfolding claims_ok_def by blast
    then show ?thesis using False by (intro exI [of _ i]) (simp add: keys_inj del: format_nat.simps)
  qed
qed

lemma claims_ok_lapse:
  assumes "claims_ok n cs m"
  shows "claims_ok (Suc n) (cs - {seg s}) (m(claim_key s := None))"
  unfolding claims_ok_def
proof
  fix s'
  show "\<exists>i\<le>Suc n. (m(claim_key s := None)) (claim_key s') = (if i = 0 then None else Some (format_nat i))
      \<and> (seg s' \<in> cs - {seg s}) = (i \<noteq> 0)"
  proof (cases "seg s' = seg s")
    case True
    then show ?thesis by (intro exI [of _ 0]) (simp add: keys_inj)
  next
    case False
    obtain i where "i \<le> n" "m (claim_key s') = (if i = 0 then None else Some (format_nat i))" "seg s' \<in> cs \<longleftrightarrow> i \<noteq> 0"
      using assms(1) unfolding claims_ok_def by blast
    then show ?thesis using False by (intro exI [of _ i]) (simp add: keys_inj del: format_nat.simps)
  qed
qed

lemma entries_ok_update:
  "entries_ok es m \<Longrightarrow> entries_ok (es((seg s, seg i) := v)) (m(entry_key s i := v))"
  unfolding entries_ok_def by (simp add: keys_inj) metis

lemma keys_ok_update: "keys_ok m \<Longrightarrow> keys_ok (m(claim_key s := v)) \<and> keys_ok (m(entry_key s i := v))"
  by (auto simp: keys_ok_def)

lemma abstracts_roster:
  assumes "abstracts n sp m"
  shows "{to_valid v |k v. has_prefix k (''r/'' @ seg s @ ''/'') \<and> m k = Some v} = to_valid ` {u. \<exists>i. sp_entries sp (seg s, i) = Some u}"
proof -
  have "(\<exists>k. has_prefix k (''r/'' @ seg s @ ''/'') \<and> m k = Some v) \<longleftrightarrow> (\<exists>i. sp_entries sp (seg s, i) = Some v)" for v
  proof
    assume "\<exists>k. has_prefix k (''r/'' @ seg s @ ''/'') \<and> m k = Some v"
    then obtain k where k: "has_prefix k (''r/'' @ seg s @ ''/'')" "m k = Some v" by blast
    then have "(\<exists>s. k = claim_key s) \<or> (\<exists>s i. k = entry_key s i)"
      using assms unfolding abstracts_def keys_ok_def by blast
    then obtain s' i where e: "k = entry_key s' i" using k(1) claim_key_prefix by auto
    then have "seg s' = seg s" using k(1) entry_key_prefix by blast
    then show "\<exists>i. sp_entries sp (seg s, i) = Some v" using k(2) e assms by (auto simp: abstracts_def entries_ok_def)
  next
    assume "\<exists>i. sp_entries sp (seg s, i) = Some v"
    then obtain a where a: "sp_entries sp (seg s, a) = Some v" by blast
    then have "sp_entries sp (seg s, a) \<noteq> None" by simp
    then obtain s' i where "seg s = seg s'" "a = seg i" using assms unfolding abstracts_def entries_ok_def by blast
    then have "m (entry_key s i) = Some v" using a assms by (simp add: abstracts_def entries_ok_def)
    then show "\<exists>k. has_prefix k (''r/'' @ seg s @ ''/'') \<and> m k = Some v" using entry_key_prefix by blast
  qed
  then show ?thesis by blast
qed

lemma store_step_meets:
  assumes doc: "kv_documented bucket secret hc live" "list_all plain_host_char bucket"
    and ex: "\<And>k e. live (expire k e) = (live e)(k := None)"
    and ab: "abstracts n sp (live e)" "int (Suc n) < 2 ^ 63"
  shows "meets (fst (store_step (kvdb_store (kvdb_client bucket secret) hc) expire p e)) (fst (spec_step p sp))
    \<and> abstracts (Suc n) (snd (spec_step p sp)) (live (snd (store_step (kvdb_store (kvdb_client bucket secret) hc) expire p e)))"
proof (cases p)
  case (OClaim s)
  obtain j where j: "j \<le> n" "live e (claim_key s) = (if j = 0 then None else Some (format_nat j))" "seg s \<in> sp_claimed sp \<longleftrightarrow> j \<noteq> 0"
    using ab(1) unfolding abstracts_def claims_ok_def by blast
  obtain e1 where c: "kvdb_claim (kvdb_client bucket secret) hc s e = (Inr (j = 0), e1)"
    "live e1 = (live e)(claim_key s \<mapsto> format_nat (Suc j))"
    using kvdb_claim_documented [OF doc j(2)] j(1) ab(2) by auto
  have "abstracts (Suc n) (sp\<lparr>sp_claimed := insert (seg s) (sp_claimed sp)\<rparr>) (live e1)"
    using ab(1) c(2) j(1) claims_ok_insert keys_ok_update by (simp add: abstracts_def entries_ok_other del: format_nat.simps)
  then show ?thesis using c(1) j(3) OClaim by (simp add: kvdb_store_def)
next
  case (ORegister s i u)
  obtain e1 where c: "kvdb_register (kvdb_client bucket secret) hc s i u e = (None, e1)" "live e1 = (live e)(entry_key s i \<mapsto> u)"
    using kvdb_register_documented [OF doc] by blast
  have "abstracts (Suc n) (sp\<lparr>sp_entries := (sp_entries sp)((seg s, seg i) \<mapsto> u)\<rparr>) (live e1)"
    using ab(1) c(2) claims_ok_mono entries_ok_update keys_ok_update by (simp add: abstracts_def claims_ok_other)
  then show ?thesis using c(1) ORegister by (simp add: kvdb_store_def)
next
  case (ORoster s)
  obtain us e1 where c: "kvdb_roster (kvdb_client bucket secret) hc s e = (Inr us, e1)" "live e1 = live e"
    "set us = {to_valid v |k v. has_prefix k (''r/'' @ seg s @ ''/'') \<and> live e k = Some v}"
    using kvdb_roster_documented [OF doc] by blast
  have "abstracts (Suc n) sp (live e1)" using ab(1) c(2) claims_ok_mono by (simp add: abstracts_def)
  then show ?thesis using c ORoster abstracts_roster [OF ab(1)] by (simp add: kvdb_store_def)
next
  case (OLapse s)
  have "abstracts (Suc n) (sp\<lparr>sp_claimed := sp_claimed sp - {seg s}\<rparr>) ((live e)(claim_key s := None))"
    using ab(1) claims_ok_lapse keys_ok_update by (simp add: abstracts_def entries_ok_other)
  then show ?thesis using OLapse by (simp add: ex)
next
  case (OPrune s i)
  have "abstracts (Suc n) (sp\<lparr>sp_entries := (sp_entries sp)((seg s, seg i) := None)\<rparr>) ((live e)(entry_key s i := None))"
    using ab(1) claims_ok_mono entries_ok_update keys_ok_update by (simp add: abstracts_def claims_ok_other)
  then show ?thesis using OPrune by (simp add: ex)
qed

lemma store_run_meets:
  assumes "kv_documented bucket secret hc live" "list_all plain_host_char bucket"
    and "\<And>k e. live (expire k e) = (live e)(k := None)"
  shows "abstracts n sp (live e) \<Longrightarrow> int (n + length ops) < 2 ^ 63 \<Longrightarrow>
    list_all2 meets (store_run (kvdb_store (kvdb_client bucket secret) hc) expire ops e) (spec_run ops sp)"
proof (induction ops arbitrary: n sp e)
  case (Cons p ops)
  obtain x e1 where x: "store_step (kvdb_store (kvdb_client bucket secret) hc) expire p e = (x, e1)" by force
  obtain a sp1 where a: "spec_step p sp = (a, sp1)" by force
  have "meets x a \<and> abstracts (Suc n) sp1 (live e1)"
    using store_step_meets [OF assms Cons.prems(1), of p] Cons.prems(2) x a by simp
  then show ?case using Cons.IH [of "Suc n" sp1 e1] Cons.prems(2) x a by simp
qed simp

section \<open>Properties\<close>

text \<open>C0. The kvdb store refines the contract of \<open>store.Store\<close>: over a service with the
  documented behaviour, every answer of any interleaving of claims, registrations, rosters
  and expiries is the one of the specification; so a claim is won by exactly one caller until
  it lapses, and the roster is the set of the registered and unexpired URLs.\<close>

theorem kvdb_refines:
  assumes "kvdb_new bucket secret = Inr c" "list_all plain_host_char bucket"
    and "kv_documented bucket secret hc live" "\<And>k e. live (expire k e) = (live e)(k := None)"
    and "live e = Map.empty" "int (length ops) < 2 ^ 63"
  shows "list_all2 meets (store_run (kvdb_store c hc) expire ops e) (spec_run ops spec0)"
proof -
  have "c = kvdb_client bucket secret" using assms(1) by (auto simp: kvdb_new_def kvdb_client_def split: if_splits)
  then show ?thesis using store_run_meets [OF assms(3,2,4), of 0 spec0 e ops] assms(5,6) abstracts0 by simp
qed

text \<open>A service of this kind, over an association list.\<close>

definition demo_kv :: "string \<Rightarrow> (string \<times> string) list kv_http" where
  "demo_kv bucket q e =
     (let k = drop (length bucket + 2) (path (kq_url q)); rq = raw_query (kq_url q);
          p = drop 7 (take (length rq - 24) rq)
      in if kq_method q = ''PATCH'' then
           (let n = Suc (case map_of e k of None \<Rightarrow> 0 | Some v \<Rightarrow> digits_val 0 v)
            in (Inr (reply 200 (format_nat n)), (k, format_nat n) # e))
         else if kq_method q = ''PUT'' then (Inr (reply 200 []), (k, the (kq_body q)) # e)
         else (Inr (reply 200 (json_print (JArr (map (\<lambda>k. JArr [JStr k, JStr (the (map_of e k))])
                 (filter (\<lambda>k. has_prefix k p) (remdups (map fst e))))))), e))"

definition demo_expire :: "string \<Rightarrow> (string \<times> string) list \<Rightarrow> (string \<times> string) list" where
  "demo_expire k = filter (\<lambda>kv. fst kv \<noteq> k)"

lemma demo_expire_live: "map_of (demo_expire k e) = (map_of e)(k := None)"
  by (induction e) (auto simp: demo_expire_def)

lemma demo_kv_documented: "kv_documented bucket secret (demo_kv bucket) map_of"
  unfolding kv_documented_def
proof (intro allI impI conjI, goal_cases)
  case (1 e q k)
  then show ?case by (simp add: demo_kv_def Let_def del: format_nat.simps)
next
  case (2 e q k v)
  then show ?case by (simp add: demo_kv_def Let_def reply_def)
next
  case (3 e q k p)
  let ?ks = "filter (\<lambda>k. has_prefix k p) (remdups (map fst e))"
  let ?v = "JArr (map (\<lambda>k. JArr [JStr k, JStr (the (map_of e k))]) ?ks)"
  have "demo_kv bucket q e = (Inr (reply 200 (json_print ?v)), e)"
    using 3 by (simp add: demo_kv_def Let_def)
  moreover have "json_decode (json_print ?v) = Some (json_valid ?v)"
    using json_decode_print [of ?v "[]"] by (simp add: list_all_iff)
  moreover have "set ?ks = {k. has_prefix k p \<and> map_of e k \<noteq> None}"
    by (auto simp: map_of_eq_None_iff)
  ultimately show ?case by (intro exI [of _ "reply 200 (json_print ?v)"] exI [of _ ?ks] exI [of _ e]) (simp add: reply_def)
qed

theorem kvdb_refines_witness:
  "list_all2 meets (store_run (kvdb_store (kvdb_client ''b1'' ''key'') (demo_kv ''b1'')) demo_expire
       [OClaim ''me'', OClaim ''me'', ORegister ''me'' ''a'' ''http://a:2380'', OLapse ''me'', OClaim ''me'', ORoster ''me''] [])
     [AWon True, AWon False, ADone, ADone, AWon True, AUrls {''http://a:2380''}]"
proof -
  have u: "{u. \<exists>i. (if i = seg ''a'' then Some ''http://a:2380'' else None) = Some u} = {''http://a:2380''}" by auto
  have k: "kvdb_new ''b1'' ''key'' = Inr (kvdb_client ''b1'' ''key'')" by (simp add: kvdb_new_def kvdb_client_def)
  have b: "list_all plain_host_char ''b1''" by code_simp
  show ?thesis
    using kvdb_refines [OF k b demo_kv_documented demo_expire_live, of "[]"
        "[OClaim ''me'', OClaim ''me'', ORegister ''me'' ''a'' ''http://a:2380'', OLapse ''me'', OClaim ''me'', ORoster ''me'']"]
    by (simp add: spec0_def u del: store_run.simps cong: if_cong)
qed

end
