(* ===== verification/Keepalive.thy ===== *)
theory Keepalive
  imports Join_Discovery Kvdb_Spec
begin

text \<open>
  The keepalives of a node that joined through discovery (\<open>registerWithSeed\<close> and \<open>keepalive\<close> in
  \<open>v0alpha0/peer.go\<close>), and what they achieve against the time to live that \<open>kvdb.go\<close> gives the
  claim of a cluster.
\<close>

section \<open>The loop\<close>

definition keepalive_interval :: int where
  "keepalive_interval = 3000"

definition seed_op_timeout :: int where
  "seed_op_timeout = 10000"

text \<open>
  A \<open>time.Ticker\<close> made at \<open>t0\<close> ticks every interval and buffers one tick: a receive at time
  \<open>t\<close> is followed by one at the first tick after \<open>t\<close>, or as soon as the receiver is back.
\<close>

definition next_tick :: "int \<Rightarrow> int \<Rightarrow> int" where
  "next_tick t0 t = t0 + keepalive_interval * ((t - t0) div keepalive_interval + 1)"

lemma next_tick_bounds: "t < next_tick t0 t \<and> next_tick t0 t \<le> t + 3000"
proof -
  have "t < t0 + 3000 * (q + 1) \<and> t0 + 3000 * (q + 1) \<le> t + 3000" if "t - t0 = 3000 * q + r" "0 \<le> r" "r < 3000" for q r
    using that by simp
  from this [of "(t - t0) div 3000" "(t - t0) mod 3000"] show ?thesis
    by (simp add: next_tick_def keepalive_interval_def)
qed

text \<open>
  \<open>keepalive\<close> by a context that ends at \<open>d\<close>: the start and return of each call, and the run.
  The \<open>select\<close> takes whichever comes first; a tick received together with the end of the context
  calls \<open>fn\<close> with a finished context, which sends nothing, and ends the loop in the next round.
\<close>

function keepalive ::
  "(int \<Rightarrow> 'e run \<Rightarrow> 'e run) \<Rightarrow> int \<Rightarrow> int \<Rightarrow> int \<Rightarrow> 'e run \<Rightarrow> (int \<times> int) list \<times> 'e run" where
  "keepalive fn t0 d tick w =
     (let c = max (r_now w) tick in
      if d \<le> c then ([], w\<lparr>r_now := max (r_now w) d\<rparr>)
      else
        (let w1 = fn (min d (c + seed_op_timeout)) (w\<lparr>r_now := c\<rparr>) in
         case keepalive fn t0 d (next_tick t0 c) w1 of (cs, w2) \<Rightarrow> ((c, r_now w1) # cs, w2)))"
  by pat_completeness auto

termination
proof (relation "measure (\<lambda>(fn, t0, d, tick, w). nat (d - tick))", goal_cases)
  case (2 fn t0 d tick w c w1)
  then show ?case using next_tick_bounds [of c t0] by auto
qed simp

declare keepalive.simps [simp del]

definition claim_keepalive :: "'e seed_http \<Rightarrow> seed \<Rightarrow> int \<Rightarrow> 'e run \<Rightarrow> (int \<times> int) list \<times> 'e run" where
  "claim_keepalive hc s d w =
     keepalive (\<lambda>ctx v. snd (seed_claim hc s ctx v)) (r_now w) d (r_now w + keepalive_interval) w"

definition roster_keepalive :: "'e seed_http \<Rightarrow> seed \<Rightarrow> string \<Rightarrow> int \<Rightarrow> 'e run \<Rightarrow> (int \<times> int) list \<times> 'e run" where
  "roster_keepalive hc s u d w =
     keepalive (\<lambda>ctx v. snd (seed_register hc s ctx u u v)) (r_now w) d (r_now w + keepalive_interval) w"

section \<open>The calls of a keepalive\<close>

text \<open>Consecutive calls start at most \<open>g\<close> apart, the first by \<open>b\<close>, and the context ends within
  \<open>g\<close> of the last.\<close>

fun spaced :: "int \<Rightarrow> int \<Rightarrow> int \<Rightarrow> int \<Rightarrow> (int \<times> int) list \<Rightarrow> bool" where
  "spaced g L b d [] \<longleftrightarrow> d \<le> b"
| "spaced g L b d ((c, r) # cs) \<longleftrightarrow> c \<le> b \<and> r \<le> c + L \<and> spaced g L (c + g) d cs"

lemma keepalive_spaced:
  "(\<And>ctx v. r_now (fn ctx v) \<le> r_now v + L) \<Longrightarrow> keepalive fn t0 d tick w = (cs, w1) \<Longrightarrow> max (r_now w) tick \<le> b \<Longrightarrow> spaced (max 3000 L) L b d cs"
proof (induction fn t0 d tick w arbitrary: b cs w1 rule: keepalive.induct)
  case (1 fn t0 d tick w)
  let ?c = "max (r_now w) tick"
  let ?v = "fn (min d (?c + seed_op_timeout)) (w\<lparr>r_now := ?c\<rparr>)"
  show ?case
  proof (cases "d \<le> ?c")
    case True
    then show ?thesis using "1.prems"(2,3) by (auto simp: keepalive.simps [of fn t0 d tick w] Let_def)
  next
    case False
    obtain cs1 w2 where k: "keepalive fn t0 d (next_tick t0 ?c) ?v = (cs1, w2)" by force
    have v: "r_now ?v \<le> ?c + L" using "1.prems"(1) [of "min d (?c + seed_op_timeout)" "w\<lparr>r_now := ?c\<rparr>"] by simp
    then have "max (r_now ?v) (next_tick t0 ?c) \<le> ?c + max 3000 L" 
      using next_tick_bounds [of ?c t0] max.cobounded1 [of 3000 L] max.cobounded2 [of L 3000] by (intro max.boundedI) linarith+
    from "1.IH" [OF refl False refl "1.prems"(1) k this] show ?thesis
      using "1.prems"(2,3) False k v by (auto simp: keepalive.simps [of fn t0 d tick w] Let_def)
  qed
qed

lemma keepalive_after:
  "keepalive fn t0 d tick w = (cs, w1) \<Longrightarrow> x \<in> set cs \<Longrightarrow> tick \<le> fst x"
proof (induction fn t0 d tick w arbitrary: cs w1 rule: keepalive.induct)
  case (1 fn t0 d tick w)
  let ?c = "max (r_now w) tick"
  let ?v = "fn (min d (?c + seed_op_timeout)) (w\<lparr>r_now := ?c\<rparr>)"
  show ?case
  proof (cases "d \<le> ?c")
    case True
    then show ?thesis using "1.prems" by (simp add: keepalive.simps [of fn t0 d tick w] Let_def)
  next
    case False
    obtain cs1 w2 where k: "keepalive fn t0 d (next_tick t0 ?c) ?v = (cs1, w2)" by force
    then have "x = (?c, r_now ?v) \<or> x \<in> set cs1"
      using "1.prems" False by (auto simp: keepalive.simps [of fn t0 d tick w] Let_def)
    then show ?thesis using "1.IH" [OF refl False refl k] next_tick_bounds [of ?c t0] by fastforce
  qed
qed

text \<open>Effects \<open>us\<close> of the calls: each within its call.  Between two of them less than \<open>ttl\<close> passes.\<close>

abbreviation effects_of :: "(int \<times> int) list \<Rightarrow> int list \<Rightarrow> bool" where
  "effects_of \<equiv> list_all2 (\<lambda>x u. fst x \<le> u \<and> u \<le> snd x)"

lemma spaced_covers:
  "spaced g L b d cs \<Longrightarrow> effects_of cs us \<Longrightarrow> e0 < t \<Longrightarrow> t < d \<Longrightarrow> b + L < e0 + ttl \<Longrightarrow> g + L < ttl \<Longrightarrow> 0 \<le> L \<Longrightarrow>
     \<exists>e\<in>insert e0 (set us). e < t \<and> t < e + ttl"
proof (induction g L b d cs arbitrary: us e0 rule: spaced.induct)
  case (2 g L b d c r cs)
  obtain u us1 where us: "us = u # us1" "c \<le> u" "u \<le> r" "effects_of cs us1"
    using "2.prems"(2) by (auto simp: list_all2_Cons1)
  show ?case
  proof (cases "t \<le> u")
    case True
    then show ?thesis using "2.prems" us by (intro bexI [of _ e0]) auto
  next
    case False
    then have "\<exists>e\<in>insert u (set us1). e < t \<and> t < e + ttl"
      using "2.IH" [OF _ us(4)] "2.prems" us by auto
    then show ?thesis using us(1) by auto
  qed
qed auto

lemma seed_do_time:
  assumes "\<And>t q e. snd (fst (hc t q e)) \<le> L" "0 \<le> L"
  shows "r_now (snd (seed_do hc s d m p b v)) \<le> r_now v + L"
  using assms(1) [of "min d (r_now v + sd_timeout s) - r_now v" _ "r_env v"] assms(2)
  by (auto simp: seed_do_def seed_call_def elapse_def split: option.split prod.split) (metis fst_conv snd_conv)

lemma seed_ops_time:
  assumes "\<And>t q e. snd (fst (hc t q e)) \<le> L" "0 \<le> L"
  shows "r_now (snd (seed_claim hc s d w)) \<le> r_now w + L" "r_now (snd (seed_register hc s d i u w)) \<le> r_now w + L"
proof -
  note t = seed_do_time [where hc = hc, OF assms, where s = s and d = d and m = "''POST''"]
  show "r_now (snd (seed_claim hc s d w)) \<le> r_now w + L"
    using t [of "de_claim (sd_desc s)" None "emit EvClaim w"] by (auto simp: seed_claim_def split: prod.split sum.split)
  show "r_now (snd (seed_register hc s d i u w)) \<le> r_now w + L"
    using t [of "de_register (sd_desc s)" "Some (register_body i u)" "emit (EvRegister u) w"]
    by (auto simp: seed_register_def split: prod.split sum.split)
qed

text \<open>A registration of ten seconds that is kept alive never lapses when the seed answers within five.\<close>

lemma roster_entry_held:
  assumes "roster_keepalive hc s u d w = (cs, w1)" "\<And>t q v. snd (fst (hc t q v)) \<le> L" "0 \<le> L" "L < 5000"
    and "effects_of cs us" "t1 < t" "t < d" "r_now w + L < t1 + 7000"
  shows "\<exists>x\<in>insert t1 (set us). x < t \<and> t < x + 10000"
  using spaced_covers [OF keepalive_spaced [OF seed_ops_time(2) [OF assms(2,3)] assms(1) [unfolded roster_keepalive_def] order_refl]
      assms(5-7), of 10000] assms(3,4,8)
  by (simp add: keepalive_interval_def)

section \<open>Claims in time\<close>

text \<open>The claims of a cluster at the times \<open>ts\<close>, as the store sees them when each claim renews the
  time to live of the counter; \<open>x\<close> is the time at which it expires.\<close>

fun claim_ops :: "int \<Rightarrow> string \<Rightarrow> int option \<Rightarrow> int list \<Rightarrow> store_op list" where
  "claim_ops ttl sub x [] = []"
| "claim_ops ttl sub x (t # ts) =
     (if pred_option (\<lambda>x. x \<le> t) x \<and> x \<noteq> None then [OLapse sub, OClaim sub] else [OClaim sub])
     @ claim_ops ttl sub (Some (t + ttl)) ts"

lemma claim_ops_unbroken:
  "successively (\<lambda>a b. b < a + ttl) (t # ts) \<Longrightarrow> claim_ops ttl sub (Some (t + ttl)) ts = map (\<lambda>_. OClaim sub) ts"
  by (induction ts arbitrary: t) auto

lemma claim_ops_length: "length (claim_ops ttl sub x ts) \<le> 2 * length ts"
  by (induction ttl sub x ts rule: claim_ops.induct) auto

lemma spec_run_lost: "seg sub \<in> sp_claimed sp \<Longrightarrow> spec_run (map (\<lambda>_. OClaim sub) ts) sp = map (\<lambda>_. AWon False) ts"
  by (induction ts) (auto simp: insert_absorb)

lemma meets_won: "meets x (AWon b) \<longleftrightarrow> x = Won (Inr b)"
proof (cases x)
  case (Won y)
  then show ?thesis by (cases y) auto
qed auto

lemma covered_successive:
  assumes "sorted (t1 # ts)" "\<And>t. t \<in> set ts \<Longrightarrow> t1 < t \<Longrightarrow> \<exists>e\<in>set (t1 # ts). e < t \<and> t < e + ttl" "0 < ttl"
  shows "successively (\<lambda>a b. b < a + (ttl :: int)) (t1 # ts)"
  unfolding successively_conv_nth
proof (intro allI impI)
  fix i assume i: "Suc i < length (t1 # ts)"
  let ?a = "(t1 # ts) ! i" and ?b = "(t1 # ts) ! Suc i"
  show "?b < ?a + ttl"
  proof (cases "?b = t1")
    case True
    moreover have "t1 \<le> ?a" using assms(1) i by (cases i) auto
    ultimately show ?thesis using assms(3) by simp
  next
    case False
    have "?b \<in> set ts" "t1 \<le> ?b" using assms(1) i by auto
    then have "?b \<in> set ts" "t1 < ?b" using False by auto
    then obtain e where e: "e \<in> set (t1 # ts)" "e < ?b" "?b < e + ttl" using assms(2) by blast
    obtain j where j: "j < length (t1 # ts)" "e = (t1 # ts) ! j" using e(1) by (metis in_set_conv_nth)
    have "j \<le> i"
    proof (rule ccontr)
      assume "\<not> j \<le> i"
      then have "?b \<le> e" using sorted_nth_mono [OF assms(1), of "Suc i" j] j by simp
      then show False using e(2) by simp
    qed
    then have "e \<le> ?a" using sorted_nth_mono [OF assms(1), of j i] i j by simp
    then show ?thesis using e(3) by simp
  qed
qed

text \<open>The answers of a store over a run of claims.\<close>

lemma meets_map_won: "list_all2 meets xs (map AWon bs) \<Longrightarrow> xs = map (\<lambda>b. Won (Inr b)) bs"
  by (induction bs arbitrary: xs) (auto simp: list_all2_Cons2 meets_won)

lemma claims_answer:
  assumes "kvdb_new bucket secret = Inr c" "list_all plain_host_char bucket" "kv_documented bucket secret kv live"
    and "\<And>k e. live (expire k e) = (live e)(k := None)" "live e = Map.empty" "int (length ops) < 2 ^ 63"
  shows "list_all2 meets (store_run (kvdb_store c kv) expire ops e) (spec_run ops spec0) \<and> kc_claim_ttl c = 6"
proof -
  have "c = kvdb_client bucket secret" using assms(1) by (auto simp: kvdb_new_def kvdb_client_def split: if_splits)
  then show ?thesis
    using store_run_meets [OF assms(3,2,4), of 0 spec0 e ops] assms(5,6) abstracts0 by (simp add: kvdb_client_def)
qed

section \<open>Properties\<close>


text \<open>A winner that claimed at 0 and registered at 1000 over a seed that answers in a millisecond;
  another node claims at 5000.\<close>

lemma demo_claim_keepalive:
  "fst (claim_keepalive (jh_seed demo_open_seed) (demo_seed\<lparr>sd_token := ''jwt''\<rparr>) 8000 (demo_run0\<lparr>r_now := 1000\<rparr>))
     = [(4000, 4001), (7000, 7001)]"
  unfolding claim_keepalive_def keepalive_interval_def
  by (simp add: keepalive.simps demo_open_answers next_tick_def keepalive_interval_def seed_op_timeout_def elapse_def emit_def
      demo_run0_def split: prod.split)

lemma demo_open_seed_fast: "snd (fst (jh_seed demo_open_seed t q v)) \<le> 1"
  by (simp add: demo_open_seed_def)


text \<open>C39. A slow boot splits the cluster: when the winner of a claim needs more than three seconds
  to start and register, its claim lapses before its keepalive has made the first call, and a second
  node that claims in between wins as well, although the first is alive.\<close>

theorem slow_boot_splits:
  assumes kv: "kvdb_new bucket secret = Inr c" "list_all plain_host_char bucket" "kv_documented bucket secret kv live"
      "\<And>k e. live (expire k e) = (live e)(k := None)" "live e = Map.empty"
    and ka: "claim_keepalive hc s d w = (cs, w1)" "effects_of cs us"
    and slow: "t1 + 6000 \<le> t2" "t2 < r_now w + 3000"
  shows "(\<forall>u\<in>set us. t2 < u)
    \<and> store_run (kvdb_store c kv) expire (claim_ops (1000 * int (kc_claim_ttl c)) sub None [t1, t2]) e
        = [Won (Inr True), Expiry, Won (Inr True)]"
proof -
  have "t2 < u" if u: "u \<in> set us" for u
  proof -
    obtain i where "i < length us" "us ! i = u" using u by (auto simp: in_set_conv_nth)
    then have "i < length cs" "fst (cs ! i) \<le> u" using ka(2) by (auto simp: list_all2_conv_all_nth)
    moreover from this have "r_now w + keepalive_interval \<le> fst (cs ! i)"
      using keepalive_after [OF ka(1) [unfolded claim_keepalive_def] nth_mem] by simp
    ultimately show ?thesis using slow(2) by (simp add: keepalive_interval_def)
  qed
  moreover have "claim_ops 6000 sub None [t1, t2] = [OClaim sub, OLapse sub, OClaim sub]" using slow(1) by simp
  moreover have "\<exists>x y. store_run (kvdb_store c kv) expire [OClaim sub, OLapse sub, OClaim sub] e = [x, Expiry, y]"
    by (simp add: case_prod_beta)
  then obtain x y where xy: "store_run (kvdb_store c kv) expire [OClaim sub, OLapse sub, OClaim sub] e = [x, Expiry, y]" by blast
  moreover note xy
  moreover have "list_all2 meets [x, Expiry, y] [AWon True, ADone, AWon True] \<and> kc_claim_ttl c = 6"
    using claims_answer [OF kv, of "[OClaim sub, OLapse sub, OClaim sub]"] by (simp only: xy) (simp add: spec0_def)
  ultimately show ?thesis by (simp add: meets_won del: store_run.simps claim_ops.simps)
qed

text \<open>A node whose server is ready after five seconds: it wins the claim, and registers when its claim
  is about to lapse.\<close>

definition demo_slow_seed :: "unit jhost" where
  "demo_slow_seed = demo_open_seed\<lparr>jh_host := demo_host\<lparr>ho_ready := (\<lambda>e. Some 5000)\<rparr>\<rparr>"

definition demo_slow_handle :: handle where
  "demo_slow_handle = demo_token_handle\<lparr>h_node := with_cluster_token demo_embed ''jwt'' (with_dir demo_embed ''/data'' demo_node)\<rparr>"

definition demo_slow_started :: "failure option \<times> handle \<times> unit run" where
  "demo_slow_started = run_start demo_embed demo_slow_seed
     (demo_slow_handle\<lparr>h_node := with_cluster_token demo_embed ''me'' ((h_node demo_slow_handle)\<lparr>n_join_credential := ''jwt'',
        n_join_userinfo := userinfo_url (demo_seed\<lparr>sd_token := ''jwt''\<rparr>), n_leave_on_stop := True\<rparr>)\<rparr>)
     (elapse 1 (emit EvClaim (elapse 1 (emit EvUserinfo demo_run0))))"

lemma demo_slow_started:
  "fst demo_slow_started = None" "self_peer_urls (h_node (fst (snd demo_slow_started))) \<noteq> []"
  "r_now (snd (snd demo_slow_started)) = 5000"
  by code_simp+

lemma demo_slow_join:
  "\<exists>h1 w1. join_via_discovery demo_embed demo_slow_seed demo_seed demo_slow_handle demo_run0 = (None, h1, w1) \<and> r_now w1 = 5001"
proof -
  have t: "c_cluster_token (n_cfg (h_node demo_slow_handle)) = ''jwt''" by code_simp
  have hc: "jh_seed demo_slow_seed = jh_seed demo_open_seed" by (simp add: demo_slow_seed_def)
  obtain h v where b: "demo_slow_started = (None, h, v)" using demo_slow_started(1) by (metis prod_cases3 fst_conv)
  obtain u us where "self_peer_urls (h_node h) = u # us"
    using demo_slow_started(2) unfolding b by (cases "self_peer_urls (h_node h)") auto
  then have "join_via_discovery demo_embed demo_slow_seed demo_seed demo_slow_handle demo_run0
      = (None, h\<lparr>h_keepalive := True\<rparr>, elapse 1 (emit (EvRegister u) v))"
    using b unfolding demo_slow_started_def
    by (simp add: join_via_discovery_def Let_def t hc demo_open_answers register_with_seed_def)
  then show ?thesis using demo_slow_started(3) unfolding b by (simp add: elapse_def)
qed

theorem slow_boot_splits_witness:
  "\<exists>h1 w1. join_via_discovery demo_embed demo_slow_seed demo_seed demo_slow_handle demo_run0 = (None, h1, w1) \<and> r_now w1 = 5001
     \<and> store_run (kvdb_store (kvdb_client ''b1'' ''key'') (demo_kv ''b1'')) demo_expire
          (claim_ops (1000 * int (kc_claim_ttl (kvdb_client ''b1'' ''key''))) ''me'' None [2, 6002]) []
        = [Won (Inr True), Expiry, Won (Inr True)]"
proof -
  obtain h1 w1 where j: "join_via_discovery demo_embed demo_slow_seed demo_seed demo_slow_handle demo_run0 = (None, h1, w1)"
    "r_now w1 = 5001" using demo_slow_join by blast
  have k: "kvdb_new ''b1'' ''key'' = Inr (kvdb_client ''b1'' ''key'')" by (simp add: kvdb_new_def kvdb_client_def)
  have b: "list_all plain_host_char ''b1''" by code_simp
  have ka: "claim_keepalive (jh_seed demo_slow_seed) demo_seed 8000 w1 = ([], w1\<lparr>r_now := 8000\<rparr>)"
    using j(2) by (simp add: claim_keepalive_def keepalive.simps keepalive_interval_def)
  from slow_boot_splits [OF k b demo_kv_documented demo_expire_live _ ka, where e = "[]" and us = "[]" and ?t1.0 = 2 and ?t2.0 = 6002 and sub = "''me''"]
  show ?thesis using j by (simp del: store_run.simps claim_ops.simps)
qed

end
