(* ===== verification/Disco_Issuer.thy ===== *)
theory Disco_Issuer
  imports Disco_Store
begin

text \<open>
  The self-issuer of the discovery service (\<open>cmd/disco/internal/issuer/issuer.go\<close>): random
  subs, the minting of tokens and the published documents.  Signing (\<open>go-jose\<close>) is a
  parameter: a function from the claims to the serialized token.
\<close>

type_synonym claim_map = "string \<Rightarrow> json option"

record token_issuer =
  is_url :: string
  is_ttl :: nat
  is_jwk :: json

type_synonym signer = "claim_map \<Rightarrow> string + string"

definition discovery_path :: string where
  "discovery_path = ''/.well-known/openid-configuration''"

definition jwks_path :: string where
  "jwks_path = ''/.well-known/jwks.json''"

text \<open>\<open>rand.Read\<close> fills 16 bytes or fails.\<close>

definition new_random_sub :: "string option \<Rightarrow> string option" where
  "new_random_sub rand = map_option (\<lambda>b. ''disco:'' @ hex_encode b) rand"

text \<open>The registered claims are applied after the extra ones.\<close>

definition registered_claims :: "token_issuer \<Rightarrow> nat \<Rightarrow> string \<Rightarrow> (string \<times> json) list" where
  "registered_claims iss now sub =
     [(''iss'', JStr (is_url iss)), (''sub'', JStr sub), (''aud'', JArr [JStr ''disco'']),
      (''iat'', JNum (format_nat now)), (''exp'', JNum (format_nat (now + is_ttl iss)))]"

definition mint :: "token_issuer \<Rightarrow> signer \<Rightarrow> nat \<Rightarrow> string \<Rightarrow> (string \<times> json) list \<Rightarrow> string + string \<times> nat" where
  "mint iss sign now sub extra =
     (case sign (map_of extra ++ map_of (registered_claims iss now sub)) of
        Inl e \<Rightarrow> Inl (''issuer: mint: '' @ e)
      | Inr raw \<Rightarrow> Inr (raw, is_ttl iss))"

definition jwks :: "token_issuer \<Rightarrow> json" where
  "jwks iss = JObj [(''keys'', JArr [is_jwk iss])]"

definition issuer_discovery :: "token_issuer \<Rightarrow> (string \<times> json) list" where
  "issuer_discovery iss =
     [(''issuer'', JStr (is_url iss)), (''jwks_uri'', JStr (is_url iss @ jwks_path)),
      (''response_types_supported'', JArr [JStr ''id_token'']),
      (''subject_types_supported'', JArr [JStr ''public'']),
      (''id_token_signing_alg_values_supported'', JArr [JStr ''RS256''])]"

lemma mint_claims:
  "mint iss sign now sub extra = Inr (raw, ttl) \<Longrightarrow>
     \<exists>m. sign m = Inr raw \<and> m ''sub'' = Some (JStr sub) \<and> m ''iss'' = Some (JStr (is_url iss))
       \<and> (\<forall>k. k \<notin> {''iss'', ''sub'', ''aud'', ''iat'', ''exp''} \<longrightarrow> m k = map_of extra k)"
  by (auto simp: mint_def registered_claims_def map_add_def split: sum.splits)

end
