(* ===== verification/Disco_Service.thy ===== *)
theory Disco_Service
  imports Disco_Issuer
begin

text \<open>
  The discovery service (\<open>cmd/disco/internal/ws/ws.go\<close>, \<open>cmd/disco/main.go\<close>): its routes,
  the JWT gate with the verifier cache, and the handlers over a \<open>store.Store\<close>.  Parameters:
  the JWT and OIDC libraries, the rendering and the content negotiation of go-restful.  The
  streaming tunnels (\<open>/serve\<close>, \<open>/new\<close>) answer a stream that is not modelled further.
\<close>

section \<open>Messages\<close>

text \<open>Header names of \<open>wr_headers\<close> are lower case; \<open>wr_ctype\<close> is the \<open>Content-Type\<close>.\<close>

record ws_request =
  wr_method :: string
  wr_path :: string
  wr_auth :: string
  wr_ctype :: "string option"
  wr_headers :: "(string \<times> string) list"
  wr_body :: string

datatype ws_error = NoBearer | BadJwt string | NoIssuer | Untrusted string | OidcDiscovery string string
  | NoSubject | BadClaims | ClaimHeld | MissingUrl | StoreFailed | StoreStub | MintFailed

datatype ws_answer = Fail nat ws_error | Json json | NoContent | Streaming | Unrouted | Panicked

text \<open>How go-restful writes an answer.\<close>

record ws_wire =
  ww_json :: "json \<Rightarrow> string"
  ww_text :: "ws_error \<Rightarrow> string"
  ww_other :: "ws_answer \<Rightarrow> response"

definition ws_response :: "ws_wire \<Rightarrow> ws_answer \<Rightarrow> response" where
  "ws_response wire a =
     (case a of
        Fail st e \<Rightarrow> reply st (ww_text wire e)
      | Json j \<Rightarrow> reply 200 (ww_json wire j)
      | NoContent \<Rightarrow> reply 204 []
      | _ \<Rightarrow> ww_other wire a)"

section \<open>State\<close>

text \<open>\<open>Service\<close>; the store is \<open>nil\<close> when its construction has failed.\<close>

record ('v, 'e) service =
  sv_store :: "'e store option"
  sv_issuers :: "string list"
  sv_issuer :: "token_issuer option"
  sv_verifiers :: "string \<Rightarrow> 'v option"

text \<open>
  The JWT libraries at a time: \<open>jw_peek\<close> is \<open>ParseSigned\<close> and the unverified issuer
  (\<open>None\<close> when the claims do not decode), \<open>jw_provider\<close> is \<open>oidc.NewProvider\<close>,
  \<open>jw_verify\<close> gives the subject and the claims (\<open>None\<close> when they do not decode).
\<close>

record 'v jwt_api =
  jw_peek :: "string \<Rightarrow> string + string option"
  jw_provider :: "nat \<Rightarrow> string \<Rightarrow> string + 'v"
  jw_verify :: "nat \<Rightarrow> 'v \<Rightarrow> string \<Rightarrow> string + string \<times> (string \<times> json) list option"

definition new_service :: "'e store option \<Rightarrow> ('v, 'e) service" where
  "new_service s = \<lparr>sv_store = s, sv_issuers = [], sv_issuer = None, sv_verifiers = Map.empty\<rparr>"

definition with_issuer :: "string \<Rightarrow> ('v, 'e) service \<Rightarrow> ('v, 'e) service" where
  "with_issuer iss s = s\<lparr>sv_issuers := sv_issuers s @ [iss]\<rparr>"

definition default_issuer_url :: string where
  "default_issuer_url = ''https://disco.nuss.io''"

text \<open>The signing key has been loaded: \<open>jwk\<close> is its public half.\<close>

definition with_self_issuer :: "string \<Rightarrow> json \<Rightarrow> ('v, 'e) service \<Rightarrow> ('v, 'e) service" where
  "with_self_issuer env_url jwk s =
     (let url = (if env_url = [] then default_issuer_url else env_url)
      in s\<lparr>sv_issuer := Some \<lparr>is_url = url, is_ttl = 3600, is_jwk = jwk\<rparr>, sv_issuers := sv_issuers s @ [url]\<rparr>)"

section \<open>The JWT gate\<close>

definition bearer_of :: "string \<Rightarrow> string" where
  "bearer_of h = (if length h \<ge> 7 \<and> equal_fold (take 7 h) ''bearer '' then trim_space (drop 7 h) else [])"

definition get_verifier ::
  "'v jwt_api \<Rightarrow> nat \<Rightarrow> string \<Rightarrow> ('v, 'e) service \<Rightarrow> (ws_error + 'v) \<times> ('v, 'e) service" where
  "get_verifier jw now iss s =
     (if iss \<notin> set (sv_issuers s) then (Inl (Untrusted iss), s)
      else
        (case sv_verifiers s iss of
           Some v \<Rightarrow> (Inr v, s)
         | None \<Rightarrow>
             (case jw_provider jw now iss of
                Inl e \<Rightarrow> (Inl (OidcDiscovery iss e), s)
              | Inr v \<Rightarrow> (Inr v, s\<lparr>sv_verifiers := (sv_verifiers s)(iss \<mapsto> v)\<rparr>))))"

definition verify_token ::
  "'v jwt_api \<Rightarrow> nat \<Rightarrow> string \<Rightarrow> ('v, 'e) service \<Rightarrow> (ws_answer + (string \<times> json) list) \<times> ('v, 'e) service" where
  "verify_token jw now auth s =
     (let raw = bearer_of auth in
      if raw = [] then (Inl (Fail 401 NoBearer), s)
      else
        (case jw_peek jw raw of
           Inl e \<Rightarrow> (Inl (Fail 401 (BadJwt e)), s)
         | Inr None \<Rightarrow> (Inl (Fail 401 NoIssuer), s)
         | Inr (Some iss) \<Rightarrow>
             if iss = [] then (Inl (Fail 401 NoIssuer), s)
             else
               (case get_verifier jw now iss s of
                  (Inl (Untrusted i), s1) \<Rightarrow> (Inl (Fail 401 (Untrusted i)), s1)
                | (Inl e, s1) \<Rightarrow> (Inl (Fail 503 e), s1)
                | (Inr v, s1) \<Rightarrow>
                    (case jw_verify jw now v raw of
                       Inl e \<Rightarrow> (Inl (Fail 401 (BadJwt e)), s1)
                     | Inr (subject, cl) \<Rightarrow>
                         if subject = [] then (Inl (Fail 401 NoSubject), s1)
                         else (case cl of None \<Rightarrow> (Inl (Fail 401 BadClaims), s1) | Some kvs \<Rightarrow> (Inr kvs, s1))))))"

text \<open>\<open>sub\<close>: the string at the key of the decoded claim map, a later key overriding.\<close>

definition sub_of :: "(string \<times> json) list \<Rightarrow> string" where
  "sub_of kvs = (case map_of (rev kvs) ''sub'' of Some (JStr s) \<Rightarrow> s | _ \<Rightarrow> [])"

text \<open>A Go map is written with its keys sorted.\<close>

definition map_json :: "(string \<times> json) list \<Rightarrow> json" where
  "map_json kvs = JObj (map (\<lambda>k. (k, the (map_of (rev kvs) k))) (sort (remdups (map fst kvs))))"

section \<open>Handlers\<close>

definition write_store_error :: "store_err \<Rightarrow> ws_answer" where
  "write_store_error e = (case e of NotImplemented \<Rightarrow> Fail 501 StoreStub | Backend _ \<Rightarrow> Fail 502 StoreFailed)"

definition handle_claim :: "'e store \<Rightarrow> string \<Rightarrow> 'e \<Rightarrow> ws_answer \<times> 'e" where
  "handle_claim st sub e =
     (case st_claim st sub e of
        (Inl err, e1) \<Rightarrow> (write_store_error err, e1)
      | (Inr won, e1) \<Rightarrow> (if won then Json (JObj [(''won'', JBool True)]) else Fail 409 ClaimHeld, e1))"

definition decode_register :: "string \<Rightarrow> (string \<times> string) option" where
  "decode_register body =
     Option.bind (Option.bind (json_decode body) json_to_obj) (\<lambda>kvs.
       Option.bind (json_get json_to_string ''id'' kvs) (\<lambda>i.
       map_option (\<lambda>u. (i, u)) (json_get json_to_string ''url'' kvs)))"

definition handle_register :: "'e store \<Rightarrow> string \<Rightarrow> string \<Rightarrow> 'e \<Rightarrow> ws_answer \<times> 'e" where
  "handle_register st body sub e =
     (case decode_register body of
        None \<Rightarrow> (Fail 400 MissingUrl, e)
      | Some (i, u) \<Rightarrow>
          if u = [] then (Fail 400 MissingUrl, e)
          else
            (case st_register st sub i u e of
               (Some err, e1) \<Rightarrow> (write_store_error err, e1)
             | (None, e1) \<Rightarrow> (NoContent, e1)))"

definition handle_roster :: "'e store \<Rightarrow> string \<Rightarrow> 'e \<Rightarrow> ws_answer \<times> 'e" where
  "handle_roster st sub e =
     (case st_roster st sub e of
        (Inl err, e1) \<Rightarrow> (write_store_error err, e1)
      | (Inr us, e1) \<Rightarrow> (Json (JObj [(''urls'', JArr (map JStr us))]), e1))"

definition handle_health :: ws_answer where
  "handle_health = Json (JObj [(''message'', JStr ''ok'')])"

definition descriptor_json :: "bool \<Rightarrow> json" where
  "descriptor_json self =
     JObj ([(''discovery'', JStr ''v1'')] @ (if self then [(''token'', JStr ''/token'')] else [])
       @ [(''userinfo'', JStr ''/userinfo''), (''claim'', JStr ''/claim''), (''register'', JStr ''/register''), (''roster'', JStr ''/roster'')])"

definition handle_descriptor :: "('v, 'e) service \<Rightarrow> ws_answer" where
  "handle_descriptor s = Json (descriptor_json (sv_issuer s \<noteq> None))"

definition viewer_string_claims :: "(string \<times> string) list" where
  "viewer_string_claims =
     [(''cloudfront-viewer-country'', ''country''), (''cloudfront-viewer-country-name'', ''country_name''),
      (''cloudfront-viewer-country-region'', ''region''), (''cloudfront-viewer-country-region-name'', ''region_name''),
      (''cloudfront-viewer-city'', ''city''), (''cloudfront-viewer-postal-code'', ''postal_code''),
      (''cloudfront-viewer-metro-code'', ''metro_code''), (''cloudfront-viewer-latitude'', ''latitude''),
      (''cloudfront-viewer-longitude'', ''longitude''), (''cloudfront-viewer-time-zone'', ''time_zone''),
      (''cloudfront-viewer-asn'', ''asn''), (''cloudfront-viewer-http-version'', ''http_version'')]"

definition viewer_bool_claims :: "(string \<times> string) list" where
  "viewer_bool_claims =
     [(''cloudfront-is-mobile-viewer'', ''is_mobile''), (''cloudfront-is-desktop-viewer'', ''is_desktop''),
      (''cloudfront-is-tablet-viewer'', ''is_tablet''), (''cloudfront-is-smarttv-viewer'', ''is_smarttv'')]"

definition header_get :: "string \<Rightarrow> (string \<times> string) list \<Rightarrow> string" where
  "header_get k hs = (case map_of hs k of Some v \<Rightarrow> v | None \<Rightarrow> [])"

definition viewer_claims :: "(string \<times> string) list \<Rightarrow> (string \<times> json) list" where
  "viewer_claims hs =
     List.map_filter (\<lambda>(h, n). if header_get h hs = [] then None else Some (n, JStr (header_get h hs))) viewer_string_claims
   @ List.map_filter (\<lambda>(h, n). if header_get h hs = [] then None else Some (n, JBool (equal_fold (header_get h hs) ''true''))) viewer_bool_claims"

definition handle_token ::
  "token_issuer \<Rightarrow> signer \<Rightarrow> nat \<Rightarrow> string option \<Rightarrow> (string \<times> string) list \<Rightarrow> ws_answer" where
  "handle_token iss sign now rand hs =
     (case new_random_sub rand of
        None \<Rightarrow> Fail 500 MintFailed
      | Some sub \<Rightarrow>
          (case mint iss sign now sub (viewer_claims hs) of
             Inl _ \<Rightarrow> Fail 500 MintFailed
           | Inr (tok, ttl) \<Rightarrow> Json (JObj [(''token'', JStr tok), (''sub'', JStr sub), (''expires_in'', JNum (format_nat ttl))])))"

definition handle_discovery :: "token_issuer \<Rightarrow> ws_answer" where
  "handle_discovery iss =
     Json (map_json (issuer_discovery iss @ [(''userinfo_endpoint'', JStr (is_url iss @ ''/userinfo''))]))"

section \<open>Routing\<close>

datatype endpoint = Health | Describe | Claim | Register | Roster | Userinfo | Serve | NewCluster | Token | Openid | Jwks

text \<open>Method, path, whether any content type is accepted, whether the gate is in front.\<close>

definition web_service :: "('v, 'e) service \<Rightarrow> (string \<times> string \<times> bool \<times> bool \<times> endpoint) list" where
  "web_service s =
     [(''GET'', ''/healthz'', False, False, Health),
      (''GET'', ''/.well-known/libetcd-discovery'', False, False, Describe),
      (''POST'', ''/claim'', True, True, Claim), (''POST'', ''/register'', False, True, Register),
      (''GET'', ''/roster'', False, True, Roster), (''GET'', ''/userinfo'', False, True, Userinfo),
      (''GET'', ''/serve'', False, True, Serve), (''GET'', ''/new'', False, False, NewCluster)]
     @ (if sv_issuer s = None then []
        else [(''GET'', ''/token'', True, False, Token), (''POST'', ''/token'', True, False, Token),
              (''GET'', discovery_path, False, False, Openid), (''GET'', jwks_path, False, False, Jwks),
              (''GET'', ''/'', False, False, Jwks)])"

text \<open>go-restful: a \<open>GET\<close> needs no content type, another method must name an accepted one.\<close>

definition accepts :: "bool \<Rightarrow> ws_request \<Rightarrow> bool" where
  "accepts any q \<longleftrightarrow>
     any \<or> (case wr_ctype q of None \<Rightarrow> wr_method q = ''GET'' | Some t \<Rightarrow> has_prefix t ''application/json'')"

definition find_route :: "('v, 'e) service \<Rightarrow> ws_request \<Rightarrow> (bool \<times> endpoint) option" where
  "find_route s q =
     map_option (\<lambda>(m, p, any, gate, r). (gate, r))
       (find (\<lambda>(m, p, any, gate, r). m = wr_method q \<and> p = wr_path q \<and> accepts any q) (web_service s))"

definition open_route ::
  "signer \<Rightarrow> string option \<Rightarrow> nat \<Rightarrow> ('v, 'e) service \<Rightarrow> ws_request \<Rightarrow> endpoint \<Rightarrow> ws_answer" where
  "open_route sign rand now s q r =
     (case (r, sv_issuer s) of
        (Health, _) \<Rightarrow> handle_health
      | (Describe, _) \<Rightarrow> handle_descriptor s
      | (Token, Some iss) \<Rightarrow> handle_token iss sign now rand (wr_headers q)
      | (Openid, Some iss) \<Rightarrow> handle_discovery iss
      | (Jwks, Some iss) \<Rightarrow> Json (jwks iss)
      | _ \<Rightarrow> Streaming)"

text \<open>A store operation on a \<open>nil\<close> store panics.\<close>

definition gated_route :: "'e store option \<Rightarrow> ws_request \<Rightarrow> endpoint \<Rightarrow> (string \<times> json) list \<Rightarrow> 'e \<Rightarrow> ws_answer \<times> 'e" where
  "gated_route st q r kvs e =
     (case r of
        Userinfo \<Rightarrow> (Json (map_json kvs), e)
      | Serve \<Rightarrow> (Streaming, e)
      | _ \<Rightarrow>
          (case st of
             None \<Rightarrow>
               (if r = Register \<and> (case decode_register (wr_body q) of None \<Rightarrow> True | Some (i, u) \<Rightarrow> u = [])
                then Fail 400 MissingUrl else Panicked, e)
           | Some s \<Rightarrow>
               (case r of
                  Claim \<Rightarrow> handle_claim s (sub_of kvs) e
                | Register \<Rightarrow> handle_register s (wr_body q) (sub_of kvs) e
                | _ \<Rightarrow> handle_roster s (sub_of kvs) e)))"

definition serve ::
  "'v jwt_api \<Rightarrow> signer \<Rightarrow> string option \<Rightarrow> nat \<Rightarrow> ws_request \<Rightarrow> ('v, 'e) service \<times> 'e \<Rightarrow> ws_answer \<times> ('v, 'e) service \<times> 'e" where
  "serve jw sign rand now q se =
     (case se of (s, e) \<Rightarrow>
        (case find_route s q of
           None \<Rightarrow> (Unrouted, s, e)
         | Some (False, r) \<Rightarrow> (open_route sign rand now s q r, s, e)
         | Some (True, r) \<Rightarrow>
             (case verify_token jw now (wr_auth q) s of
                (Inl a, s1) \<Rightarrow> (a, s1, e)
              | (Inr kvs, s1) \<Rightarrow> (case gated_route (sv_store s1) q r kvs e of (a, e1) \<Rightarrow> (a, s1, e1)))))"

text \<open>\<open>main\<close>: the service goes up even when the store could not be built.\<close>

definition disco_service :: "string \<Rightarrow> string \<Rightarrow> string \<Rightarrow> json \<Rightarrow> 'e kv_http \<Rightarrow> ('v, 'e) service" where
  "disco_service bucket secret env_url jwk hc =
     with_self_issuer env_url jwk
       (with_issuer default_issuer_url
         (with_issuer ''https://token.actions.githubusercontent.com''
           (new_service (case kvdb_new bucket secret of Inl _ \<Rightarrow> None | Inr c \<Rightarrow> Some (kvdb_store c hc)))))"

end
