(* ===== verification/Disco_Trust.thy ===== *)
theory Disco_Trust
  imports Disco_Service Kvdb_Spec
begin

text \<open>
  What the JWT gate of the discovery service guarantees: the invariant of the verifier
  cache, the isolation of the namespaces (proved once over the store interface, and used at
  the kvdb store), and the round trip of a self-issued token.
\<close>

section \<open>The verifier cache\<close>

definition cache_ok :: "'v jwt_api \<Rightarrow> ('v, 'e) service \<Rightarrow> bool" where
  "cache_ok jw s \<longleftrightarrow>
     (\<forall>iss v. sv_verifiers s iss = Some v \<longrightarrow> iss \<in> set (sv_issuers s) \<and> (\<exists>t. jw_provider jw t iss = Inr v))"

lemma get_verifier_ok:
  assumes "get_verifier jw now iss s = (r, s1)"
  shows "sv_issuers s1 = sv_issuers s \<and> sv_store s1 = sv_store s \<and> sv_issuer s1 = sv_issuer s
    \<and> sv_verifiers s \<subseteq>\<^sub>m sv_verifiers s1 \<and> (cache_ok jw s \<longrightarrow> cache_ok jw s1)
    \<and> (cache_ok jw s \<longrightarrow> (\<forall>v. r = Inr v \<longrightarrow> iss \<in> set (sv_issuers s) \<and> (\<exists>t. jw_provider jw t iss = Inr v)))
    \<and> (\<forall>x. r = Inl x \<longrightarrow> s1 = s)"
  using assms by (auto simp: get_verifier_def cache_ok_def map_le_def split: if_splits option.splits sum.splits)

lemma verify_token_ok:
  assumes "verify_token jw now auth s = (r, s1)"
  shows "sv_issuers s1 = sv_issuers s \<and> sv_store s1 = sv_store s \<and> sv_issuer s1 = sv_issuer s
    \<and> sv_verifiers s \<subseteq>\<^sub>m sv_verifiers s1 \<and> (cache_ok jw s \<longrightarrow> cache_ok jw s1)"
proof -
  have "s1 = s \<or> (\<exists>iss x. get_verifier jw now iss s = (x, s1))"
    using assms by (auto simp: verify_token_def Let_def split: if_splits sum.splits option.splits prod.splits ws_error.splits)
  then show ?thesis using get_verifier_ok by fastforce
qed

lemma verify_token_accepted:
  assumes "verify_token jw now auth s = (Inr kvs, s1)" "cache_ok jw s"
  shows "\<exists>iss v subject t. jw_peek jw (bearer_of auth) = Inr (Some iss) \<and> iss \<in> set (sv_issuers s)
    \<and> jw_provider jw t iss = Inr v \<and> jw_verify jw now v (bearer_of auth) = Inr (subject, Some kvs) \<and> subject \<noteq> []"
proof -
  obtain iss v subject where v: "jw_peek jw (bearer_of auth) = Inr (Some iss)" "get_verifier jw now iss s = (Inr v, s1)"
    "jw_verify jw now v (bearer_of auth) = Inr (subject, Some kvs)" "subject \<noteq> []"
    using assms(1) by (auto simp: verify_token_def Let_def split: if_splits sum.splits option.splits prod.splits ws_error.splits)
  then show ?thesis using get_verifier_ok [OF v(2)] assms(2) by blast
qed

lemma serve_ok:
  assumes "serve jw sign rand now q (s, e) = (a, s1, e1)"
  shows "sv_issuers s1 = sv_issuers s \<and> sv_store s1 = sv_store s \<and> sv_issuer s1 = sv_issuer s
    \<and> sv_verifiers s \<subseteq>\<^sub>m sv_verifiers s1 \<and> (cache_ok jw s \<longrightarrow> cache_ok jw s1)"
proof -
  have "s1 = s \<or> (\<exists>r. verify_token jw now (wr_auth q) s = (r, s1))"
    using assms by (auto simp: serve_def split: option.splits bool.splits sum.splits prod.splits)
  then show ?thesis using verify_token_ok by fastforce
qed

text \<open>A sequence of requests, each at its time and with its randomness.\<close>

fun serve_all ::
  "'v jwt_api \<Rightarrow> signer \<Rightarrow> (nat \<times> string option \<times> ws_request) list \<Rightarrow> ('v, 'e) service \<times> 'e \<Rightarrow> ws_answer list \<times> ('v, 'e) service \<times> 'e" where
  "serve_all jw sign [] se = ([], se)"
| "serve_all jw sign ((now, rand, q) # qs) se =
     (case serve jw sign rand now q se of (a, se1) \<Rightarrow>
        (case serve_all jw sign qs se1 of (as, se2) \<Rightarrow> (a # as, se2)))"

lemma serve_all_ok:
  "serve_all jw sign qs (s, e) = (as, s1, e1) \<Longrightarrow>
    sv_issuers s1 = sv_issuers s \<and> sv_store s1 = sv_store s
    \<and> sv_verifiers s \<subseteq>\<^sub>m sv_verifiers s1 \<and> (cache_ok jw s \<longrightarrow> cache_ok jw s1)"
proof (induction qs arbitrary: s e as)
  case (Cons x qs)
  obtain now rand q where x: "x = (now, rand, q)" by (metis prod_cases3)
  obtain a s2 e2 where a: "serve jw sign rand now q (s, e) = (a, s2, e2)" by (metis prod_cases3)
  obtain bs where b: "serve_all jw sign qs (s2, e2) = (bs, s1, e1)"
    using Cons.prems by (auto simp: x a split: prod.splits)
  then show ?case using Cons.IH [OF b] serve_ok [OF a] map_le_trans by auto
qed simp

section \<open>Isolation\<close>

context namespaced_store
begin

lemma claim_handler_own: "handle_claim st sub e = (a, e1) \<Longrightarrow> own sub e e1"
  using claim_own [of sub e] by (auto simp: handle_claim_def split: prod.splits sum.splits)

lemma register_handler_own: "handle_register st body sub e = (a, e1) \<Longrightarrow> e1 = e \<or> own sub e e1"
proof -
  assume h: "handle_register st body sub e = (a, e1)"
  then consider "e1 = e" | i u where "e1 = snd (st_register st sub i u e)"
    by (auto simp: handle_register_def split: prod.splits option.splits if_splits) (metis snd_conv)+
  then show ?thesis using register_own by cases auto
qed

lemma roster_handler_own: "handle_roster st sub e = (a, e1) \<Longrightarrow> own sub e e1"
  using roster_own [of sub e] by (auto simp: handle_roster_def split: prod.splits sum.splits)

lemma gated_own: "gated_route (Some st) q r kvs e = (a, e1) \<Longrightarrow> e1 = e \<or> own (sub_of kvs) e e1"
  by (cases r) (auto simp: gated_route_def dest: claim_handler_own register_handler_own roster_handler_own)

lemma serve_own:
  assumes "serve jw sign rand now q (s, e) = (a, s1, e1)" "sv_store s = Some st"
  shows "e1 = e \<or> (\<exists>kvs. verify_token jw now (wr_auth q) s = (Inr kvs, s1) \<and> own (sub_of kvs) e e1)"
proof (cases "find_route s q = None \<or> (\<exists>r. find_route s q = Some (False, r))")
  case True
  then show ?thesis using assms(1) by (auto simp: serve_def)
next
  case False
  then obtain r where r: "find_route s q = Some (True, r)" by auto
  obtain x s2 where x: "verify_token jw now (wr_auth q) s = (x, s2)" by force
  have "sv_store s2 = Some st" using verify_token_ok [OF x] assms(2) by simp
  then show ?thesis
    using assms(1) r x gated_own [of q r] by (auto simp: serve_def split: sum.splits prod.splits)
qed

end

section \<open>Properties\<close>

text \<open>C30. The invariant of the verifier cache: after any sequence of requests to a service
  that starts with an empty cache, every cached verifier belongs to an issuer of the trust
  list and is what OIDC discovery has given for that very issuer, nothing cached is ever
  replaced, and neither the trust list nor the store changes.\<close>

theorem verifier_cache_trusted:
  assumes "serve_all jw sign qs (s, e) = (as, s1, e1)" "sv_verifiers s = Map.empty"
    "serve_all jw sign qs2 (s1, e1) = (as2, s2, e2)"
  shows "cache_ok jw s1 \<and> cache_ok jw s2 \<and> sv_verifiers s1 \<subseteq>\<^sub>m sv_verifiers s2
    \<and> sv_issuers s2 = sv_issuers s \<and> sv_store s2 = sv_store s"
proof -
  have "cache_ok jw s" using assms(2) by (simp add: cache_ok_def)
  then show ?thesis using serve_all_ok [OF assms(1)] serve_all_ok [OF assms(3)] by simp
qed

text \<open>C31. Isolation of the clusters: a request changes the backing state only when it bears a
  token that names a trusted issuer and that a verifier of this issuer accepts, and then by
  a single kvdb request, with the service's key, addressed inside the namespace of the
  verified sub.\<close>

theorem disco_isolated:
  assumes "serve jw sign rand now q (s, e) = (a, s1, e1)" "sv_store s = Some (kvdb_store c hc)" "cache_ok jw s" "e1 \<noteq> e"
  shows "\<exists>iss v t subject kvs kq. jw_peek jw (bearer_of (wr_auth q)) = Inr (Some iss) \<and> iss \<in> set (sv_issuers s)
    \<and> jw_provider jw t iss = Inr v \<and> jw_verify jw now v (bearer_of (wr_auth q)) = Inr (subject, Some kvs) \<and> subject \<noteq> []
    \<and> kv_addressed c (sub_of kvs) kq \<and> kq_user kq = kc_secret c \<and> kq_no_cache kq \<and> e1 = snd (hc kq e)"
proof -
  obtain kvs where k: "verify_token jw now (wr_auth q) s = (Inr kvs, s1)" "kv_own c hc (sub_of kvs) e e1"
    using kvdb.serve_own [OF assms(1,2)] assms(4) by blast
  then obtain kq where "kv_addressed c (sub_of kvs) kq \<and> kq_user kq = kc_secret c \<and> kq_no_cache kq \<and> e1 = snd (hc kq e)"
    using assms(4) by (auto simp: kv_own_def)
  then show ?thesis using verify_token_accepted [OF k(1) assms(3)] by blast
qed

text \<open>What the JWT libraries promise of a token signed by the service: its issuer can be read,
  and before it expires a verifier of the issuer accepts it and gives back its subject.\<close>

definition signer_ok :: "'v jwt_api \<Rightarrow> signer \<Rightarrow> string \<Rightarrow> bool" where
  "signer_ok jw sign url \<longleftrightarrow>
     (\<forall>m tok sub x now v t. sign m = Inr tok \<and> m ''iss'' = Some (JStr url) \<and> m ''sub'' = Some (JStr sub) \<and> sub \<noteq> []
        \<and> m ''exp'' = Some (JNum (format_nat x)) \<and> now < x \<and> jw_provider jw t url = Inr v \<longrightarrow>
        tok \<noteq> [] \<and> trim_space tok = tok \<and> jw_peek jw tok = Inr (Some url)
        \<and> (\<exists>kvs. jw_verify jw now v tok = Inr (sub, Some kvs) \<and> sub_of kvs = sub))"

lemma bearer_of_Bearer: "bearer_of (''Bearer '' @ t) = trim_space t"
proof -
  have "equal_fold ''Bearer '' ''bearer ''" by code_simp
  then show ?thesis by (simp add: bearer_of_def)
qed


section \<open>Examples\<close>

text \<open>A token library whose tokens spell the sub.\<close>

definition demo_sign :: signer where
  "demo_sign m = (case m ''sub'' of Some (JStr sub) \<Rightarrow> Inr (''tok-'' @ sub @ ''.'') | _ \<Rightarrow> Inl ''no sub'')"

definition demo_jwt :: "string jwt_api" where
  "demo_jwt = \<lparr>jw_peek = (\<lambda>tok. Inr (Some default_issuer_url)),
     jw_provider = (\<lambda>now iss. if iss = default_issuer_url then Inr iss else Inl ''unreachable''),
     jw_verify = (\<lambda>now v tok. let sub = butlast (drop 4 tok) in
       if has_prefix tok ''tok-'' then Inr (sub, Some [(''sub'', JStr sub)]) else Inl ''bad signature'')\<rparr>"

definition demo_service :: "(string, (string \<times> string) list) service" where
  "demo_service = disco_service ''b1'' ''key'' [] JNull (demo_kv ''b1'')"

definition demo_ask :: "string \<Rightarrow> string \<Rightarrow> string \<Rightarrow> ws_request" where
  "demo_ask meth p auth = \<lparr>wr_method = meth, wr_path = p, wr_auth = auth, wr_ctype = None,
     wr_headers = [(''cloudfront-viewer-country'', ''CH'')], wr_body = []\<rparr>"

lemma demo_signer_ok: "signer_ok demo_jwt demo_sign default_issuer_url"
proof -
  have "trim_space (''tok-'' @ sub @ ''.'') = ''tok-'' @ sub @ ''.''" for sub
    by (rule trim_space_solid) (simp_all add: solid_def byte_def)
  then show ?thesis
    by (auto simp: signer_ok_def demo_sign_def demo_jwt_def sub_of_def has_prefix_def Let_def butlast_append split: option.splits json.splits)
qed

lemma demo_service_fields:
  "sv_store demo_service = Some (kvdb_store (kvdb_client ''b1'' ''key'') (demo_kv ''b1''))"
  "sv_verifiers demo_service = Map.empty" "cache_ok demo_jwt demo_service"
  "sv_issuer demo_service = Some \<lparr>is_url = default_issuer_url, is_ttl = 3600, is_jwk = JNull\<rparr>"
  "default_issuer_url \<in> set (sv_issuers demo_service)" "default_issuer_url \<noteq> []"
  by (simp_all add: demo_service_def disco_service_def with_self_issuer_def with_issuer_def new_service_def
      kvdb_new_def kvdb_client_def cache_ok_def default_issuer_url_def Let_def)

lemma demo_bearer: "trim_space ''tok-me.'' = ''tok-me.''" "has_prefix ''tok-me.'' ''tok-''" "bearer_of ''Bearer tok-me.'' = ''tok-me.''"
  by code_simp+

lemma demo_verify:
  assumes "default_issuer_url \<in> set (sv_issuers s)" "cache_ok demo_jwt s"
  shows "\<exists>s1. verify_token demo_jwt now ''Bearer tok-me.'' s = (Inr [(''sub'', JStr ''me'')], s1) \<and> sv_store s1 = sv_store s
    \<and> sv_verifiers s1 default_issuer_url \<noteq> None"
  using assms demo_bearer default_issuer_url_def
  by (auto simp: verify_token_def get_verifier_def demo_jwt_def cache_ok_def Let_def split: option.splits)

theorem verifier_cache_trusted_witness:
  "\<exists>as s1 e1. serve_all demo_jwt demo_sign [(0, None, demo_ask ''GET'' ''/userinfo'' ''Bearer tok-me.'')] (demo_service, []) = (as, s1, e1)
     \<and> cache_ok demo_jwt s1 \<and> sv_store s1 = sv_store demo_service"
proof -
  obtain as s1 e1 where a: "serve_all demo_jwt demo_sign [(0, None, demo_ask ''GET'' ''/userinfo'' ''Bearer tok-me.'')] (demo_service, []) = (as, s1, e1)"
    by (metis prod_cases3)
  have "serve_all demo_jwt demo_sign [] (s1, e1) = ([], s1, e1)" by simp
  from verifier_cache_trusted [OF a demo_service_fields(2) this] a show ?thesis by blast
qed

lemma demo_claim_route: "find_route demo_service (demo_ask ''POST'' ''/claim'' a) = Some (True, Claim)"
  by (simp add: find_route_def web_service_def demo_ask_def accepts_def)

theorem disco_isolated_witness:
  "\<exists>a s1 e1 kq. serve demo_jwt demo_sign None 0 (demo_ask ''POST'' ''/claim'' ''Bearer tok-me.'') (demo_service, []) = (a, s1, e1)
     \<and> kv_addressed (kvdb_client ''b1'' ''key'') ''me'' kq \<and> e1 = snd (demo_kv ''b1'' kq [])"
proof -
  let ?c = "kvdb_client ''b1'' ''key''" and ?q = "demo_ask ''POST'' ''/claim'' ''Bearer tok-me.''"
  obtain s1 where v: "verify_token demo_jwt 0 ''Bearer tok-me.'' demo_service = (Inr [(''sub'', JStr ''me'')], s1)"
    "sv_store s1 = sv_store demo_service" using demo_verify demo_service_fields by blast
  have b: "list_all plain_host_char ''b1''" by code_simp
  obtain e1 where e: "kvdb_claim ?c (demo_kv ''b1'') ''me'' [] = (Inr True, e1)" "map_of e1 = [claim_key ''me'' \<mapsto> format_nat (Suc 0)]"
    using kvdb_claim_documented [OF demo_kv_documented b, of "[]" "''me''" 0 "''key''"] by auto
  have "map_of e1 (claim_key ''me'') = Some (format_nat (Suc 0))" using e(2) by simp
  then have ne: "e1 \<noteq> []" by auto
  have "sub_of [(''sub'', JStr ''me'')] = ''me''" by (simp add: sub_of_def)
  then have r: "serve demo_jwt demo_sign None 0 ?q (demo_service, []) = (Json (JObj [(''won'', JBool True)]), s1, e1)"
    using demo_claim_route v demo_service_fields(1) e(1)
    by (simp add: serve_def demo_ask_def gated_route_def handle_claim_def kvdb_store_def)
  from disco_isolated [OF r demo_service_fields(1,3) ne] obtain iss w t subject kvs kq where
    k: "jw_provider demo_jwt t iss = Inr w" "jw_verify demo_jwt 0 w (bearer_of (wr_auth ?q)) = Inr (subject, Some kvs)"
      "kv_addressed ?c (sub_of kvs) kq" "e1 = snd (demo_kv ''b1'' kq [])" by blast
  have "sub_of kvs = ''me''" using k(2) demo_bearer by (auto simp: demo_jwt_def demo_ask_def sub_of_def Let_def)
  then show ?thesis using r k by auto
qed


end
