(* ===== verification/Disco_Rendezvous.thy ===== *)
theory Disco_Rendezvous
  imports Discovery_Client Disco_Trust
begin

text \<open>
  The two ends of the discovery protocol together: the client of \<open>v0alpha0/discovery.go\<close>
  calling the service of \<open>cmd/disco/internal/ws/ws.go\<close>.
\<close>

section \<open>The service as the client's HTTP peer\<close>

definition ws_request_of :: "seed_request \<Rightarrow> ws_request" where
  "ws_request_of q =
     \<lparr>wr_method = sq_method q, wr_path = path (sq_url q),
      wr_auth = (case sq_bearer q of Some t \<Rightarrow> ''Bearer '' @ t | None \<Rightarrow> []),
      wr_ctype = map_option (\<lambda>_. ''application/json'') (sq_body q), wr_headers = [],
      wr_body = (case sq_body q of Some b \<Rightarrow> b | None \<Rightarrow> [])\<rparr>"

definition disco_http ::
  "'v jwt_api \<Rightarrow> signer \<Rightarrow> ws_wire \<Rightarrow> nat \<Rightarrow> int \<Rightarrow> (('v, 'x) service \<times> 'x) seed_http" where
  "disco_http jw sign wire now lat budget q se =
     (case serve jw sign None now (ws_request_of q) se of (a, se1) \<Rightarrow> ((Inr (ws_response wire a), lat), se1))"

text \<open>A rendering of JSON that a decoder reads back.\<close>

definition wire_ok :: "ws_wire \<Rightarrow> bool" where
  "wire_ok wire \<longleftrightarrow> (\<forall>j. json_ok j \<longrightarrow> json_decode (ww_json wire j) = Some (json_valid j))"

definition plain_base :: "string \<Rightarrow> bool" where
  "plain_base b \<longleftrightarrow> (\<exists>sch h t. (sch = ''http'' \<or> sch = ''https'') \<and> plain_host h \<and> plain_tail t \<and> b = sch @ ''://'' @ h @ t)"

lemma plain_base_parse:
  assumes "plain_base b" "list_all (\<lambda>c. plain_host_char c \<or> c = CHR ''/'') p"
  shows "\<exists>u. url_parse (b @ ''/'' @ p) = Some u \<and> path u = ''/'' @ p"
proof -
  obtain sch h t where b: "sch = ''http'' \<or> sch = ''https''" "plain_host h" "plain_tail t" "b = sch @ ''://'' @ h @ t"
    using assms(1) unfolding plain_base_def by blast
  have p: "list_all url_char p" "list_all (\<lambda>c. plain_host_char c \<or> c = CHR ''/'') (CHR ''/'' # p)"
    using assms(2) by (auto simp: list_all_iff url_char_def)
  have "url_parse (sch @ ''://'' @ h @ t @ CHR ''/'' # p @ with_query [])
      = Some (url0\<lparr>scheme := sch, host := h @ t, path := CHR ''/'' # p, raw_query := []\<rparr>)"
    using url_parse_path_query [OF b(1-3) p(1)] plain_path_escape [OF p(2)] by simp
  then show ?thesis using b(4) by (simp add: with_query_def)
qed

definition served :: "string \<Rightarrow> string \<Rightarrow> bool \<Rightarrow> int \<Rightarrow> seed" where
  "served base tok self timeout =
     \<lparr>sd_base = base, sd_desc = \<lparr>de_discovery = ''v1'', de_token = (if self then ''/token'' else []), de_userinfo = ''/userinfo'',
        de_claim = ''/claim'', de_register = ''/register'', de_roster = ''/roster''\<rparr>, sd_token = tok, sd_timeout = timeout\<rparr>"

lemma seed_do_served:
  assumes "serve jw sign None now \<lparr>wr_method = m, wr_path = ''/'' @ p, wr_auth = ''Bearer '' @ tok,
        wr_ctype = (case body of None \<Rightarrow> None | Some _ \<Rightarrow> Some ''application/json''), wr_headers = [],
        wr_body = (case body of Some b \<Rightarrow> b | None \<Rightarrow> [])\<rparr> (r_env w) = (a, se1)"
    and "plain_base base" "list_all (\<lambda>c. plain_host_char c \<or> c = CHR ''/'') p"
  shows "\<exists>w1. seed_do (disco_http jw sign wire now lat) (served base tok self tmo) d m (''/'' @ p) body w = (Inr (ws_response wire a), w1)
    \<and> r_env w1 = se1"
proof -
  obtain u where u: "url_parse (base @ ''/'' @ p) = Some u" "path u = ''/'' @ p"
    using plain_base_parse [OF assms(2,3)] by blast
  then show ?thesis
    using assms(1) unfolding seed_do_def seed_call_def served_def disco_http_def ws_request_of_def
    by (cases body) (auto simp: u elapse_def)
qed

text \<open>A gated route through the service, for an accepted token.\<close>

lemma serve_gated:
  assumes "verify_token jw now auth s = (Inr kvs, s1)" "sv_store s = st"
    and "find_route s \<lparr>wr_method = m, wr_path = p, wr_auth = auth, wr_ctype = ct, wr_headers = hs, wr_body = b\<rparr> = Some (True, r)"
    and "gated_route st \<lparr>wr_method = m, wr_path = p, wr_auth = auth, wr_ctype = ct, wr_headers = hs, wr_body = b\<rparr> r kvs e = (a, e1)"
  shows "serve jw sign rand now \<lparr>wr_method = m, wr_path = p, wr_auth = auth, wr_ctype = ct, wr_headers = hs, wr_body = b\<rparr> (s, e) = (a, s1, e1)"
  using assms verify_token_ok [OF assms(1)] by (simp add: serve_def)

lemma route_of [simp]:
  "find_route s \<lparr>wr_method = ''POST'', wr_path = ''/claim'', wr_auth = au, wr_ctype = ct, wr_headers = hs, wr_body = b\<rparr> = Some (True, Claim)"
  "find_route s \<lparr>wr_method = ''POST'', wr_path = ''/register'', wr_auth = au, wr_ctype = Some ''application/json'', wr_headers = hs, wr_body = b\<rparr> = Some (True, Register)"
  "find_route s \<lparr>wr_method = ''GET'', wr_path = ''/roster'', wr_auth = au, wr_ctype = None, wr_headers = hs, wr_body = b\<rparr> = Some (True, Roster)"
  "find_route s \<lparr>wr_method = ''GET'', wr_path = ''/userinfo'', wr_auth = au, wr_ctype = None, wr_headers = hs, wr_body = b\<rparr> = Some (True, Userinfo)"
  "find_route s \<lparr>wr_method = ''GET'', wr_path = ''/.well-known/libetcd-discovery'', wr_auth = au, wr_ctype = None, wr_headers = hs, wr_body = b\<rparr> = Some (False, Describe)"
proof -
  have "has_prefix ''application/json'' ''application/json''" by (simp add: has_prefix_def)
  then show "find_route s \<lparr>wr_method = ''POST'', wr_path = ''/claim'', wr_auth = au, wr_ctype = ct, wr_headers = hs, wr_body = b\<rparr> = Some (True, Claim)"
  "find_route s \<lparr>wr_method = ''POST'', wr_path = ''/register'', wr_auth = au, wr_ctype = Some ''application/json'', wr_headers = hs, wr_body = b\<rparr> = Some (True, Register)"
  "find_route s \<lparr>wr_method = ''GET'', wr_path = ''/roster'', wr_auth = au, wr_ctype = None, wr_headers = hs, wr_body = b\<rparr> = Some (True, Roster)"
  "find_route s \<lparr>wr_method = ''GET'', wr_path = ''/userinfo'', wr_auth = au, wr_ctype = None, wr_headers = hs, wr_body = b\<rparr> = Some (True, Userinfo)"
  "find_route s \<lparr>wr_method = ''GET'', wr_path = ''/.well-known/libetcd-discovery'', wr_auth = au, wr_ctype = None, wr_headers = hs, wr_body = b\<rparr> = Some (False, Describe)"
    by (simp_all add: find_route_def web_service_def accepts_def)
qed

lemma plain_words:
  "list_all (\<lambda>c. plain_host_char c \<or> c = CHR ''/'') ''claim''"
  "list_all (\<lambda>c. plain_host_char c \<or> c = CHR ''/'') ''register''"
  "list_all (\<lambda>c. plain_host_char c \<or> c = CHR ''/'') ''roster''"
  "list_all (\<lambda>c. plain_host_char c \<or> c = CHR ''/'') ''userinfo''"
  "list_all (\<lambda>c. plain_host_char c \<or> c = CHR ''/'') ''.well-known/libetcd-discovery''"
  by code_simp+

lemma wire_words:
  "to_valid ''id'' = ''id''" "to_valid ''url'' = ''url''" "to_valid ''urls'' = ''urls''" "to_valid ''sub'' = ''sub''"
  "equal_fold ''id'' (to_lower ''id'')" "\<not> equal_fold ''url'' (to_lower ''id'')" "equal_fold ''url'' (to_lower ''url'')"
  "\<not> equal_fold ''id'' (to_lower ''url'')" "equal_fold ''urls'' (to_lower ''urls'')" "to_lower ''sub'' = ''sub''"
  "equal_fold ''sub'' ''sub''"
  by code_simp+

section \<open>One operation each\<close>

lemma client_claim:
  assumes "plain_base base" "r_env w = (s, e)" "sv_store s = Some st"
    "verify_token jw now (''Bearer '' @ tok) s = (Inr kvs, s1)" "st_claim st (sub_of kvs) e = (r, e1)"
  shows "\<exists>x w1. seed_claim (disco_http jw sign wire now lat) (served base tok self tmo) d w = (x, w1)
    \<and> r_env w1 = (s1, e1) \<and> (case r of Inr b \<Rightarrow> x = Inr b | Inl err \<Rightarrow> \<exists>m. x = Inl m)"
proof -
  obtain a where a: "handle_claim st (sub_of kvs) e = (a, e1)"
    "a = (case r of Inl err \<Rightarrow> write_store_error err | Inr won \<Rightarrow> if won then Json (JObj [(''won'', JBool True)]) else Fail 409 ClaimHeld)"
    using assms(5) by (auto simp: handle_claim_def split: sum.splits)
  have "serve jw sign None now \<lparr>wr_method = ''POST'', wr_path = ''/'' @ ''claim'', wr_auth = ''Bearer '' @ tok,
        wr_ctype = (case None of None \<Rightarrow> None | Some _ \<Rightarrow> Some ''application/json''), wr_headers = [],
        wr_body = (case None of Some b \<Rightarrow> b | None \<Rightarrow> [])\<rparr> (r_env (emit EvClaim w)) = (a, s1, e1)"
    using a(1) unfolding emit_other assms(2)
    by (intro serve_gated [OF assms(4,3), of _ _ _ _ _ Claim]) (simp_all add: gated_route_def)
  from seed_do_served [OF this assms(1) plain_words(1), of wire lat self tmo d]
  show ?thesis using a(2)
    by (cases r) (auto simp: seed_claim_def served_def ws_response_def reply_def write_store_error_def split: store_err.splits)
qed

lemma seq_opt_one [simp]: "seq_opt [Some a] = Some [a]"
  by (simp add: seq_opt_def)

lemma decode_register_body:
  assumes "to_valid i = i" "to_valid u = u"
  shows "decode_register (register_body i u) = Some (i, u)"
proof -
  have "json_decode (register_body i u) = Some (JObj [(''id'', JStr i), (''url'', JStr u)])"
    using json_decode_print [of "JObj [(''id'', JStr i), (''url'', JStr u)]" "[]"] assms wire_words(1,2)
    by (simp add: register_body_def)
  then show ?thesis by (simp add: decode_register_def json_get_def wire_words)
qed

lemma client_register:
  assumes "plain_base base" "r_env w = (s, e)" "sv_store s = Some st"
    "verify_token jw now (''Bearer '' @ tok) s = (Inr kvs, s1)" "st_register st (sub_of kvs) i u e = (r, e1)"
    "to_valid i = i" "to_valid u = u" "u \<noteq> []"
  shows "\<exists>x w1. seed_register (disco_http jw sign wire now lat) (served base tok self tmo) d i u w = (x, w1)
    \<and> r_env w1 = (s1, e1) \<and> (r = None \<longleftrightarrow> x = None)"
proof -
  obtain a where a: "handle_register st (register_body i u) (sub_of kvs) e = (a, e1)"
    "a = (case r of Some err \<Rightarrow> write_store_error err | None \<Rightarrow> NoContent)"
    using assms(5,8) decode_register_body [OF assms(6,7)] by (auto simp: handle_register_def split: option.splits)
  have "serve jw sign None now \<lparr>wr_method = ''POST'', wr_path = ''/'' @ ''register'', wr_auth = ''Bearer '' @ tok,
        wr_ctype = (case Some (register_body i u) of None \<Rightarrow> None | Some _ \<Rightarrow> Some ''application/json''), wr_headers = [],
        wr_body = (case Some (register_body i u) of Some b \<Rightarrow> b | None \<Rightarrow> [])\<rparr> (r_env (emit (EvRegister u) w)) = (a, s1, e1)"
    using a(1) unfolding emit_other assms(2)
    by (intro serve_gated [OF assms(4,3), of _ _ _ _ _ Register]) (simp_all add: gated_route_def)
  from seed_do_served [OF this assms(1) plain_words(2), of wire lat self tmo d]
  show ?thesis using a(2)
    by (cases r) (auto simp: seed_register_def served_def ws_response_def reply_def write_store_error_def split: store_err.splits)
qed

lemma decode_roster_body:
  assumes "wire_ok wire" "length (ww_json wire (JObj [(''urls'', JArr (map JStr us))])) \<le> 1048576"
  shows "decode_roster (take 1048576 (ww_json wire (JObj [(''urls'', JArr (map JStr us))]))) = Some (map to_valid us)"
proof -
  have d: "json_decode (ww_json wire (JObj [(''urls'', JArr (map JStr us))])) = Some (JObj [(''urls'', JArr (map (\<lambda>u. JStr (to_valid u)) us))])"
    using assms(1) [unfolded wire_ok_def, rule_format, of "JObj [(''urls'', JArr (map JStr us))]"] wire_words(3)
    by (simp add: list_all_iff comp_def)
  have "json_to_list json_to_string (JArr (map (\<lambda>u. JStr (to_valid u)) us)) = Some (map to_valid us)"
    by (simp add: comp_def)
  then show ?thesis using assms(2) d by (simp add: decode_roster_def json_get_def wire_words)
qed

lemma client_roster:
  assumes "plain_base base" "r_env w = (s, e)" "sv_store s = Some st"
    "verify_token jw now (''Bearer '' @ tok) s = (Inr kvs, s1)" "st_roster st (sub_of kvs) e = (r, e1)"
    "wire_ok wire" "\<And>us. r = Inr us \<Longrightarrow> length (ww_json wire (JObj [(''urls'', JArr (map JStr us))])) \<le> 1048576"
  shows "\<exists>x w1. seed_roster (disco_http jw sign wire now lat) (served base tok self tmo) d w = (x, w1)
    \<and> r_env w1 = (s1, e1) \<and> (case r of Inr us \<Rightarrow> x = Inr (map to_valid us) | Inl err \<Rightarrow> \<exists>m. x = Inl m)"
proof -
  obtain a where a: "handle_roster st (sub_of kvs) e = (a, e1)"
    "a = (case r of Inl err \<Rightarrow> write_store_error err | Inr us \<Rightarrow> Json (JObj [(''urls'', JArr (map JStr us))]))"
    using assms(5) by (auto simp: handle_roster_def split: sum.splits)
  have "serve jw sign None now \<lparr>wr_method = ''GET'', wr_path = ''/'' @ ''roster'', wr_auth = ''Bearer '' @ tok,
        wr_ctype = (case None of None \<Rightarrow> None | Some _ \<Rightarrow> Some ''application/json''), wr_headers = [],
        wr_body = (case None of Some b \<Rightarrow> b | None \<Rightarrow> [])\<rparr> (r_env (emit EvRoster w)) = (a, s1, e1)"
    using a(1) unfolding emit_other assms(2)
    by (intro serve_gated [OF assms(4,3), of _ _ _ _ _ Roster]) (simp_all add: gated_route_def)
  from seed_do_served [OF this assms(1) plain_words(3), of wire lat self tmo d]
  show ?thesis using a(2) decode_roster_body [OF assms(6,7)]
    by (cases r) (auto simp: seed_roster_def served_def ws_response_def reply_def write_store_error_def split: store_err.splits)
qed

text \<open>Claims whose only key that folds to \<open>sub\<close> is \<open>sub\<close> itself.\<close>

definition sub_claims :: "(string \<times> json) list \<Rightarrow> bool" where
  "sub_claims kvs \<longleftrightarrow> list_all (\<lambda>(k, v). json_ok v \<and> (equal_fold (to_valid k) ''sub'' \<longrightarrow> k = ''sub'')) kvs
     \<and> sub_of kvs \<noteq> [] \<and> to_valid (sub_of kvs) = sub_of kvs"

lemma filter_unique: "distinct xs \<Longrightarrow> x \<in> set xs \<Longrightarrow> \<forall>y\<in>set xs. P y \<longleftrightarrow> y = x \<Longrightarrow> filter P xs = [x]"
  by (induction xs) (auto simp: filter_empty_conv)

lemma decode_userinfo:
  assumes "wire_ok wire" "sub_claims kvs" "length (ww_json wire (map_json kvs)) \<le> 65536"
  shows "Option.bind (Option.bind (json_decode (take 65536 (ww_json wire (map_json kvs)))) json_to_obj) (json_get json_to_string ''sub'')
    = Some (sub_of kvs)"
proof -
  let ?ks = "sort (remdups (map fst kvs))" and ?val = "\<lambda>k. the (map_of (rev kvs) k)"
  have sub: "map_of (rev kvs) ''sub'' = Some (JStr (sub_of kvs))"
    using assms(2) by (auto simp: sub_claims_def sub_of_def split: option.splits json.splits)
  have vals: "(k, ?val k) \<in> set kvs" if "k \<in> set ?ks" for k
  proof -
    have "k \<in> fst ` set (rev kvs)" using that by simp
    then obtain v where "map_of (rev kvs) k = Some v" by (metis map_of_eq_None_iff option.exhaust)
    then show ?thesis using map_of_SomeD [of "rev kvs" k v] by simp
  qed
  have "json_ok (?val k)" if "k \<in> set ?ks" for k
    using assms(2) vals [OF that] by (auto simp: sub_claims_def list_all_iff)
  then have ok: "json_ok (map_json kvs)" by (simp add: map_json_def list_all_iff)
  have d: "json_decode (take 65536 (ww_json wire (map_json kvs))) =
      Some (JObj (map (\<lambda>k. (to_valid k, json_valid (?val k))) ?ks))"
    using assms(1,3) ok by (simp add: wire_ok_def map_json_def comp_def)
  have "(''sub'', JStr (sub_of kvs)) \<in> set kvs" using map_of_SomeD [OF sub] by simp
  then have "''sub'' \<in> set ?ks" by force
  moreover have "\<forall>k\<in>set ?ks. (equal_fold (to_valid k) ''sub'' \<and> json_valid (?val k) \<noteq> JNull) = (k = ''sub'')"
  proof
    fix k assume "k \<in> set ?ks"
    then have "equal_fold (to_valid k) ''sub'' \<longrightarrow> k = ''sub''"
      using assms(2) vals by (auto simp: sub_claims_def list_all_iff)
    then show "(equal_fold (to_valid k) ''sub'' \<and> json_valid (?val k) \<noteq> JNull) = (k = ''sub'')"
      using sub wire_words by auto
  qed
  ultimately have "filter (\<lambda>k. equal_fold (to_valid k) ''sub'' \<and> json_valid (?val k) \<noteq> JNull) ?ks = [''sub'']"
    by (intro filter_unique) simp_all
  then show ?thesis
    using sub assms(2) unfolding d by (simp add: json_get_def filter_map comp_def case_prod_beta wire_words sub_claims_def)
qed

lemma client_userinfo:
  assumes "plain_base base" "r_env w = (s, e)" "verify_token jw now (''Bearer '' @ tok) s = (Inr kvs, s1)"
    "wire_ok wire" "sub_claims kvs" "length (ww_json wire (map_json kvs)) \<le> 65536"
  shows "\<exists>w1. seed_userinfo (disco_http jw sign wire now lat) (served base tok self tmo) d w = (Inr (sub_of kvs), w1)
    \<and> r_env w1 = (s1, e)"
proof -
  have "serve jw sign None now \<lparr>wr_method = ''GET'', wr_path = ''/'' @ ''userinfo'', wr_auth = ''Bearer '' @ tok,
        wr_ctype = (case None of None \<Rightarrow> None | Some _ \<Rightarrow> Some ''application/json''), wr_headers = [],
        wr_body = (case None of Some b \<Rightarrow> b | None \<Rightarrow> [])\<rparr> (r_env (emit EvUserinfo w)) = (Json (map_json kvs), s1, e)"
    unfolding emit_other assms(2)
    by (intro serve_gated [OF assms(3) refl, of _ _ _ _ _ Userinfo]) (simp_all add: gated_route_def)
  from seed_do_served [OF this assms(1) plain_words(4), of wire lat self tmo d]
  show ?thesis using decode_userinfo [OF assms(4-6)] assms(5)
    by (auto simp: seed_userinfo_def served_def ws_response_def reply_def sub_claims_def)
qed

section \<open>The sniff\<close>

lemma plain_base_trim: "plain_base b \<Longrightarrow> trim_right_char (CHR ''/'') (b @ replicate n (CHR ''/'')) = b"
proof -
  assume "plain_base b"
  then obtain sch h t where b: "plain_host h" "plain_tail t" "b = sch @ ''://'' @ h @ t" unfolding plain_base_def by blast
  have a: "h @ t \<noteq> []" "list_all (\<lambda>c. plain_host_char c \<or> c = CHR '':'') (h @ t)"
    using b(1) plain_chars [OF b(1,2)] by (auto simp: plain_host_def)
  then have "last (h @ t) \<in> set (h @ t)" by (rule_tac last_in_set)
  then have "plain_host_char (last (h @ t)) \<or> last (h @ t) = CHR '':''" using a(2) unfolding list_all_iff by blast
  then have l: "last (h @ t) \<noteq> CHR ''/''" by (auto dest: plain_host_char_not(2))
  have "b = (sch @ ''://'') @ (h @ t)" using b(3) by simp
  then have "last b = last (h @ t)" "b \<noteq> []" using a(1) by (metis last_appendR, simp)
  then obtain c r where r: "rev b = c # r" "c \<noteq> CHR ''/''" using l by (metis hd_rev list.collapse rev_is_Nil_conv)
  have "dropWhile (\<lambda>x. x = CHR ''/'') (replicate n (CHR ''/'') @ c # r) = c # r" using r(2) by (induction n) auto
  moreover have "rev (c # r) = b" using r(1) by (metis rev_rev_ident)
  ultimately show ?thesis using r(1) by (simp only: trim_right_char_def rev_append rev_replicate)
qed

definition descriptor_decoded :: "bool \<Rightarrow> bool" where
  "descriptor_decoded self \<longleftrightarrow>
     (let d = (case json_valid (descriptor_json self) of JObj kvs \<Rightarrow> kvs | _ \<Rightarrow> []) in
      json_ok (descriptor_json self) \<and> json_valid (descriptor_json self) = JObj d
      \<and> json_get json_to_string ''discovery'' d = Some ''v1''
      \<and> json_get json_to_string ''token'' d = Some (if self then ''/token'' else [])
      \<and> json_get json_to_string ''userinfo'' d = Some ''/userinfo'' \<and> json_get json_to_string ''claim'' d = Some ''/claim''
      \<and> json_get json_to_string ''register'' d = Some ''/register'' \<and> json_get json_to_string ''roster'' d = Some ''/roster'')"

lemma descriptor_decoded: "descriptor_decoded True" "descriptor_decoded False"
  by code_simp+

lemma decode_descriptor_served:
  assumes "json_decode b = Some (json_valid (descriptor_json self))"
  shows "decode_descriptor b = Some (sd_desc (served base [] self tmo))"
proof -
  have "descriptor_decoded self" using descriptor_decoded by (cases self) simp_all
  then obtain d where "json_valid (descriptor_json self) = JObj d"
      "json_get json_to_string ''discovery'' d = Some ''v1''"
      "json_get json_to_string ''token'' d = Some (if self then ''/token'' else [])"
      "json_get json_to_string ''userinfo'' d = Some ''/userinfo''" "json_get json_to_string ''claim'' d = Some ''/claim''"
      "json_get json_to_string ''register'' d = Some ''/register''" "json_get json_to_string ''roster'' d = Some ''/roster''"
    unfolding descriptor_decoded_def Let_def by metis
  then show ?thesis using assms by (simp add: decode_descriptor_def served_def)
qed

lemma client_probe:
  assumes "plain_base base" "r_env w = (s, e)" "wire_ok wire"
    "length (ww_json wire (descriptor_json (sv_issuer s \<noteq> None))) \<le> 65536"
  shows "\<exists>w1. probe_seed (disco_http jw sign wire now lat) d (base @ replicate n (CHR ''/'')) w
      = (Some (served base [] (sv_issuer s \<noteq> None) 30000), w1) \<and> r_env w1 = (s, e)"
proof -
  let ?self = "sv_issuer s \<noteq> None"
  obtain u where u: "url_parse (base @ ''/'' @ ''.well-known/libetcd-discovery'') = Some u" "path u = ''/'' @ ''.well-known/libetcd-discovery''"
    using plain_base_parse [OF assms(1) plain_words(5)] by blast
  have sv: "serve jw sign None now \<lparr>wr_method = ''GET'', wr_path = ''/.well-known/libetcd-discovery'', wr_auth = [],
      wr_ctype = None, wr_headers = [], wr_body = []\<rparr> (s, e) = (Json (descriptor_json ?self), s, e)"
    by (simp add: serve_def open_route_def handle_descriptor_def)
  have j: "json_ok (descriptor_json ?self)" using descriptor_decoded by (cases ?self) (simp_all add: descriptor_decoded_def Let_def)
  have "decode_descriptor (take 65536 (ww_json wire (descriptor_json ?self))) = Some (sd_desc (served base [] ?self 30000))"
    using assms(3,4) j by (intro decode_descriptor_served) (simp add: wire_ok_def)
  moreover have "complete_descriptor (sd_desc (served base [] ?self 30000))" by (simp add: served_def complete_descriptor_def)
  ultimately show ?thesis
    using u sv assms(2) unfolding probe_seed_def Let_def plain_base_trim [OF assms(1)] seed_call_def
    by (simp add: discovery_well_known_def disco_http_def ws_request_of_def ws_response_def reply_def elapse_def served_def)
qed

section \<open>Property\<close>

text \<open>C33. The client of the node and the handlers of the service agree: against the service, a
  sniff finds exactly the endpoints that are served, and for a token that the gate accepts,
  userinfo returns its sub, and claim, register and roster are the operations of the store in
  the namespace of that sub, its errors being errors of the client.\<close>

theorem client_service_agree:
  fixes s :: "('v, 'x) service" and w :: "(('v, 'x) service \<times> 'x) run"
  assumes base: "plain_base base" and env: "r_env w = (s, e)" and st: "sv_store s = Some st"
    and wire: "wire_ok wire" "length (ww_json wire (descriptor_json (sv_issuer s \<noteq> None))) \<le> 65536"
      "length (ww_json wire (map_json kvs)) \<le> 65536"
      "\<And>us. fst (st_roster st (sub_of kvs) e) = Inr us \<Longrightarrow> length (ww_json wire (JObj [(''urls'', JArr (map JStr us))])) \<le> 1048576"
    and tok: "verify_token jw now (''Bearer '' @ tok) s = (Inr kvs, s1)" "sub_claims kvs"
    and url: "to_valid u = u" "u \<noteq> []"
  shows "fst (probe_seed (disco_http jw sign wire now lat) d base w) = Some (served base [] (sv_issuer s \<noteq> None) 30000)
    \<and> (\<exists>w1. seed_userinfo (disco_http jw sign wire now lat) (served base tok self tmo) d w = (Inr (sub_of kvs), w1) \<and> r_env w1 = (s1, e))
    \<and> (\<exists>x w1. seed_claim (disco_http jw sign wire now lat) (served base tok self tmo) d w = (x, w1)
         \<and> r_env w1 = (s1, snd (st_claim st (sub_of kvs) e))
         \<and> (case fst (st_claim st (sub_of kvs) e) of Inr b \<Rightarrow> x = Inr b | Inl err \<Rightarrow> \<exists>m. x = Inl m))
    \<and> (\<exists>x w1. seed_register (disco_http jw sign wire now lat) (served base tok self tmo) d u u w = (x, w1)
         \<and> r_env w1 = (s1, snd (st_register st (sub_of kvs) u u e))
         \<and> (fst (st_register st (sub_of kvs) u u e) = None \<longleftrightarrow> x = None))
    \<and> (\<exists>x w1. seed_roster (disco_http jw sign wire now lat) (served base tok self tmo) d w = (x, w1)
         \<and> r_env w1 = (s1, snd (st_roster st (sub_of kvs) e))
         \<and> (case fst (st_roster st (sub_of kvs) e) of Inr us \<Rightarrow> x = Inr (map to_valid us) | Inl err \<Rightarrow> \<exists>m. x = Inl m))"
proof (intro conjI)
  show "fst (probe_seed (disco_http jw sign wire now lat) d base w) = Some (served base [] (sv_issuer s \<noteq> None) 30000)"
    using client_probe [OF base env wire(1,2), of jw sign now lat d 0] by auto
qed (rule client_userinfo [OF base env tok(1) wire(1) tok(2) wire(3)]
      client_claim [OF base env st tok(1) prod.collapse [symmetric]]
      client_register [OF base env st tok(1) prod.collapse [symmetric] url(1) url]
      client_roster [OF base env st tok(1) prod.collapse [symmetric] wire(1,4)], assumption?)+

definition demo_wire :: ws_wire where
  "demo_wire = \<lparr>ww_json = json_print, ww_text = (\<lambda>_. ''error''), ww_other = (\<lambda>_. reply 404 [])\<rparr>"

lemma demo_wire_ok: "wire_ok demo_wire"
  using json_decode_print [of _ "[]"] by (simp add: wire_ok_def demo_wire_def)

lemma demo_wire_lengths:
  "length (json_print (descriptor_json True)) \<le> 1000" "length (json_print (map_json [(''sub'', JStr ''me'')])) \<le> 1000"
  "length (json_print (JObj [(''urls'', JArr (map JStr []))])) \<le> 1000"
  by code_simp+

lemma demo_plain_base: "plain_base ''http://seed:80''"
proof -
  have "plain_host ''seed''" "all_digits ''80''" by code_simp+
  then have "plain_host ''seed'' \<and> plain_tail '':80''" by (simp add: plain_tail_def)
  then show ?thesis unfolding plain_base_def by (intro exI [of _ "''http''"] exI [of _ "''seed''"] exI [of _ "'':80''"]) simp
qed

definition demo_peer_world :: "((string, (string \<times> string) list) service \<times> (string \<times> string) list) run" where
  "demo_peer_world = \<lparr>r_env = (demo_service, []), r_now = 0, r_fs = [], r_log = []\<rparr>"

theorem client_service_agree_witness:
  "fst (probe_seed (disco_http demo_jwt demo_sign demo_wire 0 1) 10000 ''http://seed:80'' demo_peer_world)
       = Some (served ''http://seed:80'' [] True 30000)
     \<and> fst (seed_userinfo (disco_http demo_jwt demo_sign demo_wire 0 1) (served ''http://seed:80'' ''tok-me.'' True 10000) 10000 demo_peer_world) = Inr ''me''
     \<and> fst (seed_claim (disco_http demo_jwt demo_sign demo_wire 0 1) (served ''http://seed:80'' ''tok-me.'' True 10000) 10000 demo_peer_world) = Inr True"
proof -
  let ?c = "kvdb_client ''b1'' ''key''" and ?kvs = "[(''sub'', JStr ''me'')]"
  have b: "list_all plain_host_char ''b1''" by code_simp
  have sub: "sub_of ?kvs = ''me''" by (simp add: sub_of_def)
  obtain s1 where v: "verify_token demo_jwt 0 (''Bearer '' @ ''tok-me.'') demo_service = (Inr ?kvs, s1)"
    using demo_verify [of demo_service 0] demo_service_fields by auto
  have cl: "sub_claims ?kvs"
  proof -
    have "to_valid ''me'' = ''me''" by code_simp
    then show ?thesis by (simp add: sub_claims_def sub)
  qed
  obtain e1 where e: "kvdb_claim ?c (demo_kv ''b1'') ''me'' [] = (Inr True, e1)"
    using kvdb_claim_documented [OF demo_kv_documented b, of "[]" "''me''" 0 "''key''"] by auto
  have ro: "us = []" if "fst (st_roster (kvdb_store ?c (demo_kv ''b1'')) (sub_of ?kvs) []) = Inr us" for us
    using kvdb_roster_documented [OF demo_kv_documented b, of "''key''" "''me''" "[]"] that
    unfolding sub by (auto simp: kvdb_store_def)
  have len: "length (ww_json demo_wire (descriptor_json (sv_issuer demo_service \<noteq> None))) \<le> 65536"
    "length (ww_json demo_wire (map_json ?kvs)) \<le> 65536"
    using demo_wire_lengths demo_service_fields(4) by (simp_all add: demo_wire_def)
  have lenr: "length (ww_json demo_wire (JObj [(''urls'', JArr (map JStr us))])) \<le> 1048576"
    if "fst (st_roster (kvdb_store ?c (demo_kv ''b1'')) (sub_of ?kvs) []) = Inr us" for us
    using demo_wire_lengths(3) ro [OF that] by (simp add: demo_wire_def)
  have env: "r_env demo_peer_world = (demo_service, [])" by (simp add: demo_peer_world_def)
  have u: "to_valid ''u'' = ''u''" "''u'' \<noteq> []" by code_simp+
  have c: "st_claim (kvdb_store ?c (demo_kv ''b1'')) ''me'' [] = (Inr True, e1)" using e by (simp add: kvdb_store_def)
  note all = client_service_agree [OF demo_plain_base env demo_service_fields(1) demo_wire_ok len lenr v cl u, where sign = demo_sign and lat = 1 and d = 10000 and self = True and tmo = 10000]
  show ?thesis using all demo_service_fields(4) unfolding sub c by auto
qed

end
