(* ===== verification/Disco_Streams.thy ===== *)
theory Disco_Streams
  imports Disco_Service
begin

text \<open>
  The two streaming handlers of \<open>cmd/disco/internal/ws/ws.go\<close>, each as a step relation of the
  handler beside the goroutine that it starts: \<open>handleServe\<close> reports on a tunnel line by line,
  \<open>handleNew\<close> hands out the URL of one.  The tunnel library is a parameter of the steps.
\<close>

section \<open>Serve\<close>

text \<open>\<open>Duration.String\<close> of whole seconds, and the rounding of milliseconds to them.\<close>

definition duration_string :: "nat \<Rightarrow> string" where
  "duration_string n =
     (let h = n div 3600; m = n div 60 mod 60; s = n mod 60 in
      (if h > 0 then format_nat h @ ''h'' else []) @ (if n \<ge> 60 then format_nat m @ ''m'' else []) @ format_nat s @ ''s'')"

definition round_second :: "nat \<Rightarrow> nat" where
  "round_second ms = (ms + 500) div 1000"

record serve_response =
  sp_sub :: string
  sp_url :: string
  sp_uptime :: string
  sp_status :: string

text \<open>The JSON of a response; empty members of the optional fields are omitted.\<close>

definition serve_json :: "serve_response \<Rightarrow> json" where
  "serve_json r =
     JObj ([(''sub'', JStr (sp_sub r))] @ (if sp_url r = [] then [] else [(''url'', JStr (sp_url r))])
       @ [(''uptime'', JStr (sp_uptime r))] @ (if sp_status r = [] then [] else [(''status'', JStr (sp_status r))]))"

text \<open>The goroutine (\<open>t\<close> for the tunnel it has opened) and the handler.\<close>

datatype tunnel_pc = Starting | Opening | Opened | Serving | Ended
datatype handler_pc = Encode | Select | Finished
datatype cause = Canceled | ServeError string

record serve_state =
  ss_tunnel :: tunnel_pc
  ss_handler :: handler_pc
  ss_status :: "string option"
  ss_url :: "string option"
  ss_cause :: "cause option"
  ss_uptime :: nat
  ss_lines :: "serve_response list"

definition serve0 :: serve_state where
  "serve0 = \<lparr>ss_tunnel = Starting, ss_handler = Encode, ss_status = None, ss_url = None, ss_cause = None,
     ss_uptime = 0, ss_lines = []\<rparr>"

definition status_line :: "string \<Rightarrow> serve_state \<Rightarrow> serve_response" where
  "status_line sub s =
     \<lparr>sp_sub = sub, sp_url = (case ss_url s of Some u \<Rightarrow> u | None \<Rightarrow> []),
      sp_uptime = duration_string (round_second (ss_uptime s)), sp_status = (case ss_status s of Some t \<Rightarrow> t | None \<Rightarrow> [])\<rparr>"

definition error_line :: "string \<Rightarrow> string \<Rightarrow> serve_state \<Rightarrow> serve_response" where
  "error_line sub e s =
     \<lparr>sp_sub = sub, sp_url = [], sp_uptime = duration_string (round_second (ss_uptime s)), sp_status = ''Error: '' @ e\<rparr>"

text \<open>
  A cancellation counts once: the first cause stays.  \<open>gone\<close> is the end of the request context,
  \<open>broken\<close> a write to a client that has left; after the end of the context a \<open>select\<close> may still
  take a tick that is ready.
\<close>

inductive serve_step :: "string \<Rightarrow> serve_state \<Rightarrow> serve_state \<Rightarrow> bool" for sub :: string where
  starting: "ss_tunnel s = Starting \<Longrightarrow>
    serve_step sub s (s\<lparr>ss_tunnel := Opening, ss_status := Some ''Tunnel starting''\<rparr>)"
| no_url: "ss_tunnel s = Opening \<Longrightarrow> serve_step sub s (s\<lparr>ss_tunnel := Opened\<rparr>)"
| url: "ss_tunnel s = Opening \<Longrightarrow> serve_step sub s (s\<lparr>ss_tunnel := Opened, ss_url := Some u\<rparr>)"
| serving: "ss_tunnel s = Opened \<Longrightarrow>
    serve_step sub s (s\<lparr>ss_tunnel := Serving, ss_status := Some (''Tunnel serving on '' @ addr)\<rparr>)"
| served: "ss_tunnel s = Serving \<Longrightarrow> serve_step sub s (s\<lparr>ss_status := Some (''Served: '' @ req)\<rparr>)"
| failed: "ss_tunnel s = Serving \<Longrightarrow>
    serve_step sub s (s\<lparr>ss_tunnel := Ended,
      ss_cause := (if ss_cause s = None then Some (ServeError (''failed to serve HTTP on tunnel: '' @ e)) else ss_cause s)\<rparr>)"
| closed: "ss_tunnel s = Serving \<Longrightarrow> serve_step sub s (s\<lparr>ss_tunnel := Ended\<rparr>)"
| gone: "ss_cause s = None \<Longrightarrow> serve_step sub s (s\<lparr>ss_cause := Some Canceled\<rparr>)"
| elapse: "serve_step sub s (s\<lparr>ss_uptime := ss_uptime s + n\<rparr>)"
| encode: "ss_handler s = Encode \<Longrightarrow>
    serve_step sub s (s\<lparr>ss_handler := Select, ss_lines := ss_lines s @ [status_line sub s]\<rparr>)"
| broken: "ss_handler s = Encode \<Longrightarrow> serve_step sub s (s\<lparr>ss_handler := Finished\<rparr>)"
| tick: "ss_handler s = Select \<Longrightarrow> serve_step sub s (s\<lparr>ss_handler := Encode\<rparr>)"
| canceled: "ss_handler s = Select \<Longrightarrow> ss_cause s = Some Canceled \<Longrightarrow> serve_step sub s (s\<lparr>ss_handler := Finished\<rparr>)"
| report: "ss_handler s = Select \<Longrightarrow> ss_cause s = Some (ServeError e) \<Longrightarrow>
    serve_step sub s (s\<lparr>ss_handler := Finished, ss_lines := ss_lines s @ [error_line sub e s]\<rparr>)"

inductive serve_reach :: "string \<Rightarrow> serve_state \<Rightarrow> bool" for sub :: string where
  init: "serve_reach sub serve0"
| step: "serve_reach sub s \<Longrightarrow> serve_step sub s s1 \<Longrightarrow> serve_reach sub s1"

section \<open>New\<close>

text \<open>The goroutine sends twice over an unbuffered channel; \<open>Crashed\<close> is the panic of the whole
  process on a nil URL.\<close>

datatype sender_pc = SendEmpty | Dialing | SendUrl string | SenderDone | Crashed
datatype range_pc = Ranging | Waiting | Returned

record new_state =
  ns_sender :: sender_pc
  ns_handler :: range_pc
  ns_closed :: bool
  ns_gone :: bool
  ns_lines :: "string list"

definition new0 :: new_state where
  "new0 = \<lparr>ns_sender = SendEmpty, ns_handler = Ranging, ns_closed = False, ns_gone = False, ns_lines = []\<rparr>"

definition payload_json :: "string \<Rightarrow> json" where
  "payload_json u = JObj (if u = [] then [] else [(''message'', JStr u)])"

inductive new_step :: "new_state \<Rightarrow> new_state \<Rightarrow> bool" where
  first: "ns_sender s = SendEmpty \<Longrightarrow> ns_handler s = Ranging \<Longrightarrow>
    new_step s (s\<lparr>ns_sender := Dialing, ns_lines := ns_lines s @ [json_print (payload_json [])]\<rparr>)"
| dialed: "ns_sender s = Dialing \<Longrightarrow> new_step s (s\<lparr>ns_sender := SendUrl u\<rparr>)"
| nil_url: "ns_sender s = Dialing \<Longrightarrow> new_step s (s\<lparr>ns_sender := Crashed\<rparr>)"
| second: "ns_sender s = SendUrl u \<Longrightarrow> ns_handler s = Ranging \<Longrightarrow>
    new_step s (s\<lparr>ns_sender := SenderDone, ns_lines := ns_lines s @ [json_print (payload_json u)]\<rparr>)"
| leave: "\<not> ns_gone s \<Longrightarrow> ns_sender s \<noteq> Crashed \<Longrightarrow> new_step s (s\<lparr>ns_gone := True\<rparr>)"
| range_end: "ns_handler s = Ranging \<Longrightarrow> ns_closed s \<Longrightarrow> new_step s (s\<lparr>ns_handler := Waiting\<rparr>)"
| return: "ns_handler s = Waiting \<Longrightarrow> ns_gone s \<Longrightarrow> new_step s (s\<lparr>ns_handler := Returned\<rparr>)"

inductive new_reach :: "new_state \<Rightarrow> bool" where
  init: "new_reach new0"
| step: "new_reach s \<Longrightarrow> new_step s s1 \<Longrightarrow> new_reach s1"

section \<open>Lemmas\<close>

text \<open>The lines of a stream: status lines that never lose or change a URL, and at most one error
  line, the last, when serving has failed.\<close>

fun keeps_url :: "string \<Rightarrow> string list \<Rightarrow> bool" where
  "keeps_url u [] \<longleftrightarrow> True"
| "keeps_url u (v # vs) \<longleftrightarrow> (u \<noteq> [] \<longrightarrow> v = u) \<and> keeps_url v vs"

lemma keeps_url_snoc: "keeps_url u (vs @ [v]) \<longleftrightarrow> keeps_url u vs \<and> (last (u # vs) \<noteq> [] \<longrightarrow> v = last (u # vs))"
  by (induction vs arbitrary: u) auto

definition stream_of :: "string \<Rightarrow> string option \<Rightarrow> serve_response list \<Rightarrow> bool" where
  "stream_of sub u ls \<longleftrightarrow> keeps_url [] (map sp_url ls)
     \<and> (last ([] # map sp_url ls) \<noteq> [] \<longrightarrow> u = Some (last ([] # map sp_url ls))) \<and> (\<forall>r\<in>set ls. sp_sub r = sub)"

definition closed_by :: "string \<Rightarrow> string option \<Rightarrow> cause option \<Rightarrow> serve_response list \<Rightarrow> bool" where
  "closed_by sub u c ls \<longleftrightarrow>
     (\<exists>e ls1 l. c = Some (ServeError e) \<and> ls = ls1 @ [l] \<and> stream_of sub u ls1
        \<and> sp_sub l = sub \<and> sp_url l = [] \<and> sp_status l = ''Error: '' @ e)"

definition serve_inv :: "string \<Rightarrow> serve_state \<Rightarrow> bool" where
  "serve_inv sub s \<longleftrightarrow>
     (ss_tunnel s \<in> {Starting, Opening} \<longrightarrow> ss_url s = None)
     \<and> (stream_of sub (ss_url s) (ss_lines s)
        \<or> ss_handler s = Finished \<and> closed_by sub (ss_url s) (ss_cause s) (ss_lines s))"

lemma serve_inv0: "serve_inv sub serve0"
  by (simp add: serve_inv_def serve0_def stream_of_def)

lemma stream_of_url: "stream_of sub None ls \<Longrightarrow> stream_of sub (Some u) ls"
  by (auto simp: stream_of_def)

lemma closed_by_url: "closed_by sub None c ls \<Longrightarrow> closed_by sub (Some u) c ls"
  unfolding closed_by_def using stream_of_url by blast

lemma closed_by_None [simp]: "\<not> closed_by sub u None ls"
  by (simp add: closed_by_def)

lemma stream_of_line: "stream_of sub (ss_url s) ls \<Longrightarrow> stream_of sub (ss_url s) (ls @ [status_line sub s])"
  by (auto simp: stream_of_def status_line_def keeps_url_snoc split: option.splits)

lemma stream_of_error: "stream_of sub u ls \<Longrightarrow> closed_by sub u (Some (ServeError e)) (ls @ [error_line sub e s])"
  by (auto simp: closed_by_def error_line_def)

lemma serve_inv_step: "serve_step sub s s1 \<Longrightarrow> serve_inv sub s \<Longrightarrow> serve_inv sub s1"
proof (induction rule: serve_step.induct)
  case (url s u)
  then show ?case by (simp add: serve_inv_def) (metis stream_of_url closed_by_url)
next
  case (failed s e)
  then show ?case by (cases "ss_cause s") (simp_all add: serve_inv_def)
next
  case (encode s)
  then show ?case by (simp add: serve_inv_def stream_of_line)
next
  case (report s e)
  then show ?case by (simp add: serve_inv_def stream_of_error)
next
  case (gone s)
  then show ?case by (simp add: serve_inv_def)
next
  case (canceled s)
  then show ?case by (simp add: serve_inv_def)
next
  case (broken s)
  then show ?case by (simp add: serve_inv_def)
next
  case (tick s)
  then show ?case by (simp add: serve_inv_def)
qed (auto simp: serve_inv_def)

lemma serve_reach_inv: "serve_reach sub s \<Longrightarrow> serve_inv sub s"
  by (induction rule: serve_reach.induct) (auto intro: serve_inv0 serve_inv_step)

lemma keeps_url_nth: "keeps_url u us \<Longrightarrow> i < length us \<Longrightarrow> u \<noteq> [] \<Longrightarrow> us ! i = u"
proof (induction us arbitrary: u i)
  case (Cons v vs)
  then show ?case by (cases i) auto
qed simp

lemma keeps_url_later: "keeps_url u us \<Longrightarrow> i \<le> j \<Longrightarrow> j < length us \<Longrightarrow> us ! i \<noteq> [] \<Longrightarrow> us ! j = us ! i"
proof (induction us arbitrary: u i j)
  case (Cons v vs)
  have vs: "keeps_url v vs" using Cons.prems(1) by simp
  show ?case
  proof (cases i)
    case 0
    then show ?thesis using keeps_url_nth [OF vs, of "j - 1"] Cons.prems by (cases j) simp_all
  next
    case (Suc k)
    then show ?thesis using Cons.IH [OF vs, of k "j - 1"] Cons.prems by (cases j) simp_all
  qed
qed simp

section \<open>Properties\<close>

text \<open>The report of a tunnel: every line of \<open>/serve\<close> carries the verified sub of its request,
  and a line that names the URL of the tunnel is followed by lines with the same URL only, up to
  a closing line, which is written last, once, without a URL, exactly when serving had failed before
  the client left.  The handler never gets stuck: until it returns it has a next step, and
  when its context has ended it can return at its next \<open>select\<close>.\<close>

theorem serve_stream:
  assumes reach: "serve_reach sub s"
  shows "(\<forall>r\<in>set (ss_lines s). sp_sub r = sub)
    \<and> (\<exists>ls end. ss_lines s = ls @ end
        \<and> (\<forall>i j. i \<le> j \<and> j < length ls \<and> sp_url (ls ! i) \<noteq> [] \<longrightarrow> sp_url (ls ! j) = sp_url (ls ! i))
        \<and> (end = [] \<or> (\<exists>e l. end = [l] \<and> ss_handler s = Finished \<and> ss_cause s = Some (ServeError e)
              \<and> sp_url l = [] \<and> sp_status l = ''Error: '' @ e)))
    \<and> (ss_handler s \<noteq> Finished \<longrightarrow> (\<exists>s1. serve_step sub s s1 \<and> ss_handler s1 \<noteq> ss_handler s))
    \<and> (ss_handler s = Select \<and> ss_cause s \<noteq> None \<longrightarrow> (\<exists>s1. serve_step sub s s1 \<and> ss_handler s1 = Finished))"
proof -
  have inv: "serve_inv sub s" using reach by (rule serve_reach_inv)
  have url: "sp_url (ls ! j) = sp_url (ls ! i)"
    if "stream_of sub u ls" "i \<le> j" "j < length ls" "sp_url (ls ! i) \<noteq> []" for u ls i j
    using keeps_url_later [of "[]" "map sp_url ls" i j] that by (simp add: stream_of_def)
  have 1: "\<forall>r\<in>set (ss_lines s). sp_sub r = sub" using inv by (auto simp: serve_inv_def stream_of_def closed_by_def)
  have 2: "\<exists>ls end. ss_lines s = ls @ end
        \<and> (\<forall>i j. i \<le> j \<and> j < length ls \<and> sp_url (ls ! i) \<noteq> [] \<longrightarrow> sp_url (ls ! j) = sp_url (ls ! i))
        \<and> (end = [] \<or> (\<exists>e l. end = [l] \<and> ss_handler s = Finished \<and> ss_cause s = Some (ServeError e)
              \<and> sp_url l = [] \<and> sp_status l = ''Error: '' @ e))"
    using inv unfolding serve_inv_def
  proof (elim conjE disjE, goal_cases)
    case 1
    then show ?case using url by (intro exI [of _ "ss_lines s"] exI [of _ "[]"]) simp
  next
    case 2
    then obtain e ls l where "ss_cause s = Some (ServeError e)" "ss_lines s = ls @ [l]" "stream_of sub (ss_url s) ls"
      "sp_url l = []" "sp_status l = ''Error: '' @ e" by (auto simp: closed_by_def)
    then show ?case using 2 url by (intro exI [of _ ls] exI [of _ "[l]"]) simp
  qed
  have 3: "ss_handler s \<noteq> Finished \<longrightarrow> (\<exists>s1. serve_step sub s s1 \<and> ss_handler s1 \<noteq> ss_handler s)"
    using serve_step.encode [of s sub] serve_step.tick [of s sub] by (cases "ss_handler s") force+
  have 4: "ss_handler s = Select \<and> ss_cause s \<noteq> None \<longrightarrow> (\<exists>s1. serve_step sub s s1 \<and> ss_handler s1 = Finished)"
    using serve_step.canceled [of s sub] serve_step.report [of s _ sub] by (cases "ss_cause s"; cases "the (ss_cause s)") force+
  show ?thesis using 1 2 3 4 by blast
qed

definition demo_stream :: serve_state where
  "demo_stream = \<lparr>ss_tunnel = Ended, ss_handler = Finished, ss_status = Some ''Tunnel serving on a'', ss_url = Some ''https://t'',
     ss_cause = Some (ServeError ''failed to serve HTTP on tunnel: x''), ss_uptime = 0,
     ss_lines = [\<lparr>sp_sub = ''me'', sp_url = [], sp_uptime = ''0s'', sp_status = ''Tunnel starting''\<rparr>,
       \<lparr>sp_sub = ''me'', sp_url = ''https://t'', sp_uptime = ''0s'', sp_status = ''Tunnel serving on a''\<rparr>,
       \<lparr>sp_sub = ''me'', sp_url = [], sp_uptime = ''0s'', sp_status = ''Error: failed to serve HTTP on tunnel: x''\<rparr>]\<rparr>"

lemma demo_uptime: "duration_string (round_second 0) = ''0s''"
  by code_simp

lemma demo_stream_reach: "serve_reach ''me'' demo_stream"
proof -
  let ?l1 = "\<lparr>sp_sub = ''me'', sp_url = [], sp_uptime = ''0s'', sp_status = ''Tunnel starting''\<rparr>"
  let ?l2 = "\<lparr>sp_sub = ''me'', sp_url = ''https://t'', sp_uptime = ''0s'', sp_status = ''Tunnel serving on a''\<rparr>"
  let ?s1 = "serve0\<lparr>ss_tunnel := Opening, ss_status := Some ''Tunnel starting''\<rparr>"
  let ?s2 = "?s1\<lparr>ss_handler := Select, ss_lines := [?l1]\<rparr>"
  let ?s3 = "?s2\<lparr>ss_tunnel := Opened, ss_url := Some ''https://t''\<rparr>"
  let ?s4 = "?s3\<lparr>ss_tunnel := Serving, ss_status := Some ''Tunnel serving on a''\<rparr>"
  let ?s5 = "?s4\<lparr>ss_handler := Encode\<rparr>"
  let ?s6 = "?s5\<lparr>ss_handler := Select, ss_lines := [?l1, ?l2]\<rparr>"
  let ?s7 = "?s6\<lparr>ss_tunnel := Ended, ss_cause := Some (ServeError ''failed to serve HTTP on tunnel: x'')\<rparr>"
  have "serve_step ''me'' serve0 ?s1" using serve_step.starting [of serve0] by (simp add: serve0_def)
  moreover have "serve_step ''me'' ?s1 ?s2"
    using serve_step.encode [of ?s1 "''me''"] by (simp add: serve0_def status_line_def demo_uptime)
  moreover have "serve_step ''me'' ?s2 ?s3" using serve_step.url [of ?s2 "''me''" "''https://t''"] by (simp add: serve0_def)
  moreover have "serve_step ''me'' ?s3 ?s4" using serve_step.serving [of ?s3 "''me''" "''a''"] by (simp add: serve0_def)
  moreover have "serve_step ''me'' ?s4 ?s5" using serve_step.tick [of ?s4 "''me''"] by (simp add: serve0_def)
  moreover have "serve_step ''me'' ?s5 ?s6"
    using serve_step.encode [of ?s5 "''me''"] by (simp add: serve0_def status_line_def demo_uptime)
  moreover have "serve_step ''me'' ?s6 ?s7" using serve_step.failed [of ?s6 "''me''" "''x''"] by (simp add: serve0_def)
  moreover have "serve_step ''me'' ?s7 demo_stream"
    using serve_step.report [of ?s7 "''failed to serve HTTP on tunnel: x''" "''me''"]
    by (simp add: serve0_def error_line_def demo_uptime demo_stream_def)
  ultimately show ?thesis using serve_reach.init serve_reach.step by metis
qed

theorem serve_stream_witness:
  "serve_reach ''me'' demo_stream \<and> length (ss_lines demo_stream) = 3 \<and> (\<forall>r\<in>set (ss_lines demo_stream). sp_sub r = ''me'')"
  using serve_stream [OF demo_stream_reach] demo_stream_reach by (simp add: demo_stream_def)

definition new_inv :: "new_state \<Rightarrow> bool" where
  "new_inv s \<longleftrightarrow> ns_handler s = Ranging \<and> \<not> ns_closed s
     \<and> length (ns_lines s) = (case ns_sender s of SendEmpty \<Rightarrow> 0 | SenderDone \<Rightarrow> 2 | _ \<Rightarrow> 1)"

lemma new_reach_inv: "new_reach s \<Longrightarrow> new_inv s"
proof (induction rule: new_reach.induct)
  case init
  then show ?case by (simp add: new_inv_def new0_def)
next
  case (step s s1)
  from step(2,3) show ?case by (cases rule: new_step.cases) (simp_all add: new_inv_def)
qed

definition new_final :: "new_state \<Rightarrow> bool" where
  "new_final s \<longleftrightarrow> ns_sender s = Crashed \<or> ns_sender s = SenderDone \<and> ns_gone s"

lemma new_stuck: "new_inv s \<Longrightarrow> new_final s \<longleftrightarrow> \<not> (\<exists>s1. new_step s s1)"
proof (cases "new_final s")
  case True
  moreover assume "new_inv s"
  ultimately show ?thesis by (auto simp: new_final_def new_inv_def elim: new_step.cases)
next
  case False
  assume inv: "new_inv s"
  have "\<exists>s1. new_step s s1"
    using False inv new_step.first [of s] new_step.dialed [of s] new_step.second [of s] new_step.leave [of s]
    by (cases "ns_sender s") (auto simp: new_final_def new_inv_def)
  then show ?thesis using False by blast
qed

text \<open>The steps of a run but for the crash lead to a final state.\<close>

definition new_rank :: "new_state \<Rightarrow> nat" where
  "new_rank s = (if ns_gone s then 0 else 1)
     + (case ns_sender s of SendEmpty \<Rightarrow> 3 | Dialing \<Rightarrow> 2 | SendUrl _ \<Rightarrow> 1 | _ \<Rightarrow> 0)"

lemma new_step_rank: "new_step s s1 \<Longrightarrow> new_inv s \<Longrightarrow> new_rank s1 < new_rank s"
  by (induction rule: new_step.induct) (simp_all add: new_rank_def new_inv_def)

text \<open>C0. \<open>/new\<close> leaks its handler: nothing closes the channel that the handler ranges over, so
  it never returns, also after the client has left.  A run has at most four steps, writes
  at most two messages, and is stuck for good once both are written and the client is gone; when the
  tunnel has no URL the goroutine panics instead, which ends the process.\<close>

theorem new_never_returns:
  assumes reach: "new_reach s"
  shows "ns_handler s = Ranging \<and> length (ns_lines s) \<le> 2
    \<and> (ns_sender s = Crashed \<or> ns_sender s = SenderDone \<and> ns_gone s \<longleftrightarrow> \<not> (\<exists>s1. new_step s s1))
    \<and> (\<forall>s1 n. (new_step ^^ n) s s1 \<longrightarrow> n \<le> 4)"
proof -
  have inv: "new_inv s" using reach by (rule new_reach_inv)
  have run: "new_reach s1 \<and> n + new_rank s1 \<le> new_rank s" if "(new_step ^^ n) s s1" for n s1
    using that
  proof (induction n arbitrary: s1)
    case (Suc n)
    then obtain s2 where s2: "(new_step ^^ n) s s2" "new_step s2 s1" by auto
    note ih = Suc.IH [OF s2(1)]
    show ?case using ih new_reach.step [OF _ s2(2)] new_step_rank [OF s2(2)] new_reach_inv [of s2] by fastforce
  qed (use reach in simp)
  have "new_rank s \<le> 4" by (simp add: new_rank_def split: sender_pc.split)
  then have "n \<le> 4" if "(new_step ^^ n) s s1" for n s1 using run [OF that] by simp
  moreover have "length (ns_lines s) \<le> 2" using inv by (auto simp: new_inv_def split: sender_pc.splits)
  ultimately show ?thesis using inv new_stuck [OF inv] by (auto simp: new_inv_def new_final_def)
qed

definition demo_new :: new_state where
  "demo_new = \<lparr>ns_sender = SenderDone, ns_handler = Ranging, ns_closed = False, ns_gone = True,
     ns_lines = [json_print (payload_json []), json_print (payload_json ''https://t'')]\<rparr>"

theorem new_never_returns_witness:
  "new_reach demo_new \<and> json_print (payload_json []) = ''{}'' \<and> \<not> (\<exists>s1. new_step demo_new s1)"
proof -
  let ?s1 = "new0\<lparr>ns_sender := Dialing, ns_lines := [json_print (payload_json [])]\<rparr>"
  let ?s2 = "?s1\<lparr>ns_sender := SendUrl ''https://t''\<rparr>"
  let ?s3 = "?s2\<lparr>ns_sender := SenderDone, ns_lines := [json_print (payload_json []), json_print (payload_json ''https://t'')]\<rparr>"
  have "new_step new0 ?s1" using new_step.first [of new0] by (simp add: new0_def)
  moreover have "new_step ?s1 ?s2" using new_step.dialed [of ?s1 "''https://t''"] by (simp add: new0_def)
  moreover have "new_step ?s2 ?s3" using new_step.second [of ?s2 "''https://t''"] by (simp add: new0_def)
  moreover have "new_step ?s3 demo_new" using new_step.leave [of ?s3] by (simp add: new0_def demo_new_def)
  ultimately have "new_reach demo_new" using new_reach.init new_reach.step by metis
  moreover have "json_print (payload_json []) = ''{}''" by code_simp
  ultimately show ?thesis using new_never_returns [of demo_new] by (simp add: demo_new_def)
qed

end
