(* ===== verification/Raft_Stream.thy ===== *)
theory Raft_Stream
  imports Go_Strings
begin

text \<open>
  The 206 handling of the raft peer stream (\<open>v0alpha0/stream/stream.go\<close>): the serve side
  (\<open>Handler\<close>), the dial side (\<open>accept206\<close>) and the swap of the transport's RoundTripper
  (\<open>Intercept\<close>) as a step relation in which the stream readers run beside it.  The path
  prefix \<open>rafthttp.RaftStreamPrefix\<close>, the wrapped handler and the wrapped RoundTripper are
  parameters.
\<close>

section \<open>Messages\<close>

text \<open>\<open>sr_accept\<close> is the header \<open>X-Libetcd-Stream\<close>; \<open>sr_rest\<close> is everything else.\<close>

record stream_request =
  sr_path :: string
  sr_accept :: string
  sr_rest :: string

record stream_response =
  sp_code :: nat
  sp_status :: string
  sp_body :: string

text \<open>What a handler does with its \<open>ResponseWriter\<close>.\<close>

datatype writer_call = WriteHeader nat | Write string | Flush

type_synonym stream_handler = "stream_request \<Rightarrow> writer_call list"

text \<open>\<open>net/http\<close>: the first header counts, a body or a flush before it sends 200.\<close>

fun written :: "writer_call list \<Rightarrow> nat" where
  "written [] = 200"
| "written (WriteHeader c # ws) = c"
| "written (Write b # ws) = 200"
| "written (Flush # ws) = 200"

fun body_of :: "writer_call list \<Rightarrow> string" where
  "body_of [] = []"
| "body_of (Write b # ws) = b @ body_of ws"
| "body_of (_ # ws) = body_of ws"

definition on_wire :: "(nat \<Rightarrow> string) \<Rightarrow> writer_call list \<Rightarrow> stream_response" where
  "on_wire text ws = \<lparr>sp_code = written ws, sp_status = text (written ws), sp_body = body_of ws\<rparr>"

section \<open>The two halves\<close>

definition accept_value :: string where
  "accept_value = ''206''"

definition rewrite_status :: "nat \<Rightarrow> nat" where
  "rewrite_status c = (if c = 200 then 206 else c)"

text \<open>\<open>statusRewriter\<close>: only an explicit header is rewritten; \<open>Write\<close> and \<open>Flush\<close> go to the
  wrapped writer.\<close>

fun status_rewriter :: "writer_call \<Rightarrow> writer_call" where
  "status_rewriter (WriteHeader c) = WriteHeader (rewrite_status c)"
| "status_rewriter w = w"

definition handler_206 :: "string \<Rightarrow> stream_handler \<Rightarrow> stream_handler" where
  "handler_206 pre inner q =
     (if has_prefix (sr_path q) pre \<and> sr_accept q = accept_value then map status_rewriter (inner q) else inner q)"

type_synonym round_tripper = "stream_request \<Rightarrow> string + stream_response option"

definition accept206 :: "string \<Rightarrow> round_tripper \<Rightarrow> round_tripper" where
  "accept206 pre inner req =
     (let r = (if has_prefix (sr_path req) pre then req\<lparr>sr_accept := accept_value\<rparr> else req) in
      case inner r of
        Inr (Some resp) \<Rightarrow>
          Inr (Some (if sp_code resp = 206 \<and> has_prefix (sr_path r) pre
                     then resp\<lparr>sp_code := 200, sp_status := ''200 OK''\<rparr> else resp))
      | x \<Rightarrow> x)"

text \<open>A dial that reaches a handler.\<close>

definition dial :: "(nat \<Rightarrow> string) \<Rightarrow> stream_handler \<Rightarrow> round_tripper" where
  "dial text h q = Inr (Some (on_wire text (h q)))"

lemma written_rewritten:
  "written (map status_rewriter ws) = (case ws of WriteHeader c # _ \<Rightarrow> rewrite_status c | _ \<Rightarrow> 200)"
  by (cases ws rule: written.cases) simp_all

lemma body_rewritten [simp]: "body_of (map status_rewriter ws) = body_of ws"
  by (induction ws rule: body_of.induct) simp_all

section \<open>Intercept\<close>

text \<open>The RoundTripper of the transport: stock, or wrapped.\<close>

datatype rt = Stock | Accept206 rt

subsection \<open>The way to the field\<close>

text \<open>
  What reflection meets: a field by its name (\<open>UnsafeAddr\<close> panics on one that is not addressable),
  and a value under a type assertion and a nil test.
\<close>

datatype 'v field = NoField | Unaddressable | Field 'v

datatype 'a asserted = OtherType | NilValue | Asserted 'a

text \<open>A panic, or the value if the field exists.\<close>

definition unexported_field :: "'v field \<Rightarrow> unit + 'v option" where
  "unexported_field f = (case f of NoField \<Rightarrow> Inr None | Unaddressable \<Rightarrow> Inl () | Field v \<Rightarrow> Inr (Some v))"

text \<open>
  \<open>streamRtField\<close>: the server's \<open>r\<close> with the field \<open>transport\<close> in it (\<open>None\<close> when there is no
  \<open>r\<close>: the lookup in the zero value panics), and \<open>streamRt\<close> of a transport.  A panic is recovered.
\<close>

definition stream_rt_field :: "'t asserted field option \<Rightarrow> ('t \<Rightarrow> rt asserted field) \<Rightarrow> (rt \<times> 't) option" where
  "stream_rt_field r stream_rt =
     (case map_option unexported_field r of
        Some (Inr (Some (Asserted t))) \<Rightarrow>
          (case unexported_field (stream_rt t) of
             Inr (Some (Asserted i)) \<Rightarrow> Some (i, t)
           | _ \<Rightarrow> None)
      | _ \<Rightarrow> None)"

text \<open>Every other layout skips the swap.\<close>

lemma stream_rt_field_Some:
  "stream_rt_field r stream_rt = Some (i, t) \<longleftrightarrow> r = Some (Field (Asserted t)) \<and> stream_rt t = Field (Asserted i)"
  by (auto simp: stream_rt_field_def unexported_field_def split: option.splits field.splits asserted.splits)

subsection \<open>The swap\<close>

text \<open>
  \<open>ic_live\<close> are the peers whose stream readers run, \<open>ic_reads\<close> the reads of \<open>streamRt\<close> so
  far (the reader and the value it saw), newest last.
\<close>

datatype ic_pc = Enter | Stopping "u64 list" | Quiet "u64 list" | Adding "u64 list" | Returned

record intercept_state =
  ic_pc :: ic_pc
  ic_rt :: rt
  ic_live :: "u64 list"
  ic_reads :: "(u64 \<times> rt) list"

definition is_wrapped :: "rt \<Rightarrow> bool" where
  "is_wrapped r = (case r of Accept206 _ \<Rightarrow> True | Stock \<Rightarrow> False)"

text \<open>The members that are transport peers now.\<close>

definition readd_peers :: "u64 \<Rightarrow> u64 list \<Rightarrow> u64 list \<Rightarrow> u64 list" where
  "readd_peers self members live = filter (\<lambda>m. m \<noteq> self \<and> m \<in> set live) members"

text \<open>
  One step: a reader of a live peer reads the field, or \<open>Intercept\<close> goes on.  \<open>reach\<close> says
  whether \<open>stream_rt_field\<close> reaches it.  \<open>RemoveAllPeers\<close> stops one reader
  after the other and returns when all have exited.
\<close>

inductive ic_step :: "bool \<Rightarrow> u64 \<Rightarrow> u64 list \<Rightarrow> intercept_state \<Rightarrow> intercept_state \<Rightarrow> bool"
  for reach :: bool and self :: u64 and members :: "u64 list"
where
  read: "p \<in> set (ic_live s) \<Longrightarrow> ic_step reach self members s (s\<lparr>ic_reads := ic_reads s @ [(p, ic_rt s)]\<rparr>)"
| skip: "ic_pc s = Enter \<Longrightarrow> \<not> reach \<or> is_wrapped (ic_rt s) \<Longrightarrow> ic_step reach self members s (s\<lparr>ic_pc := Returned\<rparr>)"
| capture: "ic_pc s = Enter \<Longrightarrow> reach \<Longrightarrow> \<not> is_wrapped (ic_rt s) \<Longrightarrow>
    ic_step reach self members s (s\<lparr>ic_pc := Stopping (readd_peers self members (ic_live s))\<rparr>)"
| stop: "ic_pc s = Stopping ms \<Longrightarrow> ic_live s = p # ps \<Longrightarrow> ic_step reach self members s (s\<lparr>ic_live := ps\<rparr>)"
| quiet: "ic_pc s = Stopping ms \<Longrightarrow> ic_live s = [] \<Longrightarrow> ic_step reach self members s (s\<lparr>ic_pc := Quiet ms\<rparr>)"
| swap: "ic_pc s = Quiet ms \<Longrightarrow>
    ic_step reach self members s (s\<lparr>ic_rt := Accept206 (ic_rt s), ic_pc := Adding ms\<rparr>)"
| add: "ic_pc s = Adding (m # ms) \<Longrightarrow> ic_step reach self members s (s\<lparr>ic_live := ic_live s @ [m], ic_pc := Adding ms\<rparr>)"
| finish: "ic_pc s = Adding [] \<Longrightarrow> ic_step reach self members s (s\<lparr>ic_pc := Returned\<rparr>)"

inductive ic_reach :: "bool \<Rightarrow> u64 \<Rightarrow> u64 list \<Rightarrow> intercept_state \<Rightarrow> intercept_state \<Rightarrow> bool"
  for reach :: bool and self :: u64 and members :: "u64 list" and s0 :: intercept_state
where
  here: "ic_reach reach self members s0 s0"
| on: "ic_reach reach self members s0 s \<Longrightarrow> ic_step reach self members s s1 \<Longrightarrow> ic_reach reach self members s0 s1"

inductive_cases ic_stepE: "ic_step reach self members s s1"

text \<open>\<open>Intercept\<close> as a function, without the readers.\<close>

definition intercept :: "bool \<Rightarrow> u64 \<Rightarrow> u64 list \<Rightarrow> rt \<times> u64 list \<Rightarrow> rt \<times> u64 list" where
  "intercept reach self members t =
     (case t of (r, live) \<Rightarrow>
        if \<not> reach \<or> is_wrapped r then (r, live) else (Accept206 r, readd_peers self members live))"

text \<open>\<open>Intercept\<close> of a server: the wrapped value and the peers, or \<open>None\<close> after the warning.\<close>

definition intercept_server ::
  "'t asserted field option \<Rightarrow> ('t \<Rightarrow> rt asserted field) \<Rightarrow> ('t \<Rightarrow> u64 list) \<Rightarrow> u64 \<Rightarrow> u64 list \<Rightarrow> (rt \<times> u64 list) option" where
  "intercept_server r stream_rt peers self members =
     (case stream_rt_field r stream_rt of
        None \<Rightarrow> None
      | Some (i, t) \<Rightarrow> Some (intercept True self members (i, peers t)))"

definition intercepted :: "bool \<Rightarrow> rt \<Rightarrow> bool" where
  "intercepted reach r \<longleftrightarrow> reach \<and> is_wrapped r"

text \<open>Once wrapped, a second call changes nothing; a server out of reach is never wrapped.\<close>

lemma intercept_idem: "intercept True self members (intercept True self members x) = intercept True self members x"
  by (cases x) (auto simp: intercept_def is_wrapped_def split: rt.splits)

lemma intercept_server_skips: "intercept_server r stream_rt peers self members = None \<longleftrightarrow> stream_rt_field r stream_rt = None"
  by (auto simp: intercept_server_def split: option.splits)

section \<open>The invariant\<close>

text \<open>Before the swap every read saw the old RoundTripper; nobody runs at the swap; after it
  the reads are those old ones followed by reads of the new one.\<close>

definition saw :: "(u64 \<times> rt) list \<Rightarrow> rt \<Rightarrow> rt \<Rightarrow> bool \<Rightarrow> (u64 \<times> rt) list \<Rightarrow> bool" where
  "saw base old new swapped rs \<longleftrightarrow>
     (\<exists>l1 l2. rs = base @ l1 @ l2 \<and> (\<forall>x\<in>set l1. snd x = old) \<and> (\<forall>x\<in>set l2. snd x = new) \<and> (\<not> swapped \<longrightarrow> l2 = []))"

lemma saw_simps:
  "saw base old new swapped base"
  "saw base old new False rs \<Longrightarrow> saw base old new swapped rs"
  "saw base old new False rs \<Longrightarrow> saw base old new swapped (rs @ [(p, old)])"
  "saw base old new True rs \<Longrightarrow> saw base old new True (rs @ [(p, new)])"
proof -
  show "saw base old new swapped base" by (simp add: saw_def)
  show "saw base old new False rs \<Longrightarrow> saw base old new swapped rs"
    unfolding saw_def by (elim exE conjE) (rule exI, rule exI [of _ "[]"], auto)
  show "saw base old new False rs \<Longrightarrow> saw base old new swapped (rs @ [(p, old)])"
    unfolding saw_def by (elim exE conjE) (rule exI, rule exI [of _ "[]"], auto)
  show "saw base old new True (rs @ [(p, new)])" if "saw base old new True rs"
  proof -
    note that
    then obtain l1 l2 where "rs = base @ l1 @ l2" "\<forall>x\<in>set l1. snd x = old" "\<forall>x\<in>set l2. snd x = new" unfolding saw_def by blast
    then show ?thesis unfolding saw_def by (intro exI [of _ l1] exI [of _ "l2 @ [(p, new)]"]) auto
  qed
qed

definition ic_inv :: "bool \<Rightarrow> u64 \<Rightarrow> u64 list \<Rightarrow> intercept_state \<Rightarrow> intercept_state \<Rightarrow> bool" where
  "ic_inv reach self members s0 s \<longleftrightarrow>
     (let old = ic_rt s0; new = Accept206 old; ms = readd_peers self members (ic_live s0);
          view = (\<lambda>swapped. saw (ic_reads s0) old new swapped (ic_reads s));
          swaps = (reach \<and> \<not> is_wrapped old)
      in case ic_pc s of
           Enter \<Rightarrow> ic_rt s = old \<and> ic_live s = ic_live s0 \<and> view False
         | Stopping k \<Rightarrow> ic_rt s = old \<and> k = ms \<and> view False \<and> swaps
         | Quiet k \<Rightarrow> ic_rt s = old \<and> k = ms \<and> ic_live s = [] \<and> view False \<and> swaps
         | Adding k \<Rightarrow> ic_rt s = new \<and> ic_live s @ k = ms \<and> view True \<and> swaps
         | Returned \<Rightarrow> (ic_rt s, ic_live s) = intercept reach self members (old, ic_live s0) \<and> view swaps)"

lemma ic_inv_init: "ic_pc s0 = Enter \<Longrightarrow> ic_inv reach self members s0 s0"
  by (simp add: ic_inv_def saw_simps)

lemma ic_inv_step:
  assumes "ic_step reach self members s s1" "ic_inv reach self members s0 s"
  shows "ic_inv reach self members s0 s1"
  using assms
proof (induction rule: ic_step.induct)
  case (read p s)
  then show ?case
    by (cases "ic_pc s") (auto simp: ic_inv_def Let_def intercept_def intro: saw_simps(3,4) split: if_splits)
qed (auto simp: ic_inv_def Let_def intercept_def intro: saw_simps(2))

lemma ic_reach_inv: "ic_reach reach self members s0 s \<Longrightarrow> ic_pc s0 = Enter \<Longrightarrow> ic_inv reach self members s0 s"
  by (induction rule: ic_reach.induct) (auto intro: ic_inv_init ic_inv_step)

section \<open>The call returns\<close>

definition ic_todo :: "u64 list \<Rightarrow> intercept_state \<Rightarrow> nat" where
  "ic_todo members s =
     (case ic_pc s of
        Enter \<Rightarrow> 4 + length (ic_live s) + length members
      | Stopping k \<Rightarrow> 3 + length (ic_live s) + length k
      | Quiet k \<Rightarrow> 2 + length k
      | Adding k \<Rightarrow> 1 + length k
      | Returned \<Rightarrow> 0)"

lemma ic_progress:
  assumes "ic_pc s \<noteq> Returned"
  shows "\<exists>s1. ic_step reach self members s s1 \<and> ic_reads s1 = ic_reads s \<and> ic_todo members s1 < ic_todo members s"
proof (cases "ic_pc s")
  case Enter
  have "length (readd_peers self members (ic_live s)) \<le> length members" by (simp add: readd_peers_def)
  then have len: "ic_todo members (s\<lparr>ic_pc := Stopping (readd_peers self members (ic_live s))\<rparr>) < ic_todo members s"
    using Enter by (simp add: ic_todo_def)
  show ?thesis
  proof (cases "reach \<and> \<not> is_wrapped (ic_rt s)")
    case True
    then show ?thesis using capture [of s reach self members] Enter len by force
  next
    case False
    then show ?thesis using skip [of s reach self members] Enter by (force simp: ic_todo_def)
  qed
next
  case (Stopping ms)
  then show ?thesis
    using stop [of s ms _ _ reach self members] quiet [of s ms reach self members]
    by (cases "ic_live s") (force simp: ic_todo_def)+
next
  case (Quiet ms)
  then show ?thesis using swap [of s ms reach self members] by (force simp: ic_todo_def)
next
  case (Adding ms)
  then show ?thesis
    using add [of s _ _ reach self members] finish [of s reach self members]
    by (cases ms) (force simp: ic_todo_def)+
qed (use assms in simp)

lemma ic_reach_trans: "ic_reach reach self members s1 s2 \<Longrightarrow> ic_reach reach self members s0 s1 \<Longrightarrow> ic_reach reach self members s0 s2"
  by (induction rule: ic_reach.induct) (auto intro: on)

lemma ic_returns: "\<exists>s1. ic_reach reach self members s s1 \<and> ic_pc s1 = Returned \<and> ic_reads s1 = ic_reads s"
proof (induction "ic_todo members s" arbitrary: s rule: less_induct)
  case less
  show ?case
  proof (cases "ic_pc s = Returned")
    case True
    then show ?thesis using here by blast
  next
    case False
    then obtain s1 where s1: "ic_step reach self members s s1" "ic_reads s1 = ic_reads s" "ic_todo members s1 < ic_todo members s"
      using ic_progress by blast
    then show ?thesis using less [OF s1(3)] ic_reach_trans on [OF here s1(1)] by metis
  qed
qed

section \<open>Properties\<close>



lemma readd_all: "set live \<subseteq> set members - {self} \<Longrightarrow> set (readd_peers self members live) = set live"
  by (auto simp: readd_peers_def)

text \<open>C0. The swap of the RoundTripper is free of a race: whatever the stream readers do
  beside \<open>Intercept\<close>, none runs when the field is written; every read is of the old value
  before and of the wrapped one after; the call can always return, and then the transport is
  wrapped exactly once (or untouched when it was wrapped or out of reach) and the same
  members are peers as before.\<close>

theorem intercept_race_free:
  assumes "ic_reach reach self members s0 s" "ic_pc s0 = Enter"
  shows "(\<forall>ms. ic_pc s = Quiet ms \<longrightarrow> ic_live s = [])
    \<and> (\<exists>l1 l2. ic_reads s = ic_reads s0 @ l1 @ l2 \<and> (\<forall>x\<in>set l1. snd x = ic_rt s0) \<and> (\<forall>x\<in>set l2. snd x = Accept206 (ic_rt s0))
         \<and> (\<not> reach \<or> is_wrapped (ic_rt s0) \<longrightarrow> l2 = []))
    \<and> (\<exists>s1. ic_reach reach self members s s1 \<and> ic_pc s1 = Returned \<and> ic_reads s1 = ic_reads s)
    \<and> (ic_pc s = Returned \<longrightarrow> (ic_rt s, ic_live s) = intercept reach self members (ic_rt s0, ic_live s0)
         \<and> intercepted reach (ic_rt s) = reach
         \<and> (set (ic_live s0) \<subseteq> set members - {self} \<longrightarrow> set (ic_live s) = set (ic_live s0)))"
proof -
  note i = ic_reach_inv [OF assms]
  have "\<exists>sw. saw (ic_reads s0) (ic_rt s0) (Accept206 (ic_rt s0)) sw (ic_reads s) \<and> (sw \<longrightarrow> reach \<and> \<not> is_wrapped (ic_rt s0))"
    using i by (cases "ic_pc s") (auto simp: ic_inv_def Let_def)
  then have r: "\<exists>l1 l2. ic_reads s = ic_reads s0 @ l1 @ l2 \<and> (\<forall>x\<in>set l1. snd x = ic_rt s0) \<and> (\<forall>x\<in>set l2. snd x = Accept206 (ic_rt s0))
         \<and> (\<not> reach \<or> is_wrapped (ic_rt s0) \<longrightarrow> l2 = [])" unfolding saw_def by metis
  have q: "\<forall>ms. ic_pc s = Quiet ms \<longrightarrow> ic_live s = []" using i by (auto simp: ic_inv_def Let_def)
  have t: "(ic_rt s, ic_live s) = intercept reach self members (ic_rt s0, ic_live s0)" if "ic_pc s = Returned"
    using i that by (simp add: ic_inv_def Let_def)
  then have "ic_pc s = Returned \<longrightarrow> (ic_rt s, ic_live s) = intercept reach self members (ic_rt s0, ic_live s0)
      \<and> intercepted reach (ic_rt s) = reach
      \<and> (set (ic_live s0) \<subseteq> set members - {self} \<longrightarrow> set (ic_live s) = set (ic_live s0))"
    using readd_all [of "ic_live s0" members self]
    by (cases "\<not> reach \<or> is_wrapped (ic_rt s0)") (auto simp: intercept_def intercepted_def is_wrapped_def)
  then show ?thesis using q r ic_returns by blast
qed

definition demo_ic :: intercept_state where
  "demo_ic = \<lparr>ic_pc = Enter, ic_rt = Stock, ic_live = [2, 3], ic_reads = []\<rparr>"

theorem intercept_race_free_witness:
  "\<exists>s1. ic_reach True 1 [1, 2, 3] demo_ic s1 \<and> ic_pc s1 = Returned \<and> ic_rt s1 = Accept206 Stock \<and> set (ic_live s1) = {2, 3}"
proof -
  have e: "ic_pc demo_ic = Enter" "ic_rt demo_ic = Stock" "set (ic_live demo_ic) \<subseteq> set [1, 2, 3] - {1}" "ic_live demo_ic = [2, 3]"
    by (simp_all add: demo_ic_def)
  obtain s1 where s1: "ic_reach True 1 [1, 2, 3] demo_ic s1" "ic_pc s1 = Returned" using ic_returns by blast
  from intercept_race_free [OF s1(1) e(1)] have "(ic_rt s1, ic_live s1) = intercept True 1 [1, 2, 3] (Stock, [2, 3])"
    "set (ic_live s1) = set (ic_live demo_ic)" using s1(2) e by simp_all
  then have "ic_rt s1 = Accept206 Stock" "set (ic_live s1) = {2, 3}"
    using e(4) by (simp_all add: intercept_def is_wrapped_def)
  then show ?thesis using s1 by blast
qed

end
