(* ===== verification/Offline_Init.thy ===== *)
theory Offline_Init
  imports Executor
begin

text \<open>
  The offline initialization of a data directory: \<open>Init\<close> with its validation of an existing
  directory (\<open>v0alpha0/server.go\<close>) and the command over it (\<open>cmd/etcdinit/main.go\<close>).  The
  bootstrap check, the derivation of member IDs, the backend, the consistency scan and the
  upstream \<open>Restore\<close> are parameters.
\<close>

section \<open>Parameters\<close>

record upstream_config =
  ur_snapshot :: string
  ur_name :: string
  ur_data_dir :: string
  ur_wal_dir :: string
  ur_peer_urls :: "string list"
  ur_cluster :: string
  ur_token :: string
  ur_skip_hash :: bool

text \<open>
  \<open>ia_verify\<close>: \<open>VerifyBootstrap\<close>; \<open>ia_member\<close>: \<open>NewClusterFromURLsMap\<close> and then the ID of
  \<open>MemberByName\<close>; \<open>ia_read\<close>: the name of a member in a backend database; \<open>ia_scan\<close>:
  \<open>verify.Verify\<close>, whose panics are \<open>None\<close>; \<open>ia_seed\<close>: the empty seed database;
  \<open>ia_restore\<close>: the \<open>Restore\<close> of \<open>etcdutl\<close>.
\<close>

record init_api =
  ia_verify :: "server_config option \<Rightarrow> string option"
  ia_member :: "string \<Rightarrow> urls_map \<Rightarrow> string \<Rightarrow> string + u64 option"
  ia_read :: "fs_node \<Rightarrow> u64 \<Rightarrow> string option"
  ia_scan :: "string \<Rightarrow> fs \<Rightarrow> string option option"
  ia_seed :: "string + string"
  ia_restore :: "upstream_config \<Rightarrow> fs \<Rightarrow> string option \<times> fs"

datatype init_result = InitOk | InitErr string | InitPanic

section \<open>Validation\<close>

definition wal_path :: "string \<Rightarrow> string" where
  "wal_path d = sub_path d [''member'', ''wal'']"

definition verify_data_dir :: "init_api \<Rightarrow> string \<Rightarrow> fs \<Rightarrow> string option" where
  "verify_data_dir ia d f = (case ia_scan ia d f of None \<Rightarrow> Some ''panic'' | Some r \<Rightarrow> r)"

text \<open>A name without a member is a nil dereference.\<close>

definition validate_data_dir ::
  "init_api \<Rightarrow> string \<Rightarrow> string \<Rightarrow> string \<Rightarrow> urls_map \<Rightarrow> string \<Rightarrow> fs \<Rightarrow> init_result" where
  "validate_data_dir ia nm d wd ics token f =
     (case ia_member ia token ics nm of
        Inl e \<Rightarrow> InitErr e
      | Inr expected \<Rightarrow>
          if \<not> fs_exists (db_path d) f then InitErr ''not empty and has no backend database''
          else if \<not> fs_exists wd f \<or> fs_dir_empty wd f then InitErr ''not empty and has no WAL directory''
          else
            (case (expected, map_of f (db_path d)) of
               (Some i, Some db) \<Rightarrow>
                 (case ia_read ia db i of
                    None \<Rightarrow> InitErr ''initialized with a different initial cluster, cluster token or peer URLs''
                  | Some found \<Rightarrow>
                      if found \<noteq> [] \<and> found \<noteq> nm then InitErr ''belongs to a different member''
                      else if wd \<noteq> wal_path d then InitOk
                      else
                        (case verify_data_dir ia d f of
                           Some e \<Rightarrow> InitErr (''failed consistency verification: '' @ e)
                         | None \<Rightarrow> InitOk))
             | _ \<Rightarrow> InitPanic))"

section \<open>Init\<close>

definition fs_remove_all :: "string \<Rightarrow> fs \<Rightarrow> fs" where
  "fs_remove_all d f = filter (\<lambda>e. fst e \<noteq> d \<and> \<not> under d (fst e)) f"

text \<open>The data directory: given, or a fresh one set with \<open>WithDir\<close>.\<close>

definition init_dir :: "embed_api \<Rightarrow> 'e host \<Rightarrow> node \<Rightarrow> 'e run \<Rightarrow> (string + node) \<times> 'e run" where
  "init_dir em ho b w =
     (if c_dir (n_cfg b) \<noteq> [] then (Inr b, w)
      else
        (case mktemp_run ho (c_name (n_cfg b) @ ''-'') w of
           (Inl e, w1) \<Rightarrow> (Inl (''create data dir: '' @ e), w1)
         | (Inr d, w1) \<Rightarrow> (Inr (with_dir em d b), w1)))"

definition init_fresh :: "'e host \<Rightarrow> init_api \<Rightarrow> config \<Rightarrow> string \<Rightarrow> 'e run \<Rightarrow> init_result \<times> 'e run" where
  "init_fresh ho ia c wd w =
     (case mktemp_run ho ''libetcd-init-'' w of
        (Inl e, w1) \<Rightarrow> (InitErr e, w1)
      | (Inr sd, w1) \<Rightarrow>
          (case ia_seed ia of
             Inl e \<Rightarrow> (InitErr e, w1\<lparr>r_fs := fs_remove_all sd (r_fs w1)\<rparr>)
           | Inr db \<Rightarrow>
               (case ia_restore ia
                       \<lparr>ur_snapshot = sub_path sd [''db''], ur_name = c_name c, ur_data_dir = c_dir c, ur_wal_dir = wd,
                        ur_peer_urls = map url_string (c_advertise_peer c), ur_cluster = c_initial_cluster c,
                        ur_token = c_cluster_token c, ur_skip_hash = True\<rparr>
                       (fs_put (sub_path sd [''db'']) (File db) (r_fs w1)) of
                  (r, f) \<Rightarrow>
                    (case r of None \<Rightarrow> InitOk | Some e \<Rightarrow> InitErr e, w1\<lparr>r_fs := fs_remove_all sd f\<rparr>))))"

definition init :: "embed_api \<Rightarrow> 'e host \<Rightarrow> init_api \<Rightarrow> node \<Rightarrow> 'e run \<Rightarrow> init_result \<times> node \<times> 'e run" where
  "init em ho ia b w =
     (case n_cause b of
        Some e \<Rightarrow> (InitErr e, b, w)
      | None \<Rightarrow>
          (case init_dir em ho b w of
             (Inl e, w1) \<Rightarrow> (InitErr e, b, w1)
           | (Inr b1, w1) \<Rightarrow>
               (case n_cause b1 of
                  Some e \<Rightarrow> (InitErr e, b1, w1)
                | None \<Rightarrow>
                    (let c = n_cfg b1; d = c_dir c; wd = (if c_wal_dir c = [] then wal_path d else c_wal_dir c) in
                     case ia_verify ia (n_srvcfg b1) of
                       Some e \<Rightarrow> (InitErr e, b1, w1)
                     | None \<Rightarrow>
                         if fs_exists d (r_fs w1) \<and> \<not> fs_dir_empty d (r_fs w1) then
                           (validate_data_dir ia (c_name c) d wd
                              (case n_srvcfg b1 of Some s \<Rightarrow> sc_urls_map s | None \<Rightarrow> []) (c_cluster_token c) (r_fs w1), b1, w1)
                         else (case init_fresh ho ia c wd w1 of (r, w2) \<Rightarrow> (r, b1, w2))))))"

section \<open>The command\<close>

definition initial_cluster_from_name :: "string \<Rightarrow> string" where
  "initial_cluster_from_name nm = (if nm = [] then ''default'' else nm) @ ''=http://localhost:2380''"

definition default_data_dir :: "string \<Rightarrow> string" where
  "default_data_dir nm = nm @ ''.etcd''"

definition run_init ::
  "embed_api \<Rightarrow> config \<Rightarrow> string \<Rightarrow> string \<Rightarrow> string \<Rightarrow> 'e host \<Rightarrow> init_api
   \<Rightarrow> string \<Rightarrow> string \<Rightarrow> string \<Rightarrow> string \<Rightarrow> string \<Rightarrow> 'e run \<Rightarrow> init_result \<times> node \<times> 'e run" where
  "run_init em base gen env_token env_dir ho ia nm dir clu tok peer_urls w =
     (let d = (if dir = [] then default_data_dir nm else dir) in
      init em ho ia
        (with_initial_cluster em clu
          (with_peer_listener em None (split_on (CHR '','') peer_urls)
            (with_log em ''info'' False
              (with_cluster_token em tok
                (with_dir em d
                  (with_name em nm (new_impl em base gen env_token env_dir))))))) w)"

section \<open>Property\<close>

text \<open>A member that \<open>validate_data_dir\<close> accepts.\<close>

definition dir_of_member :: "init_api \<Rightarrow> string \<Rightarrow> string \<Rightarrow> string \<Rightarrow> urls_map \<Rightarrow> string \<Rightarrow> fs \<Rightarrow> bool" where
  "dir_of_member ia nm d wd ics token f \<longleftrightarrow>
     (\<exists>i db found. ia_member ia token ics nm = Inr (Some i) \<and> map_of f (db_path d) = Some db
        \<and> fs_exists wd f \<and> \<not> fs_dir_empty wd f
        \<and> ia_read ia db i = Some found \<and> (found = [] \<or> found = nm)
        \<and> (wd = wal_path d \<longrightarrow> ia_scan ia d f = Some None))"

lemma validate_ok:
  "validate_data_dir ia nm d wd ics token f = InitOk \<longleftrightarrow> dir_of_member ia nm d wd ics token f"
proof -
  have "fs_exists p f" if "map_of f p = Some x" for p x using that by (simp add: fs_exists_def)
  then show ?thesis
    by (auto simp: validate_data_dir_def dir_of_member_def verify_data_dir_def split: sum.splits option.splits)
qed

lemma init_existing:
  assumes "n_cause b = None" "c_dir (n_cfg b) = d" "d \<noteq> []" "\<not> fs_dir_empty d (r_fs w)" "n_srvcfg b = Some s"
    and "wd = (if c_wal_dir (n_cfg b) = [] then wal_path d else c_wal_dir (n_cfg b))"
  shows "init em ho ia b w =
    (case ia_verify ia (Some s) of
       Some e \<Rightarrow> (InitErr e, b, w)
     | None \<Rightarrow> (validate_data_dir ia (c_name (n_cfg b)) d wd (sc_urls_map s) (c_cluster_token (n_cfg b)) (r_fs w), b, w))"
proof -
  have "fs_exists d (r_fs w)" using assms(4) by (simp add: fs_exists_def fs_dir_empty_def)
  then show ?thesis using assms by (simp add: init_def init_dir_def Let_def split: option.split)
qed


text \<open>A restore that creates the database and one WAL segment, and a backend that names its member.\<close>

definition demo_init :: init_api where
  "demo_init = \<lparr>ia_verify = (\<lambda>s. None), ia_member = (\<lambda>t ics nm. Inr (Some 9)),
     ia_read = (\<lambda>db i. case db of File nm \<Rightarrow> if i = 9 then Some nm else None | _ \<Rightarrow> None),
     ia_scan = (\<lambda>d f. Some None), ia_seed = Inr [],
     ia_restore = (\<lambda>u f. (None, fs_put (db_path (ur_data_dir u)) (File (ur_name u)) (fs_put (ur_wal_dir u @ ''/0.wal'') (File []) f)))\<rparr>"

definition demo_dir_node :: node where
  "demo_dir_node = with_dir demo_embed ''/d'' demo_node"


end
