(* ===== verification/Entry_Points.thy ===== *)
theory Entry_Points
  imports Join_Discovery Offline_Init Disco_Service
begin

text \<open>
  Where the programs and the handles start: the setters of the join handle (\<open>v0alpha0/peer.go\<close>),
  generated names (\<open>util.go\<close>), the REST gateway (\<open>gateway.go\<close>), the
  seed database of an offline \<open>Init\<close> (\<open>server.go\<close>), the \<open>etcdinit\<close> command, and
  the signing key of the discovery service (\<open>issuer.go\<close>, \<open>ws.go\<close>) with its listen address.
\<close>

section \<open>The join handle\<close>

text \<open>\<open>From\<close> hands out the setters of the builder, each on the embedded node.\<close>

definition handle_set :: "embed_api \<Rightarrow> setting \<Rightarrow> handle \<Rightarrow> handle" where
  "handle_set em s h = h\<lparr>h_node := apply_setting em s (h_node h)\<rparr>"

definition handle_configure :: "embed_api \<Rightarrow> setting list \<Rightarrow> handle \<Rightarrow> handle" where
  "handle_configure em ss h = fold (handle_set em) ss h"

lemma handle_configure_node:
  "handle_configure em ss h = h\<lparr>h_node := configure em ss (h_node h)\<rparr>"
  by (induction ss arbitrary: h) (simp_all add: handle_configure_def handle_set_def)

section \<open>Names\<close>

text \<open>Two random bytes, or zero when there are none.\<close>

definition rand_uint16 :: "(8 word \<times> 8 word) option \<Rightarrow> nat" where
  "rand_uint16 r = (case r of Some (a, b) \<Rightarrow> 256 * unat a + unat b | None \<Rightarrow> 0)"

fun hex_nat :: "nat \<Rightarrow> string" where
  "hex_nat n = (if n < 16 then [lower_hex n] else hex_nat (n div 16) @ [lower_hex (n mod 16)])"

declare hex_nat.simps [simp del]

definition default_name :: "u64 \<Rightarrow> string" where
  "default_name i = ''node-'' @ hex_nat (unat i)"

section \<open>The REST gateway\<close>

definition gateway_services :: "string list" where
  "gateway_services = [''KV'', ''Watch'', ''Lease'', ''Cluster'', ''Maintenance'', ''Auth'', ''Lock'', ''Election'']"

fun register_all :: "(string \<Rightarrow> string option) \<Rightarrow> string list \<Rightarrow> string option" where
  "register_all reg [] = None"
| "register_all reg (s # ss) = (case reg s of Some e \<Rightarrow> Some e | None \<Rightarrow> register_all reg ss)"

text \<open>The mux or the error, and whether a connection is left open.\<close>

definition gateway_mux :: "(string \<Rightarrow> string option) \<Rightarrow> (string \<Rightarrow> string option) \<Rightarrow> string \<Rightarrow> (string + unit) \<times> bool" where
  "gateway_mux dial reg target =
     (case dial target of
        Some e \<Rightarrow> (Inl e, False)
      | None \<Rightarrow>
          (case register_all reg gateway_services of
             Some e \<Rightarrow> (Inl e, False)
           | None \<Rightarrow> (Inr (), True)))"

lemma gateway_mux_open: "snd (gateway_mux dial reg t) \<longleftrightarrow> fst (gateway_mux dial reg t) = Inr ()"
  by (auto simp: gateway_mux_def split: option.splits)

section \<open>The empty seed database\<close>

text \<open>\<open>go-semver\<close>: a version with its pre-release and its metadata.\<close>

record semver =
  sv_major :: nat
  sv_minor :: nat
  sv_patch :: nat
  sv_pre :: string
  sv_meta :: string

text \<open>
  \<open>initWriteEmptySeedDB\<close> over the backend of etcd: \<open>mk\<close> creates a bucket and \<open>stamp\<close> sets the
  storage version, on the database \<open>db\<close> that a backend opens at a fresh path.  A malformed
  version of the binary panics (\<open>None\<close>); nothing else fails.
\<close>

definition write_empty_seed_db ::
  "(string \<Rightarrow> 'd \<Rightarrow> 'd) \<Rightarrow> (semver \<Rightarrow> 'd \<Rightarrow> 'd) \<Rightarrow> string list \<Rightarrow> semver option \<Rightarrow> 'd \<Rightarrow> 'd option" where
  "write_empty_seed_db mk stamp buckets binary db =
     (case binary of
        None \<Rightarrow> None
      | Some v \<Rightarrow>
          Some (stamp \<lparr>sv_major = sv_major v, sv_minor = sv_minor v, sv_patch = 0, sv_pre = [], sv_meta = []\<rparr>
            (fold mk buckets db)))"

text \<open>Binaries of one minor release write the same seed.\<close>

lemma seed_db_minor:
  "sv_major v = sv_major v1 \<Longrightarrow> sv_minor v = sv_minor v1 \<Longrightarrow>
     write_empty_seed_db mk stamp buckets (Some v) db = write_empty_seed_db mk stamp buckets (Some v1) db"
  by (simp add: write_empty_seed_db_def)

section \<open>The etcdinit command\<close>

record init_flags =
  if_data_dir :: string
  if_cluster :: string
  if_token :: string
  if_peer_urls :: string
  if_name :: string

definition default_flags :: init_flags where
  "default_flags =
     \<lparr>if_data_dir = [], if_cluster = initial_cluster_from_name ''default'', if_token = ''etcd-cluster'',
      if_peer_urls = ''http://localhost:2380'', if_name = ''default''\<rparr>"

datatype init_exit = ExitOk | ExitBadArgs | ExitError string | ExitPanic

definition init_command ::
  "embed_api \<Rightarrow> config \<Rightarrow> string \<Rightarrow> string \<Rightarrow> string \<Rightarrow> 'e host \<Rightarrow> init_api \<Rightarrow> string list \<Rightarrow> init_flags \<Rightarrow> 'e run \<Rightarrow> init_exit \<times> 'e run" where
  "init_command em base gen env_token env_dir ho ia args fl w =
     (if args \<noteq> [] then (ExitBadArgs, w)
      else
        (case run_init em base gen env_token env_dir ho ia (if_name fl) (if_data_dir fl) (if_cluster fl) (if_token fl) (if_peer_urls fl) w of
           (r, b, w1) \<Rightarrow> (case r of InitOk \<Rightarrow> ExitOk | InitErr e \<Rightarrow> ExitError e | InitPanic \<Rightarrow> ExitPanic, w1)))"

section \<open>The signing key\<close>

text \<open>
  \<open>crypto/rsa\<close>, \<open>crypto/x509\<close> and \<open>go-jose\<close>: a generated key; the block of a PEM text; the two
  parsers (a PKCS8 key that is not RSA is \<open>Inr None\<close>); the thumbprint of a public key; a signer
  for a key under a key ID; the public JWK.
\<close>

record 'k key_api =
  ka_generate :: "string + 'k"
  ka_pem :: "string \<Rightarrow> string option"
  ka_pkcs1 :: "string \<Rightarrow> 'k option"
  ka_pkcs8 :: "string \<Rightarrow> string + 'k option"
  ka_thumbprint :: "'k \<Rightarrow> string + string"
  ka_signer :: "'k \<Rightarrow> string \<Rightarrow> string + signer"
  ka_jwk :: "'k \<Rightarrow> string \<Rightarrow> json"

text \<open>The key of \<open>DISCO_SIGNING_KEY\<close>, and whether it is ephemeral.\<close>

definition key_from_env :: "'k key_api \<Rightarrow> string \<Rightarrow> string + 'k \<times> bool" where
  "key_from_env ka raw =
     (if raw = [] then
        (case ka_generate ka of
           Inl e \<Rightarrow> Inl (''issuer: generate ephemeral key: '' @ e)
         | Inr k \<Rightarrow> Inr (k, True))
      else
        (case ka_pem ka raw of
           None \<Rightarrow> Inl ''issuer: DISCO_SIGNING_KEY is not valid PEM''
         | Some block \<Rightarrow>
             (case ka_pkcs1 ka block of
                Some k \<Rightarrow> Inr (k, False)
              | None \<Rightarrow>
                  (case ka_pkcs8 ka block of
                     Inl e \<Rightarrow> Inl (''issuer: parse DISCO_SIGNING_KEY: '' @ e)
                   | Inr None \<Rightarrow> Inl ''issuer: DISCO_SIGNING_KEY is not RSA''
                   | Inr (Some k) \<Rightarrow> Inr (k, False)))))"

definition new_issuer :: "'k key_api \<Rightarrow> string \<Rightarrow> 'k \<Rightarrow> nat \<Rightarrow> string + token_issuer \<times> signer" where
  "new_issuer ka url k ttl =
     (case ka_thumbprint ka k of
        Inl e \<Rightarrow> Inl (''issuer: key thumbprint: '' @ e)
      | Inr tp \<Rightarrow>
          (case ka_signer ka k (hex_encode tp) of
             Inl e \<Rightarrow> Inl (''issuer: signer: '' @ e)
           | Inr sg \<Rightarrow> Inr (\<lparr>is_url = url, is_ttl = ttl, is_jwk = ka_jwk ka k (hex_encode tp)\<rparr>, sg)))"

text \<open>\<open>WithSelfIssuer\<close> from the environment; an error ends the program.\<close>

definition self_issuer_from_env ::
  "'k key_api \<Rightarrow> string \<Rightarrow> string \<Rightarrow> ('v, 'e) service \<Rightarrow> string + ('v, 'e) service \<times> signer" where
  "self_issuer_from_env ka env_key env_url s =
     (case key_from_env ka env_key of
        Inl e \<Rightarrow> Inl (''disco: signing key: '' @ e)
      | Inr (k, _) \<Rightarrow>
          (let url = (if env_url = [] then default_issuer_url else env_url) in
           case new_issuer ka url k 3600 of
             Inl e \<Rightarrow> Inl (''disco: issuer: '' @ e)
           | Inr (iss, sg) \<Rightarrow> Inr (with_self_issuer env_url (is_jwk iss) s, sg)))"

text \<open>The start of \<open>main\<close>: the service and its signer, or the fatal message.\<close>

definition disco_start ::
  "'k key_api \<Rightarrow> string \<Rightarrow> string \<Rightarrow> string \<Rightarrow> string \<Rightarrow> 'e kv_http \<Rightarrow> string + ('v, 'e) service \<times> signer" where
  "disco_start ka bucket secret env_key env_url hc =
     self_issuer_from_env ka env_key env_url
       (with_issuer default_issuer_url
         (with_issuer ''https://token.actions.githubusercontent.com''
           (new_service (case kvdb_new bucket secret of Inl _ \<Rightarrow> None | Inr c \<Rightarrow> Some (kvdb_store c hc)))))"

definition listen_address :: "string \<Rightarrow> string" where
  "listen_address p = '':'' @ (if p = [] then ''8080'' else p)"

text \<open>A started service is \<open>disco_service\<close> with the published half of its key.\<close>

lemma disco_start_service:
  "disco_start ka bucket secret env_key env_url hc = Inr (s, sg) \<Longrightarrow>
     \<exists>k tp eph. key_from_env ka env_key = Inr (k, eph) \<and> ka_thumbprint ka k = Inr tp
       \<and> s = disco_service bucket secret env_url (ka_jwk ka k (hex_encode tp)) hc \<and> ka_signer ka k (hex_encode tp) = Inr sg"
  by (auto simp: disco_start_def self_issuer_from_env_def new_issuer_def disco_service_def Let_def split: sum.splits)

text \<open>With a key in the environment a restart publishes the same key and signs alike, whatever the
  generator yields; a bad key stops the program.\<close>

lemma restart_same_key:
  assumes "env_key \<noteq> []" "disco_start ka bucket secret env_key env_url hc = Inr (s, sg)"
    and "disco_start (ka\<lparr>ka_generate := g\<rparr>) bucket secret env_key env_url hc = Inr (s1, sg1)"
  shows "s1 = s \<and> sg1 = sg"
  using assms
  by (auto simp: disco_start_def self_issuer_from_env_def new_issuer_def key_from_env_def Let_def
      split: sum.splits option.splits if_splits)

end
