(* ===== verification/Node_Views.thy ===== *)
theory Node_Views
  imports Executor Join_Server
begin

text \<open>
  What a node hands out: the networked clients and the URL lists of \<open>v0alpha0/client.go\<close>, the
  handlers of \<open>v0alpha0/server.go\<close> and \<open>gateway.go\<close>, and the cluster lock of \<open>lock/lock.go\<close>.
\<close>

section \<open>Clients and URL lists\<close>

text \<open>
  The in-process client: \<open>lb_members\<close> is \<open>MemberList\<close>, \<open>lb_status\<close> the leader of \<open>Status\<close>,
  both within the five seconds of their context; \<open>lb_dial\<close> is \<open>clientv3.New\<close> over endpoints.
\<close>

record 'e loopback =
  lb_members :: "'e \<Rightarrow> (string + etcd_member list) \<times> 'e"
  lb_status :: "'e \<Rightarrow> (string + u64) \<times> 'e"
  lb_dial :: "string list \<Rightarrow> string option"

definition lb_call :: "('e \<Rightarrow> 'r \<times> 'e) \<Rightarrow> 'e run \<Rightarrow> 'r \<times> 'e run" where
  "lb_call f w = (case f (r_env w) of (r, e) \<Rightarrow> (r, w\<lparr>r_env := e\<rparr>))"

definition urls_to_endpoints :: "url list \<Rightarrow> string list" where
  "urls_to_endpoints us = map url_string us"

definition endpoints :: "node \<Rightarrow> string list" where
  "endpoints b = urls_to_endpoints (c_advertise_client (n_cfg b))"

definition leader_urls :: "etcd_member list \<Rightarrow> u64 \<Rightarrow> string list" where
  "leader_urls ms i = (case find (\<lambda>m. em_id m = i) ms of Some m \<Rightarrow> em_client_urls m | None \<Rightarrow> [])"

definition voter_urls :: "etcd_member list \<Rightarrow> string list" where
  "voter_urls ms = concat (map em_client_urls (filter (\<lambda>m. \<not> em_learner m) ms))"

text \<open>A networked client is the list of the endpoints it dials.\<close>

definition leader_client ::
  "embed_api \<Rightarrow> 'e host \<Rightarrow> 'e loopback \<Rightarrow> node \<Rightarrow> 'e run \<Rightarrow> string list option \<times> node \<times> 'e run" where
  "leader_client em ho lb b w =
     (case self_client em ho b w of
        (False, b1, w1) \<Rightarrow> (None, b1, w1)
      | (True, b1, w1) \<Rightarrow>
          (case lb_call (lb_members lb) w1 of
             (Inl _, w2) \<Rightarrow> (None, b1, w2)
           | (Inr ms, w2) \<Rightarrow>
               (case lb_call (lb_status lb) w2 of
                  (Inl _, w3) \<Rightarrow> (None, b1, w3)
                | (Inr i, w3) \<Rightarrow>
                    (let us = leader_urls ms i in
                     (if us = [] \<or> lb_dial lb us \<noteq> None then None else Some us, b1, w3)))))"

definition client ::
  "embed_api \<Rightarrow> 'e host \<Rightarrow> 'e loopback \<Rightarrow> node \<Rightarrow> 'e run \<Rightarrow> string list option \<times> node \<times> 'e run" where
  "client em ho lb b w =
     (if n_cause b \<noteq> None then (None, b, w)
      else
        (let own = endpoints b in
         case (case self_client em ho b w of
                 (False, b1, w1) \<Rightarrow> (own, b1, w1)
               | (True, b1, w1) \<Rightarrow>
                   (case lb_call (lb_members lb) w1 of
                      (Inl _, w2) \<Rightarrow> (own, b1, w2)
                    | (Inr ms, w2) \<Rightarrow> (if voter_urls ms \<noteq> [] then voter_urls ms else own, b1, w2))) of
           (eps, b1, w1) \<Rightarrow>
             if eps = [] then (None, b1, w1)
             else
               (case lb_dial lb eps of
                  Some e \<Rightarrow> (None, latch (''dial client: '' @ e) b1, w1)
                | None \<Rightarrow> (Some eps, b1, w1))))"

definition peers :: "embed_api \<Rightarrow> 'e host \<Rightarrow> 'e loopback \<Rightarrow> node \<Rightarrow> 'e run \<Rightarrow> string list option \<times> node \<times> 'e run" where
  "peers em ho lb b w =
     (case self_client em ho b w of
        (False, b1, w1) \<Rightarrow> (None, b1, w1)
      | (True, b1, w1) \<Rightarrow>
          (case lb_call (lb_members lb) w1 of
             (Inl _, w2) \<Rightarrow> (None, b1, w2)
           | (Inr ms, w2) \<Rightarrow> (Some (concat (map em_peer_urls ms)), b1, w2)))"

lemma voter_urls_iff: "u \<in> set (voter_urls ms) \<longleftrightarrow> (\<exists>m \<in> set ms. \<not> em_learner m \<and> u \<in> set (em_client_urls m))"
  by (auto simp: voter_urls_def)

lemma leader_urls_member:
  "u \<in> set (leader_urls ms i) \<Longrightarrow> \<exists>m \<in> set ms. em_id m = i \<and> u \<in> set (em_client_urls m)"
  by (auto simp: leader_urls_def find_Some_iff dest!: sym [of "Some _"] split: option.splits) (metis nth_mem)

text \<open>A client dials voters only, or, when no voter is known to serve clients, the node itself.\<close>

lemma client_dials:
  assumes "client em ho lb b w = (Some eps, b1, w1)"
  shows "n_cause b = None \<and> eps \<noteq> [] \<and> lb_dial lb eps = None
    \<and> (eps = endpoints b \<or> (\<exists>v ms v1. lb_members lb v = (Inr ms, v1) \<and> eps = voter_urls ms))"
  using assms
  by (auto simp: client_def lb_call_def Let_def split: if_splits prod.splits sum.splits bool.splits option.splits)

section \<open>Handlers\<close>

definition is_grpc :: "nat \<Rightarrow> string \<Rightarrow> bool" where
  "is_grpc proto_major content_type \<longleftrightarrow> proto_major = 2 \<and> sublist ''application/grpc'' content_type"

text \<open>\<open>grpcHandlerFunc\<close> over the gRPC server and an optional fallback.\<close>

datatype target = ToGrpc | ToGateway

definition grpc_handler :: "bool \<Rightarrow> nat \<Rightarrow> string \<Rightarrow> target" where
  "grpc_handler fallback proto_major content_type =
     (if \<not> fallback \<or> is_grpc proto_major content_type then ToGrpc else ToGateway)"

text \<open>\<open>ClientHandler\<close>: the address its gateway dials, if it has one, and whether it speaks
  HTTP/2 over cleartext.  \<open>gw\<close> says whether \<open>gatewayMux\<close> succeeds for a target.\<close>

record client_handler =
  ch_gateway :: "string option"
  ch_h2c :: bool

definition mk_client_handler ::
  "embed_api \<Rightarrow> 'e host \<Rightarrow> (string \<Rightarrow> bool) \<Rightarrow> node \<Rightarrow> 'e run \<Rightarrow> client_handler option \<times> node \<times> 'e run" where
  "mk_client_handler em ho gw b w =
     (case grpc_server em ho b w of
        (False, b1, w1) \<Rightarrow> (None, b1, w1)
      | (True, b1, w1) \<Rightarrow>
          (Some (case n_client_lis b1 of
                   None \<Rightarrow> \<lparr>ch_gateway = None, ch_h2c = True\<rparr>
                 | Some l \<Rightarrow>
                     \<lparr>ch_gateway = (if \<not> lis_tls l \<and> gw (lis_addr l) then Some (lis_addr l) else None),
                      ch_h2c = \<not> lis_tls l\<rparr>), b1, w1))"

text \<open>The join resource that \<open>PeerHandler\<close> mounts for the minted server.\<close>

definition peer_join_server ::
  "node \<Rightarrow> 's etcd option \<Rightarrow> (string \<Rightarrow> string \<Rightarrow> (nat \<times> string) option) \<Rightarrow>
   ('s \<Rightarrow> string option \<times> 's) \<Rightarrow> ('s \<Rightarrow> string option \<times> 's) \<Rightarrow> 's server" where
  "peer_join_server b self get acquire release =
     \<lparr>srv_self = self, srv_token = c_cluster_token (n_cfg b), srv_userinfo = n_join_userinfo b,
      srv_userinfo_get = get, srv_acquire = acquire, srv_release = release\<rparr>"

definition peer_handler ::
  "embed_api \<Rightarrow> 'e host \<Rightarrow> 's etcd \<Rightarrow> (string \<Rightarrow> string \<Rightarrow> (nat \<times> string) option) \<Rightarrow>
   ('s \<Rightarrow> string option \<times> 's) \<Rightarrow> ('s \<Rightarrow> string option \<times> 's) \<Rightarrow> node \<Rightarrow> 'e run \<Rightarrow> 's server option \<times> node \<times> 'e run" where
  "peer_handler em ho self get acquire release b w =
     (case server em ho b w of
        (b1, w1) \<Rightarrow>
          (if n_minted b1 then Some (peer_join_server b1 (Some self) get acquire release) else None, b1, w1))"

text \<open>\<open>PeerPaths\<close> over the path constants of etcd.\<close>

definition peer_paths :: "string \<Rightarrow> string \<Rightarrow> string \<Rightarrow> string \<Rightarrow> string \<Rightarrow> string list" where
  "peer_paths raft lease lease_internal downgrade hash_kv =
     [raft, raft @ ''/'', ''/members'', ''/members/promote/'', lease, lease_internal, downgrade, hash_kv, ''/version'']
     @ [join_url_path]"

section \<open>The cluster lock\<close>

text \<open>
  The concurrency primitives of etcd: \<open>lk_session ttl\<close> opens a session, \<open>lk_lock\<close> and
  \<open>lk_unlock\<close> take a session and a key (the lock is bounded by the context of the caller, the
  unlock by a time limit), \<open>lk_close\<close> closes a session.
\<close>

record 'e lock_api =
  lk_session :: "nat \<Rightarrow> 'e \<Rightarrow> (string + u64) \<times> 'e"
  lk_lock :: "u64 \<Rightarrow> string \<Rightarrow> 'e \<Rightarrow> string option \<times> 'e"
  lk_unlock :: "u64 \<Rightarrow> string \<Rightarrow> int \<Rightarrow> 'e \<Rightarrow> string option \<times> 'e"
  lk_close :: "u64 \<Rightarrow> 'e \<Rightarrow> string option \<times> 'e"

datatype lock_failure = LockSession string | LockAcquire string

record held_lock =
  hl_session :: u64
  hl_key :: string

definition key_prefix :: string where
  "key_prefix = ''libetcd/lock/''"

definition session_ttl :: nat where
  "session_ttl = 30"

definition release_timeout :: int where
  "release_timeout = 5000"

definition acquire :: "'e lock_api \<Rightarrow> string \<Rightarrow> 'e \<Rightarrow> (lock_failure + held_lock) \<times> 'e" where
  "acquire lk nm e =
     (case lk_session lk session_ttl e of
        (Inl x, e1) \<Rightarrow> (Inl (LockSession x), e1)
      | (Inr i, e1) \<Rightarrow>
          (case lk_lock lk i (key_prefix @ nm) e1 of
             (Some x, e2) \<Rightarrow> (Inl (LockAcquire x), snd (lk_close lk i e2))
           | (None, e2) \<Rightarrow> (Inr \<lparr>hl_session = i, hl_key = key_prefix @ nm\<rparr>, e2)))"

definition release :: "'e lock_api \<Rightarrow> held_lock \<Rightarrow> 'e \<Rightarrow> string option \<times> 'e" where
  "release lk l e =
     (case lk_unlock lk (hl_session l) (hl_key l) release_timeout e of
        (u, e1) \<Rightarrow> (case lk_close lk (hl_session l) e1 of (s, e2) \<Rightarrow> (if u \<noteq> None then u else s, e2)))"

text \<open>The sessions of a state, as the client library keeps them: closing one leaves the others alone.\<close>

definition session_contract :: "'e lock_api \<Rightarrow> ('e \<Rightarrow> u64 set) \<Rightarrow> bool" where
  "session_contract lk open_of \<longleftrightarrow>
     (\<forall>t e i e1. lk_session lk t e = (Inr i, e1) \<longrightarrow> i \<notin> open_of e \<and> open_of e1 = insert i (open_of e))
     \<and> (\<forall>t e x e1. lk_session lk t e = (Inl x, e1) \<longrightarrow> open_of e1 = open_of e)
     \<and> (\<forall>i k e. open_of (snd (lk_lock lk i k e)) = open_of e)
     \<and> (\<forall>i k t e. open_of (snd (lk_unlock lk i k t e)) = open_of e)
     \<and> (\<forall>i e. open_of (snd (lk_close lk i e)) = open_of e - {i})"

text \<open>No session leaks: a failed acquisition leaves none open, a release closes its own.\<close>

lemma acquire_sessions:
  assumes c: "session_contract lk open_of" and run: "acquire lk nm e = (r, e1)"
  shows "case r of Inl _ \<Rightarrow> open_of e1 = open_of e
    | Inr l \<Rightarrow> hl_session l \<notin> open_of e \<and> open_of e1 = insert (hl_session l) (open_of e)"
proof (cases "lk_session lk session_ttl e")
  case (Pair x v)
  show ?thesis
  proof (cases x)
    case (Inl y)
    then show ?thesis using run Pair c by (auto simp: acquire_def session_contract_def)
  next
    case (Inr i)
    have o: "i \<notin> open_of e" "open_of v = insert i (open_of e)" using c Pair Inr by (auto simp: session_contract_def)
    obtain z v2 where l: "lk_lock lk i (key_prefix @ nm) v = (z, v2)" by force
    have "open_of (snd (lk_lock lk i (key_prefix @ nm) v)) = open_of v" "open_of (snd (lk_close lk i v2)) = open_of v2 - {i}"
      using c unfolding session_contract_def by blast+
    then show ?thesis using run Pair Inr l o by (auto simp: acquire_def split: option.splits)
  qed
qed

lemma release_sessions:
  assumes "session_contract lk open_of"
  shows "open_of (snd (release lk l e)) = open_of e - {hl_session l}"
proof -
  obtain u e1 where u: "lk_unlock lk (hl_session l) (hl_key l) release_timeout e = (u, e1)" by force
  obtain x e2 where x: "lk_close lk (hl_session l) e1 = (x, e2)" by force
  have "open_of (snd (lk_unlock lk (hl_session l) (hl_key l) release_timeout e)) = open_of e"
    "open_of (snd (lk_close lk (hl_session l) e1)) = open_of e1 - {hl_session l}"
    using assms unfolding session_contract_def by blast+
  then show ?thesis by (simp add: release_def u x)
qed

end
