(* ===== verification/Spec2Isabelle.thy ===== *)
theory Spec2Isabelle
  imports Keepalive Disco_Rendezvous Disco_Streams Raft_Stream Entry_Points Node_Views
begin

text \<open>
  Verification library of libetcd, an SDK that embeds an etcd server in a Go program and lets
  the nodes of a cluster find and join each other over their peer listeners.

  \<^bold>\<open>The program.\<close>  A node is built by chained setters (\<open>v0alpha0/builder.go\<close>, \<open>util.go\<close>),
  minted, started and stopped (\<open>server.go\<close>, \<open>executor.go\<close>, \<open>client.go\<close>), or it is handed a list
  of peers and joins their cluster (\<open>peer.go\<close>): it elects a bootstrapper from the list, or
  asks a peer over the join resource (\<open>join/join.go\<close>) to add it as a learner, restores the
  snapshot that the peer streams back (\<open>snapshot/snapshot.go\<close>), starts, is promoted, and confirms
  that it votes; a failure rolls everything back.  The single peer of a list may instead be a
  discovery service (\<open>discovery.go\<close>, \<open>cmd/disco\<close>) that keeps a claim and a roster per cluster
  identity in kvdb.io behind a JWT gate.  The raft stream between nodes answers 206 on the
  wire (\<open>stream/stream.go\<close>), joins are serialized by a cluster lock (\<open>lock/lock.go\<close>), and a
  data directory can be initialized offline (\<open>server.go\<close>, \<open>cmd/etcdinit\<close>).

  \<^bold>\<open>Theories.\<close>

  The Go library, as far as the sources use it: LE_Prelude (shared collections and list,
  map and word lemmas), Go_Strings (trimming, splitting, quoting, decimal and hexadecimal
  numbers), Go_Netip (literal addresses), Go_Url (\<open>net/url\<close>: parsing, printing and the escapes),
  Go_Json and Go_Json_Print (\<open>encoding/json\<close>: a parser on fuel, a printer, and the round trip
  between them), Go_Sha256, Go_Http (requests, form values, responses and their wire form).

  Peer lists: Peer_List is the election and the sanitizing of \<open>peer.go\<close> (\<open>sanitizePeers\<close>,
  \<open>canonicalPeerURL\<close>, \<open>bootstrapRole\<close>, \<open>removeSelf\<close>, the loopback tests).

  The join resource: Etcd_Client (the etcd client as a record of operations on a cluster
  state, and runs with a log of its calls), Demo_Cluster (a concrete cluster for witnesses),
  Join_Server and Join_Client (the two halves of \<open>join/join.go\<close>).

  The node: Snapshot (\<open>Restore\<close> over an abstract file system whose steps may each fail),
  Builder (the fields of \<open>EtcdImpl\<close> as the record \<open>node\<close>, every setter, the error latch, the derived
  configuration, the lazy listeners), Executor (\<open>Server\<close>, \<open>Start\<close>, \<open>Stop\<close> over a host of
  operations, on a clock, with an event log; and an abstract lifecycle that they refine),
  Node_Views (the networked clients, the handlers, the cluster lock), Offline_Init.

  The joiner: Discovery_Client (\<open>discovery.go\<close>), Join_Flow (\<open>peer.go\<close>: plan, add loop, seeding,
  promotion, confirmation, rollback, discovery), Join_Safety (guards, latches, rollback order,
  time bound, success), Join_Recovery (roles and retries), Join_Discovery (registration),
  Keepalive (the two goroutines that re-record the claim and the roster entry after it).

  The discovery service: Disco_Store (the interface of \<open>store.go\<close> as the locale
  \<open>namespaced_store\<close>, the client of \<open>kvdb.go\<close>, and its interpretation), Kvdb_Spec (the documented
  kvdb.io and an abstract store of claims and rosters that the client over it refines),
  Disco_Issuer (\<open>issuer.go\<close>), Disco_Service (\<open>ws.go\<close>: routes, gate, handlers), Disco_Trust (what
  a request may change, and tokens), Disco_Rendezvous (client and service together),
  Disco_Streams (the two tunnel streams of \<open>ws.go\<close>, whose goroutines are inductive step relations).

  Raft_Stream: both ends of the 206 rewrite, and the swap of the RoundTripper beside running
  stream readers as an inductive step relation, and the reflection walk that finds the field.

  Entry_Points: the setters of the join handle, generated names, the gateway (\<open>gateway.go\<close>), the
  contents of the seed database, the \<open>etcdinit\<close> command, and the start of the discovery service with its signing key.

  \<^bold>\<open>Conventions.\<close>  A Go error is the left of a sum or a text in an option; the error texts are kept
  up to the parts that libraries produce.  A nil pointer is \<open>None\<close>.  Integers that the code keeps at a
  width (member IDs, the length prefix of the wire prelude, SHA-256) are words.  A clock counts
  milliseconds, \<open>r_now\<close>; an operation of a parameter reports the time it took.  A string is a
  list of bytes.  The code that is not in the repository is an argument: the etcd server and
  client, embed, backend, WAL and consistency scan of etcd, the sockets, the HTTP transport,
  kvdb.io, and the JWT and OIDC libraries.  What a theorem needs of one of them is a named
  hypothesis, and its witness runs it on a concrete instance.

  \<^bold>\<open>Bounds.\<close>  The JSON parser takes fuel from the length of its input, and \<open>json_fuel_enough\<close> says
  that this suffices.  The retry loops (\<open>add_loop\<close>, \<open>retry_until\<close>, \<open>roster_wait\<close>, \<open>leave_loop\<close>) are
  total functions: each round adds at least one tick to the clock, and the measure is the time to the
  deadline.  A keepalive loop runs until its context ends, and its measure is the time to that end.  A wait for a server that never becomes ready without any deadline is the value
  \<open>Blocked\<close>.  A \<open>select\<close> whose two cases are ready together is decided by the parameter \<open>ho_tie\<close>.

  \<^bold>\<open>What the properties show.\<close>  C1 to C5: a shared list elects one bootstrapper, whom the others
  dial, and what malformed entries do to it.  C6 to C11: the join resource changes nothing
  without a valid credential, adds under the lock, removes unstarted learners only, and the RPCs
  carry each outcome unchanged.  C12 and C13: a restored seed boots caught up, and a
  corrupt snapshot never boots.  C14 and C15: the builder derives its configuration after every
  setter, and an advertise override survives them.  C16 to C20: the lifecycle, its orderly stop, the
  ready wait, and two surprises of the once-guards.  C21 to C28: the join from its guards to its
  rollback, and what a retry meets.  C29 to C33: the discovery store, the gate in front of it, its
  tokens, and the agreement of client and service.  C34 and C35: the raft stream.  C36: the offline
  initialization.  C37: the role of a node that joins by discovery.  C38 and C39: a claim is held
  while its keepalive runs, and a bootstrapper slower than the lifetime of its claim loses it.
  C40: the goroutine-backed endpoint that never returns.

  \<^bold>\<open>Not modelled.\<close>  Concurrency inside one node: calls on a handle are sequential, as the
  mutexes of the code make them; the places with interleaving are Raft_Stream (the readers and
  the swap) and Disco_Streams (a handler and its goroutine).  Logging, metrics and the snapshot \<open>Save\<close>
  (one call of an etcd function) only call libraries.
  The muxes that dispatch between the mounted handlers (net/http, h2c, grpc-gateway) are parameters.
  The interfaces of \<open>v0/v0.go\<close>, the facade \<open>lib.go\<close>, the examples and the end-to-end harness
  have no logic of their own.
\<close>

end
